theory Spec2Isabelle
  imports Complex_Main
begin

section \<open>Text, JSON values and builtins\<close>

text \<open>
  A Python string is the list of its Unicode code points, so that \<^verbatim>\<open>len\<close> is \<open>length\<close> and
  the slice \<^verbatim>\<open>s[:500]\<close> is \<open>take 500\<close>. \<open>lit\<close> is a string literal of the source (the
  literals of the source are ASCII).
\<close>

type_synonym pychar = nat

type_synonym pystr = "pychar list"

definition lit :: "string \<Rightarrow> pystr" where
  "lit s = map of_char s"

text \<open>
  A Python float is a finite value, modelled as a real number (the rounding of float
  arithmetic is not modelled), or one of \<^verbatim>\<open>inf\<close>, \<^verbatim>\<open>-inf\<close>, \<^verbatim>\<open>nan\<close>, which the code never
  tells apart. JSON values are what \<^verbatim>\<open>json.loads\<close> returns.
\<close>

datatype pyfloat = Finite real | NonFinite

datatype json =
    JNull
  | JBool bool
  | JInt int
  | JFloat pyfloat
  | JStr pystr
  | JArr "json list"
  | JObj "(pystr \<times> json) list"

text \<open>Python truthiness: \<^verbatim>\<open>if value:\<close>.\<close>

fun truthy :: "json \<Rightarrow> bool" where
  "truthy JNull = False"
| "truthy (JBool b) = b"
| "truthy (JInt i) = (i \<noteq> 0)"
| "truthy (JFloat (Finite r)) = (r \<noteq> 0)"
| "truthy (JFloat NonFinite) = True"
| "truthy (JStr s) = (s \<noteq> [])"
| "truthy (JArr xs) = (xs \<noteq> [])"
| "truthy (JObj kvs) = (kvs \<noteq> [])"

text \<open>The exceptions of the source, as values.\<close>

datatype exn =
    OllamaConnectionError pystr
  | OllamaModelError pystr
  | LLMConnectionError pystr
  | LLMGenerationError pystr
  | ValueError
  | TypeError
  | OverflowError
  | OtherException pystr

text \<open>
  What the model takes as parameters: the text \<^verbatim>\<open>str(v)\<close> of a value that is not a string,
  \<^verbatim>\<open>float(s)\<close> of a string (\<open>None\<close> is its \<^verbatim>\<open>ValueError\<close>), and the Unicode character
  database for the characters outside ASCII: the upper-case mapping of \<^verbatim>\<open>str.upper\<close>, which
  turns one character into one to three (here its first character and the rest), the
  lower-case mapping the regular-expression engine compares under \<^verbatim>\<open>re.IGNORECASE\<close>, and
  the class of decimal digits \<^verbatim>\<open>\d\<close> matches. Every theorem holds for all of their
  behaviours.
\<close>

record py_builtins =
  repr_of :: "json \<Rightarrow> pystr"
  float_of_str :: "pystr \<Rightarrow> pyfloat option"
  upper_of :: "pychar \<Rightarrow> pychar \<times> pystr"
  lower_of :: "pychar \<Rightarrow> pychar"
  decimal :: "pychar \<Rightarrow> bool"

text \<open>
  \<^verbatim>\<open>str.upper\<close> maps the string character by character; on ASCII it maps the letters
  \<^verbatim>\<open>a\<close> to \<^verbatim>\<open>z\<close> and nothing else.
\<close>

definition to_upper :: "py_builtins \<Rightarrow> pychar \<Rightarrow> pystr" where
  "to_upper py c =
     (if c < 128 then [if 97 \<le> c \<and> c \<le> 122 then c - 32 else c]
      else fst (upper_of py c) # snd (upper_of py c))"

definition upper :: "py_builtins \<Rightarrow> pystr \<Rightarrow> pystr" where
  "upper py s = concat (map (to_upper py) s)"

text \<open>
  \<^verbatim>\<open>str.strip()\<close> removes the characters of \<^verbatim>\<open>str.isspace\<close> from both ends: the ASCII
  ones and the Unicode spaces and separators.
\<close>

definition is_space :: "pychar \<Rightarrow> bool" where
  "is_space c =
     (c \<in> set [0x09, 0x0A, 0x0B, 0x0C, 0x0D, 0x1C, 0x1D, 0x1E, 0x1F, 0x20, 0x85, 0xA0,
               0x1680, 0x2000, 0x2001, 0x2002, 0x2003, 0x2004, 0x2005, 0x2006, 0x2007,
               0x2008, 0x2009, 0x200A, 0x2028, 0x2029, 0x202F, 0x205F, 0x3000])"

definition strip :: "pystr \<Rightarrow> pystr" where
  "strip s = rev (dropWhile is_space (rev (dropWhile is_space s)))"

text \<open>
  The two character tests of the regular-expression engine on a string pattern:
  \<^verbatim>\<open>\d\<close>, and a cased literal under \<^verbatim>\<open>re.IGNORECASE\<close>, which matches the characters whose
  lower case is the lower case of the literal.
\<close>

definition is_decimal :: "py_builtins \<Rightarrow> pychar \<Rightarrow> bool" where
  "is_decimal py c = (if c < 128 then 48 \<le> c \<and> c \<le> 57 else decimal py c)"

definition to_lower :: "py_builtins \<Rightarrow> pychar \<Rightarrow> pychar" where
  "to_lower py c = (if c < 128 then (if 65 \<le> c \<and> c \<le> 90 then c + 32 else c) else lower_of py c)"

text \<open>
  \<^verbatim>\<open>CVE_PATTERN = re.compile(r'CVE-\d{4}-\d{4,}', re.IGNORECASE)\<close>.
  \<open>cve_prefix\<close> is the match of \<^verbatim>\<open>CVE-\<close>: three cased letters and a dash, which has no
  case. \<open>cve_match_at\<close> is \<^verbatim>\<open>CVE_PATTERN.match\<close>: the match that starts at the first
  character, with the greedy \<^verbatim>\<open>\d{4,}\<close> taking every digit that follows. \<open>cve_search\<close> is
  \<^verbatim>\<open>CVE_PATTERN.search(s).group(0)\<close>: the match at the leftmost position that has one.
  \<open>cve_fullmatch\<close> is \<^verbatim>\<open>CVE_PATTERN.fullmatch\<close>; no shorter match can reach the end of
  the string when the greedy one does not, since the greedy one stops at a non-digit.
\<close>

definition cve_prefix :: "py_builtins \<Rightarrow> pystr \<Rightarrow> bool" where
  "cve_prefix py p = (map (to_lower py) (take 3 p) = lit ''cve'' \<and> drop 3 p = lit ''-'')"

definition cve_match_at :: "py_builtins \<Rightarrow> pystr \<Rightarrow> pystr option" where
  "cve_match_at py s =
     (let pre = take 4 s; year = take 4 (drop 4 s); dash = take 1 (drop 8 s);
          num = takeWhile (is_decimal py) (drop 9 s)
      in if cve_prefix py pre \<and> length year = 4 \<and> list_all (is_decimal py) year \<and>
            dash = lit ''-'' \<and> 4 \<le> length num
         then Some (pre @ year @ dash @ num) else None)"

fun cve_search :: "py_builtins \<Rightarrow> pystr \<Rightarrow> pystr option" where
  "cve_search py [] = None"
| "cve_search py (c # cs) =
     (case cve_match_at py (c # cs) of Some m \<Rightarrow> Some m | None \<Rightarrow> cve_search py cs)"

definition cve_fullmatch :: "py_builtins \<Rightarrow> pystr \<Rightarrow> bool" where
  "cve_fullmatch py s = (cve_match_at py s = Some s)"

text \<open>
  The language of the pattern, written from the regular expression itself: the strings
  \<^verbatim>\<open>CVE-\<close> (in any case), four digits, a dash, four or more digits.
\<close>

definition cve_wellformed :: "py_builtins \<Rightarrow> pystr \<Rightarrow> bool" where
  "cve_wellformed py s =
     (cve_prefix py (take 4 s) \<and> length (take 4 (drop 4 s)) = 4 \<and>
      list_all (is_decimal py) (take 4 (drop 4 s)) \<and> take 1 (drop 8 s) = lit ''-'' \<and>
      4 \<le> length (drop 9 s) \<and> list_all (is_decimal py) (drop 9 s))"

text \<open>\<^verbatim>\<open>str(v)\<close>: a string is its own text.\<close>

definition py_str :: "py_builtins \<Rightarrow> json \<Rightarrow> pystr" where
  "py_str py v = (case v of JStr s \<Rightarrow> s | _ \<Rightarrow> repr_of py v)"

text \<open>
  \<^verbatim>\<open>float(i)\<close> of an integer is the double nearest to it, a tie going to the even
  mantissa: an integer of at most 53 bits is exact, a longer one is rounded to its 53
  leading bits. When the rounded value reaches \<open>2 ^ 1024\<close> the conversion raises
  \<^verbatim>\<open>OverflowError\<close>, which is \<open>None\<close> here. \<open>bit_length\<close> is \<^verbatim>\<open>int.bit_length\<close>.
\<close>

fun bit_length :: "nat \<Rightarrow> nat" where
  "bit_length n = (if n = 0 then 0 else Suc (bit_length (n div 2)))"

declare bit_length.simps [simp del]

definition int_to_float :: "int \<Rightarrow> real option" where
  "int_to_float i =
     (let a = nat \<bar>i\<bar>; k = bit_length a
      in if k \<le> 53 then Some (of_int i)
         else
           (let q = 2 ^ (k - 53); d = a div q; r = a mod q;
                m = (if 2 * r < q then d else if q < 2 * r then d + 1
                     else if even d then d else d + 1)
            in if 2 ^ 1024 \<le> m * q then None
               else Some (of_int (sgn i * int (m * q)))))"

text \<open>
  \<^verbatim>\<open>float(v)\<close>: \<^verbatim>\<open>None\<close>, lists and dicts raise \<^verbatim>\<open>TypeError\<close>, a string that is not a
  number \<^verbatim>\<open>ValueError\<close>, an integer beyond the doubles \<^verbatim>\<open>OverflowError\<close>.
\<close>

definition py_float :: "py_builtins \<Rightarrow> json \<Rightarrow> exn + pyfloat" where
  "py_float py v =
     (case v of
        JFloat f \<Rightarrow> Inr f
      | JInt i \<Rightarrow> (case int_to_float i of None \<Rightarrow> Inl OverflowError
                                         | Some r \<Rightarrow> Inr (Finite r))
      | JBool b \<Rightarrow> Inr (Finite (if b then 1 else 0))
      | JStr s \<Rightarrow> (case float_of_str py s of None \<Rightarrow> Inl ValueError | Some f \<Rightarrow> Inr f)
      | _ \<Rightarrow> Inl TypeError)"

text \<open>\<^verbatim>\<open>dict.get(key)\<close> on the parsed JSON object: \<^verbatim>\<open>None\<close> for a missing key.\<close>

definition dict_get :: "(pystr \<rightharpoonup> json) \<Rightarrow> pystr \<Rightarrow> json" where
  "dict_get d k = (case d k of None \<Rightarrow> JNull | Some v \<Rightarrow> v)"

section \<open>LLMService: validation and confidence\<close>

text \<open>
  The validation issues are f-strings in the source; each constructor is one of its
  message templates, with the values the template prints.
\<close>

datatype issue =
    InvalidCveFormat pystr
  | CveFromRawText
  | NoCveFound
  | InvalidSeverity pystr
  | CvssOutOfRange pyfloat
  | InvalidCvssScore json
  | RawTextAsDescription

definition VALID_SEVERITIES :: "pystr set" where
  "VALID_SEVERITIES =
     {lit ''CRITICAL'', lit ''HIGH'', lit ''MEDIUM'', lit ''LOW'', lit ''NONE'', lit ''UNKNOWN''}"

text \<open>
  The dict \<^verbatim>\<open>validated\<close> has a fixed set of keys; a field is \<open>None\<close> when its key is
  absent, and \<open>v_validation_issues\<close> is the key \<^verbatim>\<open>_validation_issues\<close>.
\<close>

record validated =
  v_cve_id :: "pystr option"
  v_severity :: "pystr option"
  v_cvss_score :: "real option"
  v_title :: "pystr option"
  v_description :: "pystr option"
  v_vendor :: "pystr option"
  v_product :: "pystr option"
  v_cvss_vector :: "pystr option"
  v_validation_issues :: "issue list"

text \<open>The stages of \<^verbatim>\<open>_validate_extraction\<close>, each with the issues it appends.\<close>

definition validate_cve_id ::
  "py_builtins \<Rightarrow> (pystr \<rightharpoonup> json) \<Rightarrow> pystr \<Rightarrow> pystr option \<times> issue list" where
  "validate_cve_id py data raw_text =
     (let cve_id = dict_get data (lit ''cve_id'') in
      if truthy cve_id then
        (let c = strip (upper py (py_str py cve_id)) in
         if cve_fullmatch py c then (Some c, [])
         else (case cve_search py raw_text of
                 Some m \<Rightarrow> (Some (upper py m), [InvalidCveFormat c, CveFromRawText])
               | None \<Rightarrow> (None, [InvalidCveFormat c])))
      else (case cve_search py raw_text of
              Some m \<Rightarrow> (Some (upper py m), [])
            | None \<Rightarrow> (None, [NoCveFound])))"

definition validate_severity ::
  "py_builtins \<Rightarrow> (pystr \<rightharpoonup> json) \<Rightarrow> pystr \<times> issue list" where
  "validate_severity py data =
     (let severity = dict_get data (lit ''severity'') in
      if truthy severity then
        (let s = strip (upper py (py_str py severity)) in
         if s \<in> VALID_SEVERITIES then (s, [])
         else (lit ''UNKNOWN'', [InvalidSeverity s]))
      else (lit ''UNKNOWN'', []))"

definition cvss_in_range :: "pyfloat \<Rightarrow> bool" where
  "cvss_in_range f = (case f of Finite r \<Rightarrow> 0 \<le> r \<and> r \<le> 10 | NonFinite \<Rightarrow> False)"

definition validate_cvss_score ::
  "py_builtins \<Rightarrow> (pystr \<rightharpoonup> json) \<Rightarrow> exn + (real option \<times> issue list)" where
  "validate_cvss_score py data =
     (let cvss_score = dict_get data (lit ''cvss_score'') in
      if cvss_score \<noteq> JNull then
        (case py_float py cvss_score of
           Inr score \<Rightarrow>
             (case score of
                Finite r \<Rightarrow> if 0 \<le> r \<and> r \<le> 10 then Inr (Some r, [])
                            else Inr (None, [CvssOutOfRange score])
              | NonFinite \<Rightarrow> Inr (None, [CvssOutOfRange score]))
         | Inl e \<Rightarrow>
             if e = ValueError \<or> e = TypeError then Inr (None, [InvalidCvssScore cvss_score])
             else Inl e)
      else Inr (None, []))"

definition string_field :: "py_builtins \<Rightarrow> (pystr \<rightharpoonup> json) \<Rightarrow> pystr \<Rightarrow> pystr option" where
  "string_field py data field =
     (let v = dict_get data field in
      if truthy v \<and> strip (py_str py v) \<noteq> [] then Some (strip (py_str py v)) else None)"

definition ensure_description :: "pystr option \<Rightarrow> pystr \<Rightarrow> pystr option \<times> issue list" where
  "ensure_description d raw_text =
     (case d of
        None \<Rightarrow> (Some (take 500 raw_text), [RawTextAsDescription])
      | Some s \<Rightarrow> if length s < 10 then (Some (take 500 raw_text), [RawTextAsDescription])
                  else (Some s, []))"

definition validate_extraction ::
  "py_builtins \<Rightarrow> (pystr \<rightharpoonup> json) \<Rightarrow> pystr \<Rightarrow> exn + validated" where
  "validate_extraction py data raw_text =
     (let (cve, issues1) = validate_cve_id py data raw_text;
          (sev, issues2) = validate_severity py data
      in case validate_cvss_score py data of
           Inl e \<Rightarrow> Inl e
         | Inr (cvss, issues3) \<Rightarrow>
             (let (descr, issues4) = ensure_description (string_field py data (lit ''description'')) raw_text
              in Inr \<lparr> v_cve_id = cve,
                       v_severity = Some sev,
                       v_cvss_score = cvss,
                       v_title = string_field py data (lit ''title''),
                       v_description = descr,
                       v_vendor = string_field py data (lit ''vendor''),
                       v_product = string_field py data (lit ''product''),
                       v_cvss_vector = string_field py data (lit ''cvss_vector''),
                       v_validation_issues = issues1 @ issues2 @ issues3 @ issues4 \<rparr>))"

text \<open>
  \<^verbatim>\<open>round(x, 3)\<close>: to the nearest multiple of 0.001, a tie going to the even one.
\<close>

definition round_half_even :: "real \<Rightarrow> int" where
  "round_half_even x =
     (let f = \<lfloor>x\<rfloor>; d = x - of_int f
      in if d < 1 / 2 then f else if 1 / 2 < d then f + 1 else if even f then f else f + 1)"

definition py_round3 :: "real \<Rightarrow> real" where
  "py_round3 x = of_int (round_half_even (x * 1000)) / 1000"

text \<open>Truthiness of \<^verbatim>\<open>validated_data.get(key)\<close> for a string field.\<close>

definition truthy_str :: "pystr option \<Rightarrow> bool" where
  "truthy_str v = (case v of None \<Rightarrow> False | Some s \<Rightarrow> s \<noteq> [])"

definition description_points :: "pystr \<Rightarrow> real" where
  "description_points description =
     (if 50 \<le> length description then 15
      else if 20 \<le> length description then 10
      else if 10 \<le> length description then 5
      else 0)"

definition calculate_confidence :: "validated \<Rightarrow> pystr \<Rightarrow> real" where
  "calculate_confidence validated_data raw_text =
     (let max_score = 30 + 20 + 15 + 10 + 15 + 10;
          score = (if truthy_str (v_cve_id validated_data) then 30 else 0)
                + (if truthy_str (v_vendor validated_data) then 10 else 0)
                + (if truthy_str (v_product validated_data) then 10 else 0)
                + (if truthy_str (v_severity validated_data) \<and>
                      v_severity validated_data \<noteq> Some (lit ''UNKNOWN'') then 15 else 0)
                + (if v_cvss_score validated_data \<noteq> None then 10 else 0)
                + description_points
                    (case v_description validated_data of None \<Rightarrow> [] | Some d \<Rightarrow> d)
                + (if truthy_str (v_title validated_data) then 10 else 0);
          penalty = min (int (length (v_validation_issues validated_data)) * 5) 20;
          final_score = max 0 (min 1 (score / max_score - of_int penalty / 100))
      in py_round3 final_score)"

text \<open>The formula of the specification, written from its words.\<close>

definition spec_weighted_sum :: "validated \<Rightarrow> real" where
  "spec_weighted_sum v =
       (if v_cve_id v \<noteq> None then 30 else 0)
     + (if v_vendor v \<noteq> None then 10 else 0)
     + (if v_product v \<noteq> None then 10 else 0)
     + (if v_severity v \<noteq> None \<and> v_severity v \<noteq> Some (lit ''UNKNOWN'') then 15 else 0)
     + (if v_cvss_score v \<noteq> None then 10 else 0)
     + (let n = (case v_description v of None \<Rightarrow> 0 | Some d \<Rightarrow> length d)
        in if 50 \<le> n then 15 else if 20 \<le> n then 10 else if 10 \<le> n then 5 else 0)
     + (if v_title v \<noteq> None then 10 else 0)"

definition spec_confidence :: "validated \<Rightarrow> real" where
  "spec_confidence v =
     py_round3 (max 0 (min 1 (spec_weighted_sum v / 100
                              - min (20 / 100) (5 / 100 * real (length (v_validation_issues v))))))"

section \<open>LLMService: extraction and its fallback\<close>

type_synonym datetime = int

text \<open>
  The metadata dict of a result, as the list of its keys and values in the order of the
  dict literal; \<open>meta_get\<close> reads a key.
\<close>

datatype meta_value =
    MStr pystr
  | MNum real
  | MNat nat
  | MBool bool
  | MTime datetime
  | MJson json
  | MDict "(string \<times> json) list"
  | MIssues "issue list"

type_synonym metadata = "(string \<times> meta_value) list"

definition meta_get :: "metadata \<Rightarrow> string \<Rightarrow> meta_value option" where
  "meta_get m k = map_of m k"

record extraction_result =
  cve_id :: "pystr option"
  title :: "pystr option"
  description :: pystr
  vendor :: "pystr option"
  product :: "pystr option"
  severity :: "pystr option"
  cvss_score :: "real option"
  cvss_vector :: "pystr option"
  confidence_score :: real
  needs_review :: bool
  extraction_metadata :: metadata

text \<open>
  What \<^verbatim>\<open>generate_json\<close> returns: \<^verbatim>\<open>{"data": ..., "metadata": ...}\<close>, the metadata as the
  list of its keys and values.
\<close>

record generation =
  gen_data :: "pystr \<rightharpoonup> json"
  gen_metadata :: "(string \<times> json) list"

text \<open>
  The Ollama client is the outcome of its \<^verbatim>\<open>generate_json(model, prompt, temperature,
  system_prompt)\<close>: a result or a raised exception.
\<close>

record llm_service =
  ollama_client :: "pystr \<Rightarrow> pystr \<Rightarrow> real \<Rightarrow> pystr \<Rightarrow> exn + generation"
  model :: pystr
  temperature :: real
  confidence_threshold :: real

definition nl :: pystr where
  "nl = [0x0A]"

definition SYSTEM_PROMPT :: pystr where
  "SYSTEM_PROMPT =
     lit ''You are a cybersecurity data extraction assistant. Your task is to extract structured vulnerability information from raw text.'' @ nl @ nl @
     lit ''Extract the following fields:'' @ nl @
     lit ''- cve_id: CVE identifier (format: CVE-YYYY-NNNNN)'' @ nl @
     lit ''- title: Short vulnerability title'' @ nl @
     lit ''- description: Detailed description'' @ nl @
     lit ''- vendor: Affected vendor/organization'' @ nl @
     lit ''- product: Affected product name'' @ nl @
     lit ''- severity: One of CRITICAL, HIGH, MEDIUM, LOW, NONE, or UNKNOWN'' @ nl @
     lit ''- cvss_score: CVSS score if available (0.0-10.0)'' @ nl @
     lit ''- cvss_vector: CVSS vector string if available'' @ nl @ nl @
     lit ''Return ONLY a JSON object with these fields. Use null for missing values.'' @ nl @
     lit ''Be conservative - only extract information you are confident about.''"

definition build_extraction_prompt :: "pystr \<Rightarrow> pystr" where
  "build_extraction_prompt raw_text =
     lit ''Extract vulnerability information from the following text:'' @ nl @ nl @
     raw_text @ nl @ nl @
     lit ''Return a JSON object with the extracted fields.''"

definition create_fallback_result ::
  "py_builtins \<Rightarrow> datetime \<Rightarrow> pystr \<Rightarrow> pystr \<Rightarrow> extraction_result" where
  "create_fallback_result py now raw_text error_msg =
     (let cve_match = cve_search py raw_text;
          cve = (case cve_match of Some m \<Rightarrow> Some (upper py m) | None \<Rightarrow> None)
      in \<lparr> cve_id = cve,
           title = None,
           description = take 500 raw_text,
           vendor = None,
           product = None,
           severity = Some (lit ''UNKNOWN''),
           cvss_score = None,
           cvss_vector = None,
           confidence_score = (if truthy_str cve then 0.1 else 0.0),
           needs_review = True,
           extraction_metadata =
             [(''error'', MStr error_msg), (''fallback'', MBool True),
              (''extraction_time'', MTime now)] \<rparr>)"

text \<open>
  \<^verbatim>\<open>str(e)\<close> of an exception raised with one message. The builtin exceptions of the
  model carry no message of their own here.
\<close>

fun exn_str :: "exn \<Rightarrow> pystr" where
  "exn_str (OllamaConnectionError m) = m"
| "exn_str (OllamaModelError m) = m"
| "exn_str (LLMConnectionError m) = m"
| "exn_str (LLMGenerationError m) = m"
| "exn_str (OtherException m) = m"
| "exn_str ValueError = lit ''ValueError''"
| "exn_str TypeError = lit ''TypeError''"
| "exn_str OverflowError = lit ''int too large to convert to float''"

text \<open>
  The body of \<^verbatim>\<open>LLMService.extract_vulnerability\<close> inside its \<^verbatim>\<open>try\<close>, and the function
  with its one handler, \<^verbatim>\<open>except OllamaModelError\<close>. \<open>now\<close> is the reading of
  \<^verbatim>\<open>datetime.utcnow()\<close>; \<open>Inl\<close> is an exception that reaches the caller.
\<close>

definition extraction_of_validated ::
  "validated \<Rightarrow> pystr \<Rightarrow> real \<Rightarrow> bool \<Rightarrow> metadata \<Rightarrow> extraction_result" where
  "extraction_of_validated v raw_text confidence review meta =
     \<lparr> cve_id = v_cve_id v,
       title = v_title v,
       description = (case v_description v of None \<Rightarrow> take 500 raw_text | Some d \<Rightarrow> d),
       vendor = v_vendor v,
       product = v_product v,
       severity = v_severity v,
       cvss_score = v_cvss_score v,
       cvss_vector = v_cvss_vector v,
       confidence_score = confidence,
       needs_review = review,
       extraction_metadata = meta \<rparr>"

definition extract_try ::
  "py_builtins \<Rightarrow> llm_service \<Rightarrow> datetime \<Rightarrow> pystr \<Rightarrow> exn + extraction_result" where
  "extract_try py svc now raw_text =
     (case ollama_client svc (model svc) (build_extraction_prompt raw_text)
             (temperature svc) SYSTEM_PROMPT of
        Inl e \<Rightarrow> Inl e
      | Inr result \<Rightarrow>
          (case validate_extraction py (gen_data result) raw_text of
             Inl e \<Rightarrow> Inl e
           | Inr v \<Rightarrow>
               (let confidence = calculate_confidence v raw_text;
                    review = (confidence < confidence_threshold svc)
                in Inr (extraction_of_validated v raw_text confidence review
                     [(''model'', MStr (model svc)),
                      (''temperature'', MNum (temperature svc)),
                      (''extraction_time'', MTime now),
                      (''llm_duration_ms'',
                         MJson (case map_of (gen_metadata result) ''total_duration_ms'' of
                                  None \<Rightarrow> JInt 0 | Some d \<Rightarrow> d)),
                      (''validation_issues'', MIssues (v_validation_issues v))]))))"

definition extract_vulnerability ::
  "py_builtins \<Rightarrow> llm_service \<Rightarrow> datetime \<Rightarrow> pystr \<Rightarrow> exn + extraction_result" where
  "extract_vulnerability py svc now raw_text =
     (case extract_try py svc now raw_text of
        Inl (OllamaModelError msg) \<Rightarrow> Inr (create_fallback_result py now raw_text msg)
      | Inl e \<Rightarrow> Inl e
      | Inr r \<Rightarrow> Inr r)"

section \<open>MultiProviderLLMService\<close>

text \<open>
  A provider is its name and the outcome of its \<^verbatim>\<open>generate_json(model, prompt,
  system_prompt, temperature)\<close>.
\<close>

record provider =
  provider_name :: pystr
  generate_json :: "pystr \<Rightarrow> pystr \<Rightarrow> pystr \<Rightarrow> real \<Rightarrow> exn + generation"

record multi_service =
  primary_provider :: provider
  fallback_providers :: "provider list"
  m_model :: pystr
  m_temperature :: real
  m_confidence_threshold :: real
  max_retries :: int

text \<open>The constructor with its default arguments.\<close>

definition MultiProviderLLMService :: "provider \<Rightarrow> provider list \<Rightarrow> multi_service" where
  "MultiProviderLLMService primary fallbacks =
     \<lparr> primary_provider = primary, fallback_providers = fallbacks, m_model = lit ''auto'',
       m_temperature = 0.1, m_confidence_threshold = 0.8, max_retries = 3 \<rparr>"

definition all_failed_result ::
  "py_builtins \<Rightarrow> datetime \<Rightarrow> pystr \<Rightarrow> exn option \<Rightarrow> extraction_result" where
  "all_failed_result py now raw_text last_error =
     create_fallback_result py now raw_text
       (lit ''All providers failed: '' @ (case last_error of None \<Rightarrow> lit ''None'' | Some e \<Rightarrow> exn_str e))"

text \<open>
  The loop \<^verbatim>\<open>for attempt, provider in enumerate(providers_to_try)\<close>. The second component
  of the result is the log of the calls made: the names of the providers whose
  \<^verbatim>\<open>generate_json\<close> was called, in order.
\<close>

fun try_providers ::
  "py_builtins \<Rightarrow> multi_service \<Rightarrow> datetime \<Rightarrow> pystr \<Rightarrow> nat \<Rightarrow> provider list \<Rightarrow>
   exn option \<Rightarrow> pystr list \<Rightarrow> (exn + extraction_result) \<times> pystr list" where
  "try_providers py svc now raw_text attempt [] last_error calls =
     (Inr (all_failed_result py now raw_text last_error), calls)"
| "try_providers py svc now raw_text attempt (p # ps) last_error calls =
     (if max_retries svc \<le> int attempt
      then (Inr (all_failed_result py now raw_text last_error), calls)
      else
        (case generate_json p (m_model svc) (build_extraction_prompt raw_text)
                SYSTEM_PROMPT (m_temperature svc) of
           Inr result \<Rightarrow>
             (case validate_extraction py (gen_data result) raw_text of
                Inl e \<Rightarrow> (Inl e, calls @ [provider_name p])
              | Inr v \<Rightarrow>
                  (let confidence = calculate_confidence v raw_text;
                       review = (confidence < m_confidence_threshold svc)
                   in (Inr (extraction_of_validated v raw_text confidence review
                         [(''provider'', MStr (provider_name p)),
                          (''model'', MStr (m_model svc)),
                          (''temperature'', MNum (m_temperature svc)),
                          (''extraction_time'', MTime now),
                          (''provider_metadata'', MDict (gen_metadata result)),
                          (''validation_issues'', MIssues (v_validation_issues v)),
                          (''fallback_attempt'', MNat attempt)]),
                       calls @ [provider_name p])))
         | Inl (LLMConnectionError m) \<Rightarrow>
             try_providers py svc now raw_text (Suc attempt) ps
               (Some (LLMConnectionError m)) (calls @ [provider_name p])
         | Inl (LLMGenerationError m) \<Rightarrow>
             try_providers py svc now raw_text (Suc attempt) ps
               (Some (LLMGenerationError m)) (calls @ [provider_name p])
         | Inl e \<Rightarrow> (Inl e, calls @ [provider_name p])))"

definition providers_to_try :: "multi_service \<Rightarrow> provider list" where
  "providers_to_try svc = primary_provider svc # fallback_providers svc"

definition multi_extract_vulnerability ::
  "py_builtins \<Rightarrow> multi_service \<Rightarrow> datetime \<Rightarrow> pystr \<Rightarrow>
   (exn + extraction_result) \<times> pystr list" where
  "multi_extract_vulnerability py svc now raw_text =
     try_providers py svc now raw_text 0 (providers_to_try svc) None []"

text \<open>The outcome of the call the loop makes on a provider.\<close>

definition provider_outcome :: "multi_service \<Rightarrow> pystr \<Rightarrow> provider \<Rightarrow> exn + generation" where
  "provider_outcome svc raw_text p =
     generate_json p (m_model svc) (build_extraction_prompt raw_text) SYSTEM_PROMPT
       (m_temperature svc)"

fun is_provider_error :: "exn + generation \<Rightarrow> bool" where
  "is_provider_error (Inl (LLMConnectionError m)) = True"
| "is_provider_error (Inl (LLMGenerationError m)) = True"
| "is_provider_error other = False"

section \<open>ProcessingService\<close>

datatype processing_status = PENDING | PROCESSING | COMPLETED | FAILED | NEEDS_REVIEW

text \<open>
  The rows of the two tables. \<open>entry_id\<close> is the column \<^verbatim>\<open>id\<close> of a raw entry; the columns
  of a vulnerability that share a name with a field of the extraction result carry the
  prefix \<open>vuln_\<close>. Timestamps are integers (microseconds).
\<close>

record raw_entry =
  entry_id :: nat
  source_id :: nat
  raw_payload :: pystr
  processing_status :: processing_status
  processing_attempts :: int
  last_processing_error :: "pystr option"
  ingested_at :: datetime
  processed_at :: "datetime option"

record vulnerability =
  vuln_cve_id :: pystr
  vuln_title :: "pystr option"
  vuln_description :: pystr
  vuln_cvss_score :: "real option"
  vuln_cvss_vector :: "pystr option"
  vuln_severity :: "pystr option"
  epss_score :: "real option"
  kev_status :: bool
  kev_date_added :: "datetime option"
  vuln_confidence_score :: real
  vuln_needs_review :: bool
  vuln_extraction_metadata :: "metadata option"
  remediated_at :: "datetime option"
  published_date :: "datetime option"
  created_at :: datetime
  updated_at :: datetime

record llm_config =
  ollama_base_url :: pystr
  selected_model :: "pystr option"
  cfg_temperature :: real
  cfg_confidence_threshold :: real
  batch_size :: nat

text \<open>
  The state the pipeline works on: the two tables, and the system clock as the sequence
  of the readings of \<^verbatim>\<open>datetime.utcnow()\<close> with the number of readings taken so far.
  A table is the list of its rows.
\<close>

record state =
  raw_entries :: "raw_entry list"
  vulnerabilities :: "vulnerability list"
  clock :: "nat \<Rightarrow> datetime"
  ticks :: nat

definition utcnow :: "state \<Rightarrow> datetime \<times> state" where
  "utcnow s = (clock s (ticks s), s\<lparr>ticks := Suc (ticks s)\<rparr>)"

text \<open>\<^verbatim>\<open>db.get(Vulnerability, cve_id)\<close>: the row with that primary key.\<close>

definition db_get :: "state \<Rightarrow> pystr \<Rightarrow> vulnerability option" where
  "db_get s c = find (\<lambda>v. vuln_cve_id v = c) (vulnerabilities s)"

text \<open>
  A commit writes a changed object back to its row: the entry by its id, the
  vulnerability \<^verbatim>\<open>db.get\<close> returned (the first row with that key) in its place.
\<close>

definition save_entry :: "raw_entry \<Rightarrow> state \<Rightarrow> state" where
  "save_entry e s =
     s\<lparr>raw_entries := map (\<lambda>x. if entry_id x = entry_id e then e else x) (raw_entries s)\<rparr>"

fun replace_first :: "vulnerability \<Rightarrow> vulnerability list \<Rightarrow> vulnerability list" where
  "replace_first v [] = []"
| "replace_first v (x # xs) =
     (if vuln_cve_id x = vuln_cve_id v then v # xs else x # replace_first v xs)"

definition save_vulnerability :: "vulnerability \<Rightarrow> state \<Rightarrow> state" where
  "save_vulnerability v s = s\<lparr>vulnerabilities := replace_first v (vulnerabilities s)\<rparr>"

text \<open>
  The INSERT of a new row at commit. The columns \<^verbatim>\<open>created_at\<close> and \<^verbatim>\<open>updated_at\<close> each
  have \<^verbatim>\<open>default=datetime.utcnow\<close>: the default of each column is called on its own, in
  the order of the columns. The session keeps objects loaded after a commit
  (\<^verbatim>\<open>expire_on_commit=False\<close>), so the object the caller holds carries both values.
\<close>

definition insert_vulnerability :: "vulnerability \<Rightarrow> state \<Rightarrow> vulnerability \<times> state" where
  "insert_vulnerability v s =
     (let (t1, s1) = utcnow s;
          (t2, s2) = utcnow s1;
          v' = v\<lparr>created_at := t1, updated_at := t2\<rparr>
      in (v', s2\<lparr>vulnerabilities := vulnerabilities s2 @ [v']\<rparr>))"

text \<open>The Python \<^verbatim>\<open>a or b\<close> on the fields the update path merges.\<close>

definition or_str :: "pystr option \<Rightarrow> pystr option \<Rightarrow> pystr option" where
  "or_str a b = (if truthy_str a then a else b)"

definition or_text :: "pystr \<Rightarrow> pystr \<Rightarrow> pystr" where
  "or_text a b = (if a \<noteq> [] then a else b)"

definition or_float :: "real option \<Rightarrow> real option \<Rightarrow> real option" where
  "or_float a b = (case a of None \<Rightarrow> b | Some r \<Rightarrow> if r \<noteq> 0 then Some r else b)"

text \<open>
  \<^verbatim>\<open>Vulnerability(cve_id=..., ...)\<close>: the columns the constructor is given, the others at
  their defaults; the two timestamps are set by the INSERT.
\<close>

definition new_vulnerability :: "pystr \<Rightarrow> extraction_result \<Rightarrow> vulnerability" where
  "new_vulnerability c extraction =
     \<lparr> vuln_cve_id = c,
       vuln_title = title extraction,
       vuln_description = description extraction,
       vuln_cvss_score = cvss_score extraction,
       vuln_cvss_vector = cvss_vector extraction,
       vuln_severity = severity extraction,
       epss_score = None,
       kev_status = False,
       kev_date_added = None,
       vuln_confidence_score = confidence_score extraction,
       vuln_needs_review = needs_review extraction,
       vuln_extraction_metadata = Some (extraction_metadata extraction),
       remediated_at = None,
       published_date = None,
       created_at = 0,
       updated_at = 0 \<rparr>"

text \<open>
  \<^verbatim>\<open>process_entry\<close>. \<open>llm_service\<close> is the outcome of
  \<^verbatim>\<open>llm_service.extract_vulnerability(entry.raw_payload)\<close> as a function of the payload.
  The result is the returned vulnerability (or \<open>None\<close>), the entry object as the caller
  sees it afterwards, and the new state.
\<close>

definition fail_entry :: "pystr \<Rightarrow> raw_entry \<Rightarrow> state \<Rightarrow> raw_entry \<times> state" where
  "fail_entry msg entry s =
     (let (now, s1) = utcnow s;
          entry' = entry\<lparr>processing_status := FAILED, last_processing_error := Some msg,
                         processed_at := Some now\<rparr>
      in (entry', save_entry entry' s1))"

definition complete_entry :: "raw_entry \<Rightarrow> state \<Rightarrow> raw_entry \<times> state" where
  "complete_entry entry s =
     (let (now, s1) = utcnow s;
          entry' = entry\<lparr>processing_status := COMPLETED, processed_at := Some now\<rparr>
      in (entry', save_entry entry' s1))"

definition process_entry ::
  "(pystr \<Rightarrow> exn + extraction_result) \<Rightarrow> state \<Rightarrow> raw_entry \<Rightarrow>
   vulnerability option \<times> raw_entry \<times> state" where
  "process_entry llm_service s entry =
     (let entry1 = entry\<lparr>processing_status := PROCESSING,
                           processing_attempts := processing_attempts entry + 1\<rparr>;
          s1 = save_entry entry1 s
      in case llm_service (raw_payload entry1) of
           Inl e \<Rightarrow> (None, fail_entry (exn_str e) entry1 s1)
         | Inr extraction \<Rightarrow>
             (case cve_id extraction of
                None \<Rightarrow> (None, fail_entry (lit ''No CVE ID extracted from text'') entry1 s1)
              | Some c \<Rightarrow>
                  if c = [] then (None, fail_entry (lit ''No CVE ID extracted from text'') entry1 s1)
                  else
                    (case db_get s1 c of
                       Some existing \<Rightarrow>
                         if vuln_confidence_score existing < confidence_score extraction then
                           (let (now, s2) = utcnow s1;
                                existing' = existing
                                  \<lparr>vuln_title := or_str (title extraction) (vuln_title existing),
                                   vuln_description :=
                                     or_text (description extraction) (vuln_description existing),
                                   vuln_severity :=
                                     or_str (severity extraction) (vuln_severity existing),
                                   vuln_cvss_score :=
                                     or_float (cvss_score extraction) (vuln_cvss_score existing),
                                   vuln_cvss_vector :=
                                     or_str (cvss_vector extraction) (vuln_cvss_vector existing),
                                   vuln_confidence_score := confidence_score extraction,
                                   vuln_needs_review := needs_review extraction,
                                   vuln_extraction_metadata :=
                                     Some (extraction_metadata extraction),
                                   updated_at := now\<rparr>
                            in (Some existing', complete_entry entry1 (save_vulnerability existing' s2)))
                         else (None, complete_entry entry1 s1)
                     | None \<Rightarrow>
                         (let (entry2, s2) = complete_entry entry1 s1;
                              (v, s3) = insert_vulnerability (new_vulnerability c extraction) s2
                          in (Some v, entry2, s3)))))"

text \<open>
  \<^verbatim>\<open>get_pending_entries\<close>: the rows the query selects, oldest first, at most \<open>limit\<close>.
\<close>

definition selectable :: "raw_entry \<Rightarrow> bool" where
  "selectable e =
     (processing_status e = PENDING \<or>
      (processing_status e = FAILED \<and> processing_attempts e < 3))"

definition get_pending_entries ::
  "llm_config option \<Rightarrow> nat option \<Rightarrow> state \<Rightarrow> raw_entry list" where
  "get_pending_entries config limit s =
     (let limit1 = (case limit of
                      None \<Rightarrow> (case config of Some c \<Rightarrow> Some (batch_size c) | None \<Rightarrow> None)
                    | Some l \<Rightarrow> Some l);
          limit2 = (case limit1 of None \<Rightarrow> 10 | Some l \<Rightarrow> l)
      in take limit2 (sort_key ingested_at (filter selectable (raw_entries s))))"

record processing_stats =
  processed :: nat
  created :: nat
  updated :: nat
  failed :: nat
  skipped :: nat
  duplicates :: nat
  purged :: nat
  started_at :: datetime
  ended_at :: "datetime option"

definition new_stats :: "state \<Rightarrow> processing_stats \<times> state" where
  "new_stats s =
     (let (now, s1) = utcnow s
      in (\<lparr> processed = 0, created = 0, updated = 0, failed = 0, skipped = 0,
             duplicates = 0, purged = 0, started_at = now, ended_at = None \<rparr>, s1))"

definition finish :: "processing_stats \<Rightarrow> state \<Rightarrow> processing_stats \<times> state" where
  "finish stats s = (let (now, s1) = utcnow s in (stats\<lparr>ended_at := Some now\<rparr>, s1))"

text \<open>
  The classification \<^verbatim>\<open>process_batch\<close> makes of one processed entry, from the returned
  vulnerability and the status of the entry.
\<close>

definition count_result ::
  "vulnerability option \<Rightarrow> raw_entry \<Rightarrow> processing_stats \<Rightarrow> processing_stats" where
  "count_result result entry stats =
     (let stats1 = stats\<lparr>processed := processed stats + 1\<rparr>
      in case result of
           Some r \<Rightarrow>
             if created_at r = updated_at r then stats1\<lparr>created := created stats1 + 1\<rparr>
             else stats1\<lparr>updated := updated stats1 + 1, duplicates := duplicates stats1 + 1\<rparr>
         | None \<Rightarrow>
             if processing_status entry = FAILED then stats1\<lparr>failed := failed stats1 + 1\<rparr>
             else stats1\<lparr>skipped := skipped stats1 + 1, duplicates := duplicates stats1 + 1\<rparr>)"

text \<open>
  The loop of \<^verbatim>\<open>process_batch\<close> over the selected entries. \<open>llm k\<close> is the behaviour of the
  extraction service at the \<open>k\<close>-th call of the batch.
\<close>

fun process_entries ::
  "(nat \<Rightarrow> pystr \<Rightarrow> exn + extraction_result) \<Rightarrow> nat \<Rightarrow> raw_entry list \<Rightarrow>
   processing_stats \<Rightarrow> state \<Rightarrow> processing_stats \<times> state" where
  "process_entries llm k [] stats s = (stats, s)"
| "process_entries llm k (entry # rest) stats s =
     (let (result, entry', s') = process_entry (llm k) s entry
      in process_entries llm (Suc k) rest (count_result result entry' stats) s')"

text \<open>
  \<^verbatim>\<open>process_batch\<close>. \<open>config\<close> is the row \<^verbatim>\<open>get_llm_config\<close> finds, \<open>online\<close> whether
  \<^verbatim>\<open>test_connection\<close> returns rather than raising \<^verbatim>\<open>OllamaConnectionError\<close>.
\<close>

definition process_batch ::
  "llm_config option \<Rightarrow> bool \<Rightarrow> (nat \<Rightarrow> pystr \<Rightarrow> exn + extraction_result) \<Rightarrow>
   nat option \<Rightarrow> state \<Rightarrow> processing_stats \<times> state" where
  "process_batch config online llm requested s =
     (let (stats, s1) = new_stats s
      in case config of
           None \<Rightarrow> finish stats s1
         | Some cfg \<Rightarrow>
             if \<not> truthy_str (selected_model cfg) then finish stats s1
             else if \<not> online then finish stats s1
             else
               (let limit = (case requested of
                               None \<Rightarrow> batch_size cfg
                             | Some b \<Rightarrow> if b \<noteq> 0 then b else batch_size cfg);
                    entries = get_pending_entries config (Some limit) s1;
                    (stats2, s2) = process_entries llm 0 entries stats s1
                in finish stats2 s2))"

text \<open>\<^verbatim>\<open>purge_old_entries\<close>; a day is 86400000000 microseconds of the clock.\<close>

definition purgeable :: "datetime \<Rightarrow> raw_entry \<Rightarrow> bool" where
  "purgeable cutoff e =
     (processing_status e = COMPLETED \<and>
      (case processed_at e of None \<Rightarrow> False | Some t \<Rightarrow> t < cutoff))"

definition purge_old_entries :: "int \<Rightarrow> state \<Rightarrow> nat \<times> state" where
  "purge_old_entries days s =
     (let (now, s1) = utcnow s;
          cutoff_date = now - days * 86400000000
      in (length (filter (purgeable cutoff_date) (raw_entries s1)),
          s1\<lparr>raw_entries := filter (\<lambda>e. \<not> purgeable cutoff_date e) (raw_entries s1)\<rparr>))"

text \<open>
  Ingestion adds a row with the column defaults: status PENDING, no attempts, a fresh id.
\<close>

definition ingest :: "nat \<Rightarrow> pystr \<Rightarrow> state \<Rightarrow> state" where
  "ingest src payload s =
     (let (now, s1) = utcnow s;
          e = \<lparr> entry_id = Suc (fold max (map entry_id (raw_entries s1)) 0),
                source_id = src, raw_payload = payload,
                processing_status = PENDING, processing_attempts = 0,
                last_processing_error = None, ingested_at = now, processed_at = None \<rparr>
      in s1\<lparr>raw_entries := raw_entries s1 @ [e]\<rparr>)"

definition empty_state :: "(nat \<Rightarrow> datetime) \<Rightarrow> state" where
  "empty_state c = \<lparr> raw_entries = [], vulnerabilities = [], clock = c, ticks = 0 \<rparr>"

text \<open>
  The runs of the pipeline: \<open>reaches s t\<close> when \<open>t\<close> comes from \<open>s\<close> by ingestions, batches
  and purges in any order. A state is reachable when a run from the empty tables ends in it.
\<close>

inductive reaches :: "state \<Rightarrow> state \<Rightarrow> bool" where
  reaches_refl: "reaches s s"
| reaches_ingest: "reaches s t \<Longrightarrow> reaches s (ingest src payload t)"
| reaches_batch:
    "reaches s t \<Longrightarrow> reaches s (snd (process_batch config online llm requested t))"
| reaches_purge: "reaches s t \<Longrightarrow> reaches s (snd (purge_old_entries days t))"

definition reachable :: "state \<Rightarrow> bool" where
  "reachable s = (\<exists>c. reaches (empty_state c) s)"

section \<open>Rules and invariants used by the claims\<close>

text \<open>
  The one input on which validation raises: a score that is an integer \<^verbatim>\<open>float\<close> cannot
  convert.
\<close>

definition too_large :: "json \<Rightarrow> bool" where
  "too_large v = (case v of JInt i \<Rightarrow> int_to_float i = None | _ \<Rightarrow> False)"

text \<open>
  The rules of the severity and CVSS validation, as the code applies them. A severity
  is missing when the value is absent or falsy: null, an empty string, list or dict,
  zero, or false.
\<close>

definition severity_rule :: "py_builtins \<Rightarrow> (pystr \<rightharpoonup> json) \<Rightarrow> validated \<Rightarrow> bool" where
  "severity_rule py data v =
     (let sev = dict_get data (lit ''severity''); s = strip (upper py (py_str py sev))
      in (\<exists>u. v_severity v = Some u \<and> u \<in> VALID_SEVERITIES) \<and>
         v_severity v = Some (if truthy sev \<and> s \<in> VALID_SEVERITIES then s else lit ''UNKNOWN'') \<and>
         ((\<exists>x. InvalidSeverity x \<in> set (v_validation_issues v)) =
          (truthy sev \<and> s \<notin> VALID_SEVERITIES)))"

definition cvss_rule :: "py_builtins \<Rightarrow> (pystr \<rightharpoonup> json) \<Rightarrow> validated \<Rightarrow> bool" where
  "cvss_rule py data v =
     (let c = dict_get data (lit ''cvss_score'');
          kept = (\<exists>r. c \<noteq> JNull \<and> py_float py c = Inr (Finite r) \<and> 0 \<le> r \<and> r \<le> 10 \<and>
                      v_cvss_score v = Some r);
          flagged = ((\<exists>f. CvssOutOfRange f \<in> set (v_validation_issues v)) \<or>
                     InvalidCvssScore c \<in> set (v_validation_issues v))
      in (v_cvss_score v \<noteq> None) = kept \<and>
         flagged = (c \<noteq> JNull \<and> v_cvss_score v = None))"

text \<open>
  The CVE id the validation settles on when the raw text has a match \<open>m\<close> of the pattern:
  the provider's value, upper-cased and stripped, when it is present and well-formed,
  and the match of the raw text in upper case otherwise.
\<close>

definition chosen_cve_id :: "py_builtins \<Rightarrow> (pystr \<rightharpoonup> json) \<Rightarrow> pystr \<Rightarrow> pystr" where
  "chosen_cve_id py data m =
     (let c = strip (upper py (py_str py (dict_get data (lit ''cve_id''))))
      in if truthy (dict_get data (lit ''cve_id'')) \<and> cve_wellformed py c then c else upper py m)"

text \<open>
  Two abbreviations for the proofs about \<open>process_entry\<close>: the entry after the first
  commit, and the existing row after the update path has assigned its fields.
\<close>

definition started :: "raw_entry \<Rightarrow> raw_entry" where
  "started entry = entry\<lparr>processing_status := PROCESSING,
                          processing_attempts := processing_attempts entry + 1\<rparr>"

definition merged :: "vulnerability \<Rightarrow> extraction_result \<Rightarrow> datetime \<Rightarrow> vulnerability" where
  "merged existing extraction now = existing
      \<lparr>vuln_title := or_str (title extraction) (vuln_title existing),
       vuln_description := or_text (description extraction) (vuln_description existing),
       vuln_severity := or_str (severity extraction) (vuln_severity existing),
       vuln_cvss_score := or_float (cvss_score extraction) (vuln_cvss_score existing),
       vuln_cvss_vector := or_str (cvss_vector extraction) (vuln_cvss_vector existing),
       vuln_confidence_score := confidence_score extraction,
       vuln_needs_review := needs_review extraction,
       vuln_extraction_metadata := Some (extraction_metadata extraction),
       updated_at := now\<rparr>"

text \<open>
  The invariant of the pipeline's tables: entry ids and CVE ids are keys, and no entry
  has more than three attempts, a pending entry none.
\<close>

definition entry_ok :: "raw_entry \<Rightarrow> bool" where
  "entry_ok e =
     (0 \<le> processing_attempts e \<and> processing_attempts e \<le> 3 \<and>
      (processing_status e = PENDING \<longrightarrow> processing_attempts e = 0))"

definition state_ok :: "state \<Rightarrow> bool" where
  "state_ok s =
     (distinct (map entry_id (raw_entries s)) \<and>
      (\<forall>e \<in> set (raw_entries s). entry_ok e) \<and>
      distinct (map vuln_cve_id (vulnerabilities s)))"

section \<open>Concrete inputs\<close>

text \<open>
  One behaviour of the parameters, for the concrete runs below. Outside ASCII it has the
  upper case of the dotless i and of the sharp s, and the fullwidth digits; the runs
  use no other character outside ASCII.
\<close>

definition sample_builtins :: py_builtins where
  "sample_builtins =
     \<lparr> repr_of = (\<lambda>v. case v of JNull \<Rightarrow> lit ''None'' | JBool True \<Rightarrow> lit ''True''
                          | JBool False \<Rightarrow> lit ''False'' | _ \<Rightarrow> lit ''?''),
       float_of_str = (\<lambda>s. None),
       upper_of = (\<lambda>c. if c = 0x131 then (0x49, []) else if c = 0xDF then (0x53, [0x53])
                          else (c, [])),
       lower_of = (\<lambda>c. c),
       decimal = (\<lambda>c. 0xFF10 \<le> c \<and> c \<le> 0xFF19) \<rparr>"

text \<open>The complete record of the first scenario of the specification.\<close>

definition acme_data :: "pystr \<rightharpoonup> json" where
  "acme_data = map_of
     [(lit ''cve_id'', JStr (lit ''CVE-2024-1234'')), (lit ''vendor'', JStr (lit ''Acme'')),
      (lit ''product'', JStr (lit ''CMS'')), (lit ''severity'', JStr (lit ''CRITICAL'')),
      (lit ''cvss_score'', JFloat (Finite 9.8)),
      (lit ''description'', JStr (lit ''Critical authentication bypass allowing full takeover.''))]"

definition acme_raw :: pystr where
  "acme_raw = lit ''CVE-2024-1234: Critical auth bypass in Acme CMS, CVSS 9.8''"

definition acme_validated :: validated where
  "acme_validated =
     \<lparr> v_cve_id = Some (lit ''CVE-2024-1234''), v_severity = Some (lit ''CRITICAL''),
       v_cvss_score = Some 9.8, v_title = None,
       v_description = Some (lit ''Critical authentication bypass allowing full takeover.''),
       v_vendor = Some (lit ''Acme''), v_product = Some (lit ''CMS''), v_cvss_vector = None,
       v_validation_issues = [] \<rparr>"

text \<open>A provider output with an invalid severity, a score out of range and no CVE id.\<close>

definition super_high_data :: "pystr \<rightharpoonup> json" where
  "super_high_data = map_of
     [(lit ''title'', JStr (lit ''Test'')), (lit ''description'', JStr (lit ''Short'')),
      (lit ''vendor'', JStr (lit ''Test Vendor'')), (lit ''product'', JNull),
      (lit ''severity'', JStr (lit ''SUPER_HIGH'')), (lit ''cvss_score'', JFloat (Finite 15)),
      (lit ''cvss_vector'', JNull)]"

definition super_high_raw :: pystr where
  "super_high_raw = lit ''CVE-2024-5678: Test vulnerability''"

definition super_high_service :: llm_service where
  "super_high_service =
     \<lparr> ollama_client = (\<lambda>m p t sp. Inr \<lparr> gen_data = super_high_data,
          gen_metadata = [(''model'', JStr (lit ''llama3'')), (''total_duration_ms'', JInt 1200)] \<rparr>),
       model = lit ''llama3'', temperature = 0.1, confidence_threshold = 0.8 \<rparr>"

definition super_high_validated :: validated where
  "super_high_validated =
     \<lparr> v_cve_id = Some (lit ''CVE-2024-5678''), v_severity = Some (lit ''UNKNOWN''),
       v_cvss_score = None, v_title = Some (lit ''Test''),
       v_description = Some (lit ''CVE-2024-5678: Test vulnerability''),
       v_vendor = Some (lit ''Test Vendor''), v_product = None, v_cvss_vector = None,
       v_validation_issues = [InvalidSeverity (lit ''SUPER_HIGH''), CvssOutOfRange (Finite 15),
                              RawTextAsDescription] \<rparr>"

text \<open>A provider output that has no severity at all.\<close>

definition no_severity_data :: "pystr \<rightharpoonup> json" where
  "no_severity_data = map_of
     [(lit ''cve_id'', JStr (lit ''CVE-2024-1234'')),
      (lit ''description'', JStr (lit ''Critical authentication bypass allowing full takeover.''))]"

text \<open>A service whose client fails with a model error.\<close>

definition timeout_service :: "real \<Rightarrow> llm_service" where
  "timeout_service threshold =
     \<lparr> ollama_client = (\<lambda>m p t sp. Inl (OllamaModelError (lit ''LLM timeout''))),
       model = lit ''llama3'', temperature = 0.1, confidence_threshold = threshold \<rparr>"

definition fallback_raw :: pystr where
  "fallback_raw = lit ''CVE-2024-9999: Some vulnerability description''"

text \<open>A service whose client returns the record of the first scenario.\<close>

definition acme_service :: llm_service where
  "acme_service =
     \<lparr> ollama_client = (\<lambda>m p t sp. Inr \<lparr> gen_data = acme_data,
          gen_metadata = [(''model'', JStr (lit ''llama3'')), (''total_duration_ms'', JInt 1500)] \<rparr>),
       model = lit ''llama3'', temperature = 0.1, confidence_threshold = 0.8 \<rparr>"

text \<open>A service whose client returns a well-formed CVE id that is not the raw text's.\<close>

definition other_cve_data :: "pystr \<rightharpoonup> json" where
  "other_cve_data = map_of
     [(lit ''cve_id'', JStr (lit ''CVE-2020-0001'')),
      (lit ''description'', JStr (lit ''Critical authentication bypass allowing full takeover.''))]"

definition other_cve_service :: llm_service where
  "other_cve_service =
     \<lparr> ollama_client = (\<lambda>m p t sp. Inr \<lparr> gen_data = other_cve_data, gen_metadata = [] \<rparr>),
       model = lit ''llama3'', temperature = 0.1, confidence_threshold = 0.8 \<rparr>"

text \<open>
  A service whose client returns a record with a score that is the integer \<open>10 ^ 400\<close>:
  the model's answer is the JSON text of the record with the 401 digits of the number.
\<close>

definition huge_score_data :: "pystr \<rightharpoonup> json" where
  "huge_score_data = map_of
     [(lit ''cve_id'', JStr (lit ''CVE-2024-1234'')), (lit ''severity'', JStr (lit ''HIGH'')),
      (lit ''cvss_score'', JInt (10 ^ 400)),
      (lit ''description'', JStr (lit ''Critical authentication bypass allowing full takeover.''))]"

definition huge_score_service :: llm_service where
  "huge_score_service =
     \<lparr> ollama_client = (\<lambda>m p t sp. Inr \<lparr> gen_data = huge_score_data,
          gen_metadata = [(''model'', JStr (lit ''llama3'')), (''total_duration_ms'', JInt 1500)] \<rparr>),
       model = lit ''llama3'', temperature = 0.1, confidence_threshold = 0.8 \<rparr>"

text \<open>A provider that cannot be reached, and one that returns the first scenario's record.\<close>

definition down_provider :: provider where
  "down_provider =
     \<lparr> provider_name = lit ''ollama'',
       generate_json = (\<lambda>m p sp t. Inl (LLMConnectionError (lit ''Cannot connect to Ollama''))) \<rparr>"

definition acme_provider :: provider where
  "acme_provider =
     \<lparr> provider_name = lit ''claude'',
       generate_json = (\<lambda>m p sp t. Inr \<lparr> gen_data = acme_data,
          gen_metadata = [(''model'', JStr (lit ''claude'')), (''input_tokens'', JInt 10)] \<rparr>) \<rparr>"

text \<open>
  A store that holds one vulnerability with a title and a low confidence, one pending
  entry, an extraction of the same CVE id with a higher confidence and no title, and a
  clock that advances at every reading.
\<close>

definition old_vuln :: vulnerability where
  "old_vuln =
     \<lparr> vuln_cve_id = lit ''CVE-2024-1234'', vuln_title = Some (lit ''Old title''),
       vuln_description = lit ''Old description'', vuln_cvss_score = None,
       vuln_cvss_vector = None, vuln_severity = Some (lit ''UNKNOWN''), epss_score = None,
       kev_status = False, kev_date_added = None, vuln_confidence_score = 0.5,
       vuln_needs_review = True, vuln_extraction_metadata = None, remediated_at = None,
       published_date = None, created_at = 10, updated_at = 10 \<rparr>"

definition better_extraction :: extraction_result where
  "better_extraction =
     \<lparr> cve_id = Some (lit ''CVE-2024-1234''), title = None,
       description = lit ''Critical authentication bypass allowing full takeover.'',
       vendor = Some (lit ''Acme''), product = Some (lit ''CMS''), severity = Some (lit ''CRITICAL''),
       cvss_score = Some 9.8, cvss_vector = None, confidence_score = 0.9,
       needs_review = False, extraction_metadata = [(''model'', MStr (lit ''llama3''))] \<rparr>"

definition pending_entry :: raw_entry where
  "pending_entry =
     \<lparr> entry_id = 1, source_id = 1, raw_payload = acme_raw, processing_status = PENDING,
       processing_attempts = 0, last_processing_error = None, ingested_at = 100,
       processed_at = None \<rparr>"

definition tick_clock :: "nat \<Rightarrow> datetime" where
  "tick_clock n = 100 + int n"

definition stored_state :: state where
  "stored_state =
     \<lparr> raw_entries = [pending_entry], vulnerabilities = [old_vuln], clock = tick_clock,
       ticks = 0 \<rparr>"

definition acme_llm :: "pystr \<Rightarrow> exn + extraction_result" where
  "acme_llm payload = Inr better_extraction"

text \<open>
  Concrete runs of the pipeline: a configuration, one ingested entry, a service that
  always extracts the first scenario's record, and one whose call always raises.
\<close>

definition default_config :: llm_config where
  "default_config =
     \<lparr> ollama_base_url = lit ''http://localhost:11434'', selected_model = Some (lit ''llama3''),
       cfg_temperature = 0.1, cfg_confidence_threshold = 0.8, batch_size = 10 \<rparr>"

definition one_pending :: state where
  "one_pending = ingest 1 acme_raw (empty_state tick_clock)"

definition acme_batch_llm :: "nat \<Rightarrow> pystr \<Rightarrow> exn + extraction_result" where
  "acme_batch_llm k payload = Inr better_extraction"

definition failing_llm :: "nat \<Rightarrow> pystr \<Rightarrow> exn + extraction_result" where
  "failing_llm k payload = Inl (OtherException (lit ''LLM error''))"

definition failing_batch :: "state \<Rightarrow> state" where
  "failing_batch s = snd (process_batch (Some default_config) True failing_llm None s)"

definition exhausted_state :: state where
  "exhausted_state = failing_batch (failing_batch (failing_batch one_pending))"

definition exhausted_entry :: raw_entry where
  "exhausted_entry =
     \<lparr> entry_id = 1, source_id = 1, raw_payload = acme_raw, processing_status = FAILED,
       processing_attempts = 3, last_processing_error = Some (lit ''LLM error''),
       ingested_at = 100, processed_at = Some 108 \<rparr>"

section \<open>Facts about validation and confidence\<close>

lemmas text_defs =
  lit_def upper_def to_upper_def to_lower_def strip_def is_space_def is_decimal_def
  cve_prefix_def sample_builtins_def

lemmas validation_defs =
  validate_extraction_def validate_cve_id_def validate_severity_def validate_cvss_score_def
  string_field_def ensure_description_def dict_get_def py_str_def py_float_def
  cve_fullmatch_def cve_match_at_def text_defs VALID_SEVERITIES_def Let_def

lemma lit_eq_iff: "(lit a = lit b) = (a = b)"
  unfolding lit_def by (simp add: inj_map_eq_map inj_on_def)

lemma lit_Nil_iff: "(lit a = []) = (a = [])"
  by (simp add: lit_def)

lemma to_upper_nonempty: "to_upper py c \<noteq> []"
  by (simp add: to_upper_def)

lemma cve_prefix_length: "cve_prefix py p \<Longrightarrow> length p = 4"
proof -
  assume a: "cve_prefix py p"
  then have "length (map (to_lower py) (take 3 p)) = 3" "length (drop 3 p) = 1"
    by (simp_all add: cve_prefix_def lit_def)
  then show ?thesis by (simp add: min_def split: if_splits)
qed

lemma cve_match_at_nonempty: "cve_match_at py s = Some m \<Longrightarrow> m \<noteq> []"
  by (auto simp: cve_match_at_def Let_def split: if_splits dest: cve_prefix_length)

lemma cve_search_nonempty: "cve_search py s = Some m \<Longrightarrow> m \<noteq> []"
  by (induction s) (auto split: option.splits dest: cve_match_at_nonempty)

lemma cve_fullmatch_nonempty: "cve_fullmatch py c \<Longrightarrow> c \<noteq> []"
  by (auto simp: cve_fullmatch_def dest: cve_match_at_nonempty)

lemma upper_nonempty: "(upper py m = []) = (m = [])"
  by (cases m) (simp_all add: upper_def to_upper_nonempty)

lemma validate_cve_id_truthy:
  "validate_cve_id py data raw_text = (c, is) \<Longrightarrow> truthy_str c = (c \<noteq> None)"
  by (auto simp: validate_cve_id_def Let_def truthy_str_def upper_nonempty
           split: if_splits option.splits
           dest: cve_fullmatch_nonempty cve_search_nonempty)

lemma validate_severity_truthy:
  "validate_severity py data = (s, is) \<Longrightarrow> s \<noteq> []"
  by (auto simp: validate_severity_def Let_def VALID_SEVERITIES_def lit_def split: if_splits)

lemma string_field_truthy:
  "truthy_str (string_field py data f) = (string_field py data f \<noteq> None)"
  by (auto simp: string_field_def Let_def truthy_str_def)

lemma penalty_eq:
  "real_of_int (min (int n * 5) 20) / 100 = min (20 / 100) (5 / 100 * real n)"
  by (simp add: min_def)

lemma description_points_eq:
  "description_points (case d of None \<Rightarrow> [] | Some x \<Rightarrow> x) =
     (let n = (case d of None \<Rightarrow> 0 | Some x \<Rightarrow> length x)
      in if 50 \<le> n then 15 else if 20 \<le> n then 10 else if 10 \<le> n then 5 else 0)"
  by (simp add: description_points_def Let_def split: option.splits)

lemma validate_extraction_unfold:
  "validate_extraction py data raw_text =
    (case validate_cvss_score py data of
       Inl e \<Rightarrow> Inl e
     | Inr p \<Rightarrow> Inr \<lparr> v_cve_id = fst (validate_cve_id py data raw_text),
            v_severity = Some (fst (validate_severity py data)),
            v_cvss_score = fst p,
            v_title = string_field py data (lit ''title''),
            v_description = fst (ensure_description (string_field py data (lit ''description'')) raw_text),
            v_vendor = string_field py data (lit ''vendor''),
            v_product = string_field py data (lit ''product''),
            v_cvss_vector = string_field py data (lit ''cvss_vector''),
            v_validation_issues = snd (validate_cve_id py data raw_text) @ snd (validate_severity py data)
               @ snd p @ snd (ensure_description (string_field py data (lit ''description'')) raw_text) \<rparr>)"
  unfolding validate_extraction_def Let_def split_beta
  by (rule refl)

lemma validate_extraction_sel:
  assumes "validate_extraction py data raw_text = Inr v"
  shows "v_cve_id v = fst (validate_cve_id py data raw_text)"
    and "v_severity v = Some (fst (validate_severity py data))"
    and "v_title v = string_field py data (lit ''title'')"
    and "v_description v = fst (ensure_description (string_field py data (lit ''description'')) raw_text)"
    and "v_vendor v = string_field py data (lit ''vendor'')"
    and "v_product v = string_field py data (lit ''product'')"
    and "v_cvss_vector v = string_field py data (lit ''cvss_vector'')"
    and "\<exists>p. validate_cvss_score py data = Inr p \<and> v_cvss_score v = fst p \<and>
           v_validation_issues v = snd (validate_cve_id py data raw_text) @ snd (validate_severity py data)
               @ snd p @ snd (ensure_description (string_field py data (lit ''description'')) raw_text)"
proof -
  obtain p where p: "validate_cvss_score py data = Inr p"
    using assms by (cases "validate_cvss_score py data") (simp_all add: validate_extraction_unfold)
  have v: "v = \<lparr> v_cve_id = fst (validate_cve_id py data raw_text),
            v_severity = Some (fst (validate_severity py data)),
            v_cvss_score = fst p,
            v_title = string_field py data (lit ''title''),
            v_description = fst (ensure_description (string_field py data (lit ''description'')) raw_text),
            v_vendor = string_field py data (lit ''vendor''),
            v_product = string_field py data (lit ''product''),
            v_cvss_vector = string_field py data (lit ''cvss_vector''),
            v_validation_issues = snd (validate_cve_id py data raw_text) @ snd (validate_severity py data)
               @ snd p @ snd (ensure_description (string_field py data (lit ''description'')) raw_text) \<rparr>"
    using assms unfolding validate_extraction_unfold p by simp
  show "v_cve_id v = fst (validate_cve_id py data raw_text)" by (subst v) simp
  show "v_severity v = Some (fst (validate_severity py data))" by (subst v) simp
  show "v_title v = string_field py data (lit ''title'')" by (subst v) simp
  show "v_description v = fst (ensure_description (string_field py data (lit ''description'')) raw_text)"
    by (subst v) simp
  show "v_vendor v = string_field py data (lit ''vendor'')" by (subst v) simp
  show "v_product v = string_field py data (lit ''product'')" by (subst v) simp
  show "v_cvss_vector v = string_field py data (lit ''cvss_vector'')" by (subst v) simp
  show "\<exists>p. validate_cvss_score py data = Inr p \<and> v_cvss_score v = fst p \<and>
           v_validation_issues v = snd (validate_cve_id py data raw_text) @ snd (validate_severity py data)
               @ snd p @ snd (ensure_description (string_field py data (lit ''description'')) raw_text)"
    using p by (subst v, subst v) simp
qed

lemma validate_extraction_truthy:
  assumes "validate_extraction py data raw_text = Inr v"
  shows "truthy_str (v_cve_id v) = (v_cve_id v \<noteq> None)"
    and "truthy_str (v_vendor v) = (v_vendor v \<noteq> None)"
    and "truthy_str (v_product v) = (v_product v \<noteq> None)"
    and "truthy_str (v_title v) = (v_title v \<noteq> None)"
    and "truthy_str (v_severity v) = (v_severity v \<noteq> None)"
proof -
  note s = validate_extraction_sel[OF assms]
  show "truthy_str (v_cve_id v) = (v_cve_id v \<noteq> None)"
    unfolding s by (rule validate_cve_id_truthy) (rule prod.collapse[symmetric])
  show "truthy_str (v_vendor v) = (v_vendor v \<noteq> None)"
    unfolding s by (rule string_field_truthy)
  show "truthy_str (v_product v) = (v_product v \<noteq> None)"
    unfolding s by (rule string_field_truthy)
  show "truthy_str (v_title v) = (v_title v \<noteq> None)"
    unfolding s by (rule string_field_truthy)
  have "fst (validate_severity py data) \<noteq> []"
    by (rule validate_severity_truthy) (rule prod.collapse[symmetric])
  then show "truthy_str (v_severity v) = (v_severity v \<noteq> None)"
    unfolding s by (simp add: truthy_str_def)
qed

lemma acme_validates: "validate_extraction sample_builtins acme_data acme_raw = Inr acme_validated"
  by (simp add: validation_defs acme_data_def acme_raw_def acme_validated_def)

subsection \<open>Rounding and the range of the confidence\<close>

lemma round_half_even_le: "x \<le> of_int n \<Longrightarrow> round_half_even x \<le> n"
proof -
  assume a: "x \<le> of_int n"
  have f: "\<lfloor>x\<rfloor> \<le> n" using a by (simp add: floor_le_iff) 
  show ?thesis
  proof (cases "x - of_int \<lfloor>x\<rfloor> < 1 / 2")
    case True
    then show ?thesis using f by (simp add: round_half_even_def Let_def)
  next
    case False
    then have "of_int \<lfloor>x\<rfloor> < x" by linarith
    then have "\<lfloor>x\<rfloor> < n" using a by (smt (verit) floor_less_iff of_int_less_iff le_floor_iff)
    then show ?thesis by (simp add: round_half_even_def Let_def)
  qed
qed

lemma round_half_even_ge: "of_int n \<le> x \<Longrightarrow> n \<le> round_half_even x"
proof -
  assume a: "of_int n \<le> x"
  then have "n \<le> \<lfloor>x\<rfloor>" by (simp add: le_floor_iff)
  then show ?thesis by (simp add: round_half_even_def Let_def)
qed

lemma py_round3_le: "x \<le> of_int n / 1000 \<Longrightarrow> py_round3 x \<le> of_int n / 1000"
  using round_half_even_le[of "x * 1000" n] by (simp add: py_round3_def divide_simps)

lemma py_round3_ge: "of_int n / 1000 \<le> x \<Longrightarrow> of_int n / 1000 \<le> py_round3 x"
  using round_half_even_ge[of n "x * 1000"] by (simp add: py_round3_def divide_simps)

lemma calculate_confidence_range:
  "0 \<le> calculate_confidence v raw_text \<and> calculate_confidence v raw_text \<le> 1"
proof -
  define x where "x = calculate_confidence v raw_text"
  obtain y where y: "x = py_round3 (max 0 (min 1 y))"
    unfolding x_def calculate_confidence_def Let_def by blast
  have "of_int 0 / 1000 \<le> py_round3 (max 0 (min 1 y))"
    by (rule py_round3_ge) simp
  moreover have "py_round3 (max 0 (min 1 y)) \<le> of_int 1000 / 1000"
    by (rule py_round3_le) simp
  ultimately show ?thesis unfolding x_def[symmetric] y by simp
qed

subsection \<open>The conversion of integers to floats\<close>

lemma bit_length_gt: "2 ^ k \<le> n \<Longrightarrow> k < bit_length n"
proof (induction k arbitrary: n)
  case 0
  then show ?case by (subst bit_length.simps) simp
next
  case (Suc k)
  then have "2 ^ k \<le> n div 2" by simp
  moreover have "(0::nat) < 2 ^ Suc k" by simp
  with Suc.prems have "n \<noteq> 0" by linarith
  ultimately show ?case using Suc.IH[of "n div 2"] by (subst bit_length.simps) simp
qed

lemma bit_length_lower: "n \<noteq> 0 \<Longrightarrow> 2 ^ (bit_length n - 1) \<le> n"
proof (induction n rule: bit_length.induct)
  case (1 n)
  show ?case
  proof (cases "n div 2 = 0")
    case True
    with 1 show ?thesis by (subst bit_length.simps, subst bit_length.simps) simp
  next
    case False
    from 1 False have ih: "2 ^ (bit_length (n div 2) - 1) \<le> n div 2" by simp
    have p: "0 < bit_length (n div 2)" using False by (subst bit_length.simps) simp
    have "bit_length n = Suc (bit_length (n div 2))" using 1(2) by (subst bit_length.simps) simp
    then have "2 ^ (bit_length n - 1) = (2::nat) * 2 ^ (bit_length (n div 2) - 1)"
      using p by (cases "bit_length (n div 2)") simp_all
    also have "\<dots> \<le> 2 * (n div 2)" using ih by simp
    also have "\<dots> \<le> n" by simp
    finally show ?thesis .
  qed
qed

lemma bit_length_le: "n < 2 ^ k \<Longrightarrow> bit_length n \<le> k"
proof (rule ccontr)
  assume a: "n < 2 ^ k" and "\<not> bit_length n \<le> k"
  then have b: "k \<le> bit_length n - 1" by simp
  have "n \<noteq> 0"
  proof
    assume "n = 0"
    then have "bit_length n = 0" by (subst bit_length.simps) simp
    with \<open>\<not> bit_length n \<le> k\<close> show False by simp
  qed
  then have "2 ^ (bit_length n - 1) \<le> n" by (rule bit_length_lower)
  moreover have "(2::nat) ^ k \<le> 2 ^ (bit_length n - 1)"
    using b by (intro power_increasing) simp_all
  ultimately show False using a by linarith
qed

lemma int_to_float_small: "\<bar>i\<bar> < 2 ^ 53 \<Longrightarrow> int_to_float i = Some (of_int i)"
proof -
  assume "\<bar>i\<bar> < 2 ^ 53"
  then have "nat \<bar>i\<bar> < 2 ^ 53" by (simp add: nat_less_iff)
  then have "bit_length (nat \<bar>i\<bar>) \<le> 53" by (rule bit_length_le)
  then show ?thesis by (simp add: int_to_float_def Let_def)
qed

lemma int_to_float_overflow:
  assumes "2 ^ 1024 \<le> \<bar>i\<bar>"
  shows "int_to_float i = None"
proof -
  define a where "a = nat \<bar>i\<bar>"
  define k where "k = bit_length a"
  define q :: nat where "q = 2 ^ (k - 53)"
  have a: "2 ^ 1024 \<le> a" using assms unfolding a_def by (simp add: le_nat_iff)
  then have k: "1024 < k" unfolding k_def by (rule bit_length_gt)
  have "a \<noteq> 0" using a by auto
  then have l: "2 ^ (k - 1) \<le> a" unfolding k_def by (rule bit_length_lower)
  have "k - 1 = 52 + (k - 53)" using k by simp
  then have e: "(2::nat) ^ (k - 1) = 2 ^ 52 * q"
    unfolding q_def by (simp only: power_add)
  have "2 ^ 52 \<le> a div q"
  proof -
    have "2 ^ 52 * q \<le> a" using l e by simp
    moreover have "0 < q" by (simp add: q_def)
    ultimately show ?thesis by (simp add: less_eq_div_iff_mult_less_eq)
  qed
  then have d: "2 ^ 52 * q \<le> (a div q) * q" by simp
  have g: "(2::nat) ^ 1024 \<le> 2 ^ (k - 1)" using k by (intro power_increasing) simp_all
  have "2 ^ 1024 \<le> (a div q) * q" using d e g by linarith
  moreover have "(a div q) * q \<le> (a div q + 1) * q" by simp
  ultimately have "2 ^ 1024 \<le> (a div q) * q" "2 ^ 1024 \<le> (a div q + 1) * q" by linarith+
  then show ?thesis
    using k unfolding int_to_float_def Let_def a_def[symmetric] k_def[symmetric] q_def[symmetric]
    by auto
qed

lemma bit_length_54: "bit_length 9007199254740993 = 54" "bit_length 9007199254740995 = 54"
  by (simp_all add: bit_length.simps)

lemma int_to_float_rounds:
  "int_to_float 9007199254740993 = Some 9007199254740992"
  "int_to_float 9007199254740995 = Some 9007199254740996"
  "int_to_float (- 9007199254740995) = Some (- 9007199254740996)"
  by (simp_all add: int_to_float_def bit_length_54 Let_def)

lemma int_to_float_below:
  assumes "\<bar>i\<bar> < 2 ^ 1023"
  shows "int_to_float i \<noteq> None"
proof -
  define a where "a = nat \<bar>i\<bar>"
  define k where "k = bit_length a"
  define q :: nat where "q = 2 ^ (k - 53)"
  have a: "a < 2 ^ 1023" using assms unfolding a_def by (simp add: nat_less_iff)
  then have k: "k \<le> 1023" unfolding k_def by (rule bit_length_le)
  show ?thesis
  proof (cases "k \<le> 53")
    case True
    then show ?thesis by (simp add: int_to_float_def Let_def a_def[symmetric] k_def[symmetric])
  next
    case False
    have u: "a < 2 ^ k"
    proof (rule ccontr)
      assume "\<not> a < 2 ^ k"
      then have "2 ^ k \<le> a" by simp
      then have "k < bit_length a" by (rule bit_length_gt)
      then show False by (simp add: k_def)
    qed
    have "k = 53 + (k - 53)" using False by simp
    then have e: "(2::nat) ^ k = 2 ^ 53 * q" unfolding q_def by (metis power_add)
    have "0 < q" by (simp add: q_def)
    have "a div q < 2 ^ 53"
      using u e \<open>0 < q\<close> by (simp add: less_mult_imp_div_less mult.commute)
    then have "a div q + 1 \<le> 2 ^ 53" by simp
    then have "(a div q + 1) * q \<le> 2 ^ 53 * q" by (rule mult_le_mono1)
    also have "\<dots> = 2 ^ k" using e by simp
    also have "\<dots> \<le> 2 ^ 1023" using k by (intro power_increasing) simp_all
    also have "\<dots> < (2::nat) ^ 1024" by simp
    finally have b: "(a div q + 1) * q < 2 ^ 1024" .
    have "(a div q) * q \<le> (a div q + 1) * q" by simp
    with b have c: "(a div q) * q < 2 ^ 1024" by linarith
    from b c False show ?thesis
      unfolding int_to_float_def Let_def a_def[symmetric] k_def[symmetric] q_def[symmetric]
      by auto
  qed
qed

subsection \<open>Severity and CVSS validation\<close>

lemma validate_severity_eq:
  "validate_severity py data =
     (let sev = dict_get data (lit ''severity''); s = strip (upper py (py_str py sev))
      in (if truthy sev \<and> s \<in> VALID_SEVERITIES then s else lit ''UNKNOWN'',
          if truthy sev \<and> s \<notin> VALID_SEVERITIES then [InvalidSeverity s] else []))"
  by (simp add: validate_severity_def Let_def)

lemma validate_severity_valid: "fst (validate_severity py data) \<in> VALID_SEVERITIES"
  by (simp add: validate_severity_eq Let_def) (simp add: VALID_SEVERITIES_def)

lemma validate_cve_id_issues:
  "InvalidSeverity x \<notin> set (snd (validate_cve_id py data raw_text))"
  "CvssOutOfRange f \<notin> set (snd (validate_cve_id py data raw_text))"
  "InvalidCvssScore c \<notin> set (snd (validate_cve_id py data raw_text))"
  by (simp_all add: validate_cve_id_def Let_def split: option.splits)

lemma ensure_description_issues:
  "InvalidSeverity x \<notin> set (snd (ensure_description d raw_text))"
  "CvssOutOfRange f \<notin> set (snd (ensure_description d raw_text))"
  "InvalidCvssScore c \<notin> set (snd (ensure_description d raw_text))"
  by (simp_all add: ensure_description_def split: option.splits)

lemma validate_severity_issues:
  "CvssOutOfRange f \<notin> set (snd (validate_severity py data))"
  "InvalidCvssScore c \<notin> set (snd (validate_severity py data))"
  by (simp_all add: validate_severity_eq Let_def)

lemma validate_cvss_score_cases:
  assumes "validate_cvss_score py data = Inr p"
  shows "(dict_get data (lit ''cvss_score'') = JNull \<and> p = (None, [])) \<or>
         (dict_get data (lit ''cvss_score'') \<noteq> JNull \<and>
          (\<exists>r. py_float py (dict_get data (lit ''cvss_score'')) = Inr (Finite r) \<and> 0 \<le> r \<and> r \<le> 10 \<and>
                p = (Some r, []))) \<or>
         (dict_get data (lit ''cvss_score'') \<noteq> JNull \<and>
          (\<exists>r. py_float py (dict_get data (lit ''cvss_score'')) = Inr (Finite r) \<and> \<not> (0 \<le> r \<and> r \<le> 10) \<and>
                p = (None, [CvssOutOfRange (Finite r)]))) \<or>
         (dict_get data (lit ''cvss_score'') \<noteq> JNull \<and>
          py_float py (dict_get data (lit ''cvss_score'')) = Inr NonFinite \<and>
                p = (None, [CvssOutOfRange NonFinite])) \<or>
         (dict_get data (lit ''cvss_score'') \<noteq> JNull \<and>
          (\<exists>e. py_float py (dict_get data (lit ''cvss_score'')) = Inl e \<and> (e = ValueError \<or> e = TypeError) \<and>
                p = (None, [InvalidCvssScore (dict_get data (lit ''cvss_score''))])))"
  using assms
  by (auto simp: validate_cvss_score_def Let_def
           split: if_splits sum.splits pyfloat.splits)

lemma validate_cvss_score_issues:
  assumes "validate_cvss_score py data = Inr p"
  shows "InvalidSeverity x \<notin> set (snd p)"
  using validate_cvss_score_cases[OF assms] by auto

lemma severity_rule_holds:
  assumes "validate_extraction py data raw_text = Inr v"
  shows "severity_rule py data v"
proof -
  note s = validate_extraction_sel[OF assms]
  from s(8) obtain p where p: "validate_cvss_score py data = Inr p"
    and i: "v_validation_issues v = snd (validate_cve_id py data raw_text) @
              snd (validate_severity py data) @ snd p @
              snd (ensure_description (string_field py data (lit ''description'')) raw_text)"
    by blast
  have m: "\<And>x. (InvalidSeverity x \<in> set (v_validation_issues v)) =
              (InvalidSeverity x \<in> set (snd (validate_severity py data)))"
    unfolding i using validate_cve_id_issues(1) ensure_description_issues(1)
      validate_cvss_score_issues[OF p] by simp
  show ?thesis
    unfolding severity_rule_def Let_def m s(2)
    using validate_severity_valid[of py data]
    by (auto simp: validate_severity_eq Let_def)
qed

lemma cvss_rule_holds:
  assumes "validate_extraction py data raw_text = Inr v"
  shows "cvss_rule py data v"
proof -
  note s = validate_extraction_sel[OF assms]
  from s(8) obtain p where p: "validate_cvss_score py data = Inr p"
    and c: "v_cvss_score v = fst p"
    and i: "v_validation_issues v = snd (validate_cve_id py data raw_text) @
              snd (validate_severity py data) @ snd p @
              snd (ensure_description (string_field py data (lit ''description'')) raw_text)"
    by blast
  have m1: "\<And>f. (CvssOutOfRange f \<in> set (v_validation_issues v)) = (CvssOutOfRange f \<in> set (snd p))"
    unfolding i using validate_cve_id_issues(2) ensure_description_issues(2)
      validate_severity_issues(1) by simp
  have m2: "\<And>x. (InvalidCvssScore x \<in> set (v_validation_issues v)) = (InvalidCvssScore x \<in> set (snd p))"
    unfolding i using validate_cve_id_issues(3) ensure_description_issues(3)
      validate_severity_issues(2) by simp
  show ?thesis
    unfolding cvss_rule_def Let_def m1 m2 c
    using validate_cvss_score_cases[OF p]
    by auto
qed

lemma description_points_le: "description_points d \<le> 15"
  by (simp add: description_points_def)

lemma clamp_le: "y \<le> (65 / 100 :: real) \<Longrightarrow> max 0 (min 1 y) \<le> of_int 650 / 1000"
  by (auto simp: max_def min_def)

lemma confidence_bound_unknown:
  assumes sev: "v_severity v = Some (lit ''UNKNOWN'')" and cv: "v_cvss_score v = None"
    and n: "2 \<le> length (v_validation_issues v)"
  shows "calculate_confidence v raw_text \<le> 65 / 100"
proof -
  define a where "a = (if truthy_str (v_cve_id v) then 30 else 0 :: real)"
  define b where "b = (if truthy_str (v_vendor v) then 10 else 0 :: real)"
  define c where "c = (if truthy_str (v_product v) then 10 else 0 :: real)"
  define d where "d = description_points (case v_description v of None \<Rightarrow> [] | Some d \<Rightarrow> d)"
  define e where "e = (if truthy_str (v_title v) then 10 else 0 :: real)"
  define pen where "pen = min (int (length (v_validation_issues v)) * 5) 20"
  have eq: "calculate_confidence v raw_text =
      py_round3 (max 0 (min 1 ((a + b + c + 0 + 0 + d + e) / 100 - of_int pen / 100)))"
    unfolding calculate_confidence_def Let_def a_def b_def c_def d_def e_def pen_def sev cv
    by simp
  have "a \<le> 30" "b \<le> 10" "c \<le> 10" "d \<le> 15" "e \<le> 10"
    unfolding a_def b_def c_def d_def e_def using description_points_le by simp_all
  moreover have "10 \<le> pen" unfolding pen_def using n by simp
  then have "(10::real) \<le> of_int pen" by linarith
  ultimately have "(a + b + c + 0 + 0 + d + e) - of_int pen \<le> 65"
    by linarith
  then have "(a + b + c + 0 + 0 + d + e) / 100 - of_int pen / 100 \<le> 65 / 100"
    by (simp add: field_simps)
  then have "max 0 (min 1 ((a + b + c + 0 + 0 + d + e) / 100 - of_int pen / 100))
      \<le> of_int 650 / 1000"
    by (rule clamp_le)
  then have "py_round3 (max 0 (min 1 ((a + b + c + 0 + 0 + d + e) / 100 - of_int pen / 100)))
      \<le> of_int 650 / 1000"
    by (rule py_round3_le)
  then show ?thesis unfolding eq by simp
qed

lemma super_high:
  "strip (upper py (lit ''SUPER_HIGH'')) = lit ''SUPER_HIGH'' \<and>
   lit ''SUPER_HIGH'' \<notin> VALID_SEVERITIES"
  by (simp add: text_defs VALID_SEVERITIES_def)

lemma scenario_validation:
  assumes sev: "dict_get data (lit ''severity'') = JStr (lit ''SUPER_HIGH'')"
    and cvss: "dict_get data (lit ''cvss_score'') = JFloat (Finite 15)"
    and cve: "\<not> truthy (dict_get data (lit ''cve_id''))"
    and raw: "cve_search py raw_text = Some m" "upper py m = lit ''CVE-2024-5678''"
  shows "\<exists>v. validate_extraction py data raw_text = Inr v \<and> v_severity v = Some (lit ''UNKNOWN'') \<and>
           v_cvss_score v = None \<and> v_cve_id v = Some (lit ''CVE-2024-5678'') \<and>
           calculate_confidence v raw_text \<le> 65 / 100"
proof -
  have c: "validate_cvss_score py data = Inr (None, [CvssOutOfRange (Finite 15)])"
    by (simp add: validate_cvss_score_def cvss py_float_def)
  then obtain v where v: "validate_extraction py data raw_text = Inr v"
    by (simp add: validate_extraction_unfold)
  note s = validate_extraction_sel[OF v]
  have s2: "validate_severity py data = (lit ''UNKNOWN'', [InvalidSeverity (lit ''SUPER_HIGH'')])"
    using super_high[of py] by (simp add: validate_severity_eq sev py_str_def Let_def lit_Nil_iff)
  have s1: "fst (validate_cve_id py data raw_text) = Some (lit ''CVE-2024-5678'')"
    using cve raw by (simp add: validate_cve_id_def Let_def)
  from s(8) c have i: "v_validation_issues v = snd (validate_cve_id py data raw_text) @
      [InvalidSeverity (lit ''SUPER_HIGH'')] @ [CvssOutOfRange (Finite 15)] @
      snd (ensure_description (string_field py data (lit ''description'')) raw_text)"
    and cv: "v_cvss_score v = None"
    by (simp_all add: s2)
  have sv: "v_severity v = Some (lit ''UNKNOWN'')" by (simp add: s(2) s2)
  have "2 \<le> length (v_validation_issues v)" unfolding i by simp
  from confidence_bound_unknown[OF sv cv this] v sv cv s(1) s1
  show ?thesis by simp
qed

subsection \<open>The two paths of extraction\<close>

lemma extract_vulnerability_validated:
  assumes "ollama_client svc (model svc) (build_extraction_prompt raw_text)
             (temperature svc) SYSTEM_PROMPT = Inr g"
    and "validate_extraction py (gen_data g) raw_text = Inr v"
  shows "\<exists>meta. extract_vulnerability py svc now raw_text =
           Inr (extraction_of_validated v raw_text (calculate_confidence v raw_text)
                  (calculate_confidence v raw_text < confidence_threshold svc) meta) \<and>
           map_of meta ''fallback'' = None"
proof (intro exI conjI)
  show "extract_vulnerability py svc now raw_text =
        Inr (extraction_of_validated v raw_text (calculate_confidence v raw_text)
              (calculate_confidence v raw_text < confidence_threshold svc)
              [(''model'', MStr (model svc)),
               (''temperature'', MNum (temperature svc)),
               (''extraction_time'', MTime now),
               (''llm_duration_ms'',
                  MJson (case map_of (gen_metadata g) ''total_duration_ms'' of
                           None \<Rightarrow> JInt 0 | Some d \<Rightarrow> d)),
               (''validation_issues'', MIssues (v_validation_issues v))])"
    using assms by (simp add: extract_vulnerability_def extract_try_def Let_def)
  show "map_of [(''model'', MStr (model svc)),
               (''temperature'', MNum (temperature svc)),
               (''extraction_time'', MTime now),
               (''llm_duration_ms'',
                  MJson (case map_of (gen_metadata g) ''total_duration_ms'' of
                           None \<Rightarrow> JInt 0 | Some d \<Rightarrow> d)),
               (''validation_issues'', MIssues (v_validation_issues v))] ''fallback'' = None"
    by simp
qed

lemma validate_cvss_score_too_large:
  assumes "too_large (dict_get data (lit ''cvss_score''))"
  shows "validate_cvss_score py data = Inl OverflowError"
  using assms
  by (auto simp: validate_cvss_score_def too_large_def py_float_def Let_def split: json.splits)

lemma validate_cvss_score_returns:
  assumes "\<not> too_large (dict_get data (lit ''cvss_score''))"
  shows "\<exists>p. validate_cvss_score py data = Inr p"
  using assms
  by (auto simp: validate_cvss_score_def too_large_def py_float_def Let_def
           split: json.splits option.splits pyfloat.splits)

lemma validate_extraction_too_large:
  assumes "too_large (dict_get data (lit ''cvss_score''))"
  shows "validate_extraction py data raw_text = Inl OverflowError"
  by (simp add: validate_extraction_unfold validate_cvss_score_too_large[OF assms])

lemma validate_extraction_returns:
  assumes "\<not> too_large (dict_get data (lit ''cvss_score''))"
  shows "\<exists>v. validate_extraction py data raw_text = Inr v"
  using validate_cvss_score_returns[OF assms, of py]
  by (auto simp: validate_extraction_unfold)

lemma validate_cvss_score_raises:
  "validate_cvss_score py data = Inl e \<Longrightarrow> e = OverflowError"
  by (auto simp: validate_cvss_score_def py_float_def Let_def
           split: if_splits sum.splits json.splits option.splits pyfloat.splits)

lemma validate_extraction_raises:
  "validate_extraction py data raw_text = Inl e \<Longrightarrow> e = OverflowError"
  by (cases "validate_cvss_score py data")
     (auto simp: validate_extraction_unfold dest: validate_cvss_score_raises)

lemma extract_vulnerability_model_error:
  assumes "ollama_client svc (model svc) (build_extraction_prompt raw_text)
             (temperature svc) SYSTEM_PROMPT = Inl (OllamaModelError msg)"
  shows "extract_vulnerability py svc now raw_text = Inr (create_fallback_result py now raw_text msg)"
  using assms by (simp add: extract_vulnerability_def extract_try_def)

lemma model_error_fallback_fields:
  assumes "ollama_client svc (model svc) (build_extraction_prompt raw_text) (temperature svc)
             SYSTEM_PROMPT = Inl (OllamaModelError msg)"
  shows "\<exists>r. extract_vulnerability py svc now raw_text = Inr r \<and>
           cve_id r = (case cve_search py raw_text of Some m \<Rightarrow> Some (upper py m)
                       | None \<Rightarrow> None) \<and>
           description r = take 500 raw_text \<and>
           severity r = Some (lit ''UNKNOWN'') \<and>
           confidence_score r = (if cve_search py raw_text \<noteq> None then 0.1 else 0.0) \<and>
           needs_review r \<and>
           title r = None \<and> vendor r = None \<and> product r = None \<and>
           cvss_score r = None \<and> cvss_vector r = None \<and>
           meta_get (extraction_metadata r) ''error'' = Some (MStr msg) \<and>
           meta_get (extraction_metadata r) ''fallback'' = Some (MBool True)"
proof -
  have t: "truthy_str (case cve_search py raw_text of Some m \<Rightarrow> Some (upper py m)
                       | None \<Rightarrow> None) = (cve_search py raw_text \<noteq> None)"
    by (auto simp: truthy_str_def upper_nonempty split: option.splits
             dest: cve_search_nonempty)
  show ?thesis
    unfolding extract_vulnerability_model_error[OF assms]
    by (simp add: create_fallback_result_def Let_def meta_get_def t)
qed

lemma extract_vulnerability_cases:
  assumes "extract_vulnerability py svc now raw_text = Inr r"
  shows "(\<exists>msg. ollama_client svc (model svc) (build_extraction_prompt raw_text)
             (temperature svc) SYSTEM_PROMPT = Inl (OllamaModelError msg) \<and>
            r = create_fallback_result py now raw_text msg) \<or>
         (\<exists>g v meta. ollama_client svc (model svc) (build_extraction_prompt raw_text)
             (temperature svc) SYSTEM_PROMPT = Inr g \<and>
            validate_extraction py (gen_data g) raw_text = Inr v \<and>
            r = extraction_of_validated v raw_text (calculate_confidence v raw_text)
                  (calculate_confidence v raw_text < confidence_threshold svc) meta \<and>
            map_of meta ''fallback'' = None)"
proof (cases "ollama_client svc (model svc) (build_extraction_prompt raw_text)
             (temperature svc) SYSTEM_PROMPT")
  case (Inl e)
  with assms show ?thesis
    by (cases e) (simp_all add: extract_vulnerability_def extract_try_def)
next
  case (Inr g)
  show ?thesis
  proof (cases "validate_extraction py (gen_data g) raw_text")
    case (Inl e)
    with Inr assms validate_extraction_raises[OF Inl] show ?thesis
      by (simp add: extract_vulnerability_def extract_try_def)
  next
    case v: (Inr v)
    from extract_vulnerability_validated[OF Inr v, of now] assms Inr v
    show ?thesis by auto
  qed
qed

lemma acme_confidence: "calculate_confidence acme_validated acme_raw = 9 / 10"
  by (simp add: calculate_confidence_def acme_validated_def truthy_str_def
      description_points_def py_round3_def round_half_even_def Let_def lit_def)

section \<open>Facts about the CVE pattern\<close>

lemma lit_dash: "lit ''-'' = [45]"
  by (simp add: lit_def)

lemma takeWhile_digits_append:
  "list_all (is_decimal py) n \<Longrightarrow>
   takeWhile (is_decimal py) (n @ rest) = n @ takeWhile (is_decimal py) rest"
  by (induction n) auto

lemma split9: "s = take 4 s @ take 4 (drop 4 s) @ take 1 (drop 8 s) @ drop 9 s"
proof -
  have a: "take 1 (drop 8 s) @ drop 9 s = drop 8 s"
    using append_take_drop_id[of 1 "drop 8 s"] by simp
  have b: "take 4 (drop 4 s) @ drop 8 s = drop 4 s"
    using append_take_drop_id[of 4 "drop 4 s"] by simp
  show ?thesis unfolding a b by simp
qed

lemma cve_wellformedI:
  assumes "cve_prefix py p" "length y = 4" "list_all (is_decimal py) y"
    "list_all (is_decimal py) n" "4 \<le> length n"
  shows "cve_wellformed py (p @ y @ 45 # n)"
  using assms cve_prefix_length[OF assms(1)]
  by (simp add: cve_wellformed_def lit_dash)

lemma cve_wellformedD:
  assumes "cve_wellformed py m"
  shows "\<exists>p y n. m = p @ y @ 45 # n \<and> cve_prefix py p \<and> length y = 4 \<and>
           list_all (is_decimal py) y \<and> list_all (is_decimal py) n \<and> 4 \<le> length n"
proof (intro exI conjI)
  have "m = take 4 m @ take 4 (drop 4 m) @ take 1 (drop 8 m) @ drop 9 m"
    by (rule split9)
  then show "m = take 4 m @ take 4 (drop 4 m) @ 45 # drop 9 m"
    using assms by (simp add: cve_wellformed_def lit_dash)
qed (use assms in \<open>simp_all add: cve_wellformed_def\<close>)

lemma cve_match_at_decomposed:
  assumes "cve_prefix py p" "length y = 4" "list_all (is_decimal py) y"
    "list_all (is_decimal py) n" "4 \<le> length n"
  shows "cve_match_at py (p @ y @ 45 # n @ rest) =
           Some (p @ y @ 45 # n @ takeWhile (is_decimal py) rest)"
  using assms cve_prefix_length[OF assms(1)]
  by (simp add: cve_match_at_def Let_def takeWhile_digits_append lit_dash)

lemma cve_match_at_wellformed:
  "cve_wellformed py m \<Longrightarrow>
   cve_match_at py (m @ post) = Some (m @ takeWhile (is_decimal py) post)"
  by (auto dest!: cve_wellformedD simp: cve_match_at_decomposed)

lemma cve_match_atD:
  assumes "cve_match_at py s = Some m"
  shows "cve_wellformed py m \<and> (\<exists>post. s = m @ post)"
proof -
  let ?p = "take 4 s" and ?y = "take 4 (drop 4 s)" and ?n = "takeWhile (is_decimal py) (drop 9 s)"
  from assms have c: "cve_prefix py ?p" "length ?y = 4" "list_all (is_decimal py) ?y"
      "take 1 (drop 8 s) = [45]" "4 \<le> length ?n"
    and m: "m = ?p @ ?y @ 45 # ?n"
    by (auto simp: cve_match_at_def Let_def lit_dash split: if_splits)
  have "list_all (is_decimal py) ?n" by (simp add: list_all_iff) (meson set_takeWhileD)
  with c have w: "cve_wellformed py m" unfolding m by (intro cve_wellformedI) simp_all
  have "s = take 4 s @ take 4 (drop 4 s) @ take 1 (drop 8 s) @ drop 9 s"
    by (rule split9)
  also have "drop 9 s = ?n @ dropWhile (is_decimal py) (drop 9 s)" by simp
  finally have "s = m @ dropWhile (is_decimal py) (drop 9 s)" using c(4) by (simp add: m)
  with w show ?thesis by blast
qed

lemma cve_fullmatch_wellformed: "cve_fullmatch py s = cve_wellformed py s"
proof
  assume "cve_fullmatch py s"
  then show "cve_wellformed py s" by (auto simp: cve_fullmatch_def dest: cve_match_atD)
next
  assume "cve_wellformed py s"
  from cve_match_at_wellformed[OF this, of "[]"] show "cve_fullmatch py s"
    by (simp add: cve_fullmatch_def)
qed

lemma cve_wellformed_nonempty: "cve_wellformed py m \<Longrightarrow> m \<noteq> []"
  by (auto simp: cve_wellformed_def)

lemma cve_search_finds:
  assumes "cve_wellformed py m"
  shows "\<exists>pre' m' post'. pre @ m @ post = pre' @ m' @ post' \<and>
           cve_search py (pre @ m @ post) = Some m' \<and> cve_wellformed py m' \<and>
           length pre' \<le> length pre \<and>
           (length pre' = length pre \<longrightarrow> m' = m @ takeWhile (is_decimal py) post)"
proof (induction pre)
  case Nil
  obtain c cs where cs: "m @ post = c # cs"
    using cve_wellformed_nonempty[OF assms] by (cases "m @ post") auto
  have "cve_search py (m @ post) = Some (m @ takeWhile (is_decimal py) post)"
    using cve_match_at_wellformed[OF assms, of post] unfolding cs by simp
  moreover have "cve_wellformed py (m @ takeWhile (is_decimal py) post)"
    using cve_match_at_wellformed[OF assms, of post] by (auto dest: cve_match_atD)
  moreover have "m @ post = [] @ (m @ takeWhile (is_decimal py) post) @ dropWhile (is_decimal py) post"
    by simp
  ultimately show ?case by (metis append_Nil le_refl list.size(3))
next
  case (Cons c pre)
  show ?case
  proof (cases "cve_match_at py (c # pre @ m @ post)")
    case None
    from Cons obtain pre' m' post' where
      h: "pre @ m @ post = pre' @ m' @ post'" "cve_search py (pre @ m @ post) = Some m'"
        "cve_wellformed py m'" "length pre' \<le> length pre"
        "length pre' = length pre \<longrightarrow> m' = m @ takeWhile (is_decimal py) post"
      by blast
    have "(c # pre) @ m @ post = (c # pre') @ m' @ post'" using h(1) by simp
    moreover have "cve_search py ((c # pre) @ m @ post) = Some m'" using None h(2) by simp
    moreover have "length (c # pre') \<le> length (c # pre)" using h(4) by simp
    moreover have "length (c # pre') = length (c # pre) \<longrightarrow> m' = m @ takeWhile (is_decimal py) post"
      using h(5) by simp
    ultimately show ?thesis using h(3) by blast
  next
    case (Some x)
    then obtain post' where "cve_wellformed py x" "c # pre @ m @ post = x @ post'"
      by (auto dest: cve_match_atD)
    moreover have "cve_search py ((c # pre) @ m @ post) = Some x" using Some by simp
    ultimately have "(c # pre) @ m @ post = [] @ x @ post' \<and>
        cve_search py ((c # pre) @ m @ post) = Some x \<and> cve_wellformed py x \<and>
        length ([]::pystr) \<le> length (c # pre) \<and>
        (length ([]::pystr) = length (c # pre) \<longrightarrow> x = m @ takeWhile (is_decimal py) post)"
      by simp
    then show ?thesis by blast
  qed
qed

lemma validate_cve_id_found:
  assumes "cve_search py raw_text = Some m"
  shows "fst (validate_cve_id py data raw_text) = Some (chosen_cve_id py data m)"
  using assms
  by (simp add: validate_cve_id_def chosen_cve_id_def Let_def cve_fullmatch_wellformed)

lemma fallback_cve_id:
  assumes "cve_search py raw_text = Some m"
  shows "cve_id (create_fallback_result py now raw_text msg) = Some (upper py m)"
  using assms by (simp add: create_fallback_result_def Let_def)

lemma extract_vulnerability_cve_id:
  assumes s: "cve_search py raw_text = Some m"
  shows "(ollama_client svc (model svc) (build_extraction_prompt raw_text) (temperature svc)
            SYSTEM_PROMPT = Inl (OllamaModelError msg) \<longrightarrow>
          (\<exists>r. extract_vulnerability py svc now raw_text = Inr r \<and> cve_id r = Some (upper py m))) \<and>
         (ollama_client svc (model svc) (build_extraction_prompt raw_text) (temperature svc)
            SYSTEM_PROMPT = Inr g \<and> validate_extraction py (gen_data g) raw_text = Inr v \<longrightarrow>
          (\<exists>r. extract_vulnerability py svc now raw_text = Inr r \<and>
               cve_id r = Some (chosen_cve_id py (gen_data g) m)))"
proof (intro conjI impI)
  assume "ollama_client svc (model svc) (build_extraction_prompt raw_text) (temperature svc)
            SYSTEM_PROMPT = Inl (OllamaModelError msg)"
  from extract_vulnerability_model_error[OF this]
  show "\<exists>r. extract_vulnerability py svc now raw_text = Inr r \<and> cve_id r = Some (upper py m)"
    by (simp add: fallback_cve_id[OF s])
next
  assume a: "ollama_client svc (model svc) (build_extraction_prompt raw_text) (temperature svc)
            SYSTEM_PROMPT = Inr g \<and> validate_extraction py (gen_data g) raw_text = Inr v"
  then have g: "ollama_client svc (model svc) (build_extraction_prompt raw_text) (temperature svc)
            SYSTEM_PROMPT = Inr g" and v: "validate_extraction py (gen_data g) raw_text = Inr v"
    by blast+
  from extract_vulnerability_validated[OF g v, of now] obtain meta where
    "extract_vulnerability py svc now raw_text =
           Inr (extraction_of_validated v raw_text (calculate_confidence v raw_text)
                  (calculate_confidence v raw_text < confidence_threshold svc) meta)"
    by blast
  then show "\<exists>r. extract_vulnerability py svc now raw_text = Inr r \<and>
               cve_id r = Some (chosen_cve_id py (gen_data g) m)"
    using validate_extraction_sel(1)[OF v] validate_cve_id_found[OF s, of "gen_data g"]
    by (simp add: extraction_of_validated_def)
qed

subsection \<open>Text outside ASCII\<close>

text \<open>
  With the sample database: a no-break space is stripped, the dotless i is upper-cased to
  an ASCII letter, and the search finds an id written with fullwidth digits before an
  ASCII one.
\<close>

lemma strip_no_break_space:
  "strip (upper sample_builtins (lit ''high'' @ [0xA0])) = lit ''HIGH''"
  by (simp add: text_defs)

lemma upper_dotless_i:
  "upper sample_builtins [0x68, 0x131, 0x67, 0x68] = lit ''HIGH''"
  by (simp add: text_defs)

lemma cve_search_fullwidth:
  "cve_search sample_builtins
     (lit ''see cve-'' @ [0xFF12, 0xFF10, 0xFF12, 0xFF14] @ lit ''-'' @
      [0xFF11, 0xFF12, 0xFF13, 0xFF14] @ lit '' and CVE-2024-1234'') =
   Some (lit ''cve-'' @ [0xFF12, 0xFF10, 0xFF12, 0xFF14] @ lit ''-'' @
         [0xFF11, 0xFF12, 0xFF13, 0xFF14])"
  by (simp add: cve_match_at_def text_defs)

section \<open>Facts about the provider loop\<close>

lemma try_providers_calls:
  "try_providers py svc now raw attempt ps err calls = (res, calls') \<Longrightarrow>
   \<exists>k. k \<le> length ps \<and> calls' = calls @ map provider_name (take k ps) \<and>
       (0 < k \<longrightarrow> int (attempt + k) \<le> max_retries svc) \<and>
       (\<forall>i. Suc i < k \<longrightarrow> is_provider_error (provider_outcome svc raw (ps ! i))) \<and>
       (\<forall>i < length ps. int (attempt + i) < max_retries svc \<and>
           (\<forall>j<i. is_provider_error (provider_outcome svc raw (ps ! j))) \<longrightarrow> i < k)"
proof (induction ps arbitrary: attempt err calls)
  case Nil
  then show ?case by simp
next
  case (Cons p ps)
  show ?case
  proof (cases "max_retries svc \<le> int attempt")
    case True
    with Cons.prems have "calls' = calls" by simp
    with True show ?thesis by (intro exI[of _ 0]) auto
  next
    case False
    show ?thesis
    proof (cases "is_provider_error (provider_outcome svc raw p)")
      case True
      then obtain e where e: "provider_outcome svc raw p = Inl e"
        and ee: "(\<exists>m. e = LLMConnectionError m) \<or> (\<exists>m. e = LLMGenerationError m)"
        by (cases "provider_outcome svc raw p" rule: is_provider_error.cases) auto
      from Cons.prems False e ee
      have "try_providers py svc now raw (Suc attempt) ps (Some e) (calls @ [provider_name p])
              = (res, calls')"
        by (auto simp: provider_outcome_def)
      from Cons.IH[OF this] obtain k where
        k: "k \<le> length ps" "calls' = (calls @ [provider_name p]) @ map provider_name (take k ps)"
          "0 < k \<longrightarrow> int (Suc attempt + k) \<le> max_retries svc"
          "\<forall>i. Suc i < k \<longrightarrow> is_provider_error (provider_outcome svc raw (ps ! i))"
          "\<forall>i < length ps. int (Suc attempt + i) < max_retries svc \<and>
             (\<forall>j<i. is_provider_error (provider_outcome svc raw (ps ! j))) \<longrightarrow> i < k"
        by blast
      have 1: "Suc k \<le> length (p # ps)" using k(1) by simp
      have 2: "calls' = calls @ map provider_name (take (Suc k) (p # ps))" using k(2) by simp
      have 3: "0 < Suc k \<longrightarrow> int (attempt + Suc k) \<le> max_retries svc"
        using k(3) False by (cases k) auto
      have 4: "\<forall>i. Suc i < Suc k \<longrightarrow> is_provider_error (provider_outcome svc raw ((p # ps) ! i))"
      proof (intro allI impI)
        fix i assume "Suc i < Suc k"
        then show "is_provider_error (provider_outcome svc raw ((p # ps) ! i))"
          using True k(4) by (cases i) auto
      qed
      have 5: "\<forall>i < length (p # ps). int (attempt + i) < max_retries svc \<and>
             (\<forall>j<i. is_provider_error (provider_outcome svc raw ((p # ps) ! j))) \<longrightarrow> i < Suc k"
      proof (intro allI impI)
        fix i assume i: "i < length (p # ps)"
          and h: "int (attempt + i) < max_retries svc \<and>
             (\<forall>j<i. is_provider_error (provider_outcome svc raw ((p # ps) ! j)))"
        show "i < Suc k"
        proof (cases i)
          case 0
          then show ?thesis by simp
        next
          case (Suc n)
          have "n < length ps" using i Suc by simp
          moreover have "int (Suc attempt + n) < max_retries svc" using h Suc by simp
          moreover have "\<forall>j<n. is_provider_error (provider_outcome svc raw (ps ! j))"
          proof (intro allI impI)
            fix j assume "j < n"
            then have "Suc j < i" using Suc by simp
            with h have "is_provider_error (provider_outcome svc raw ((p # ps) ! Suc j))" by blast
            then show "is_provider_error (provider_outcome svc raw (ps ! j))" by simp
          qed
          ultimately have "n < k" using k(5) by blast
          then show ?thesis using Suc by simp
        qed
      qed
      from 1 2 3 4 5 show ?thesis by blast
    next
      case np: False
      have c: "calls' = calls @ [provider_name p]"
      proof (cases "provider_outcome svc raw p")
        case (Inl e)
        with np have "(\<forall>m. e \<noteq> LLMConnectionError m) \<and> (\<forall>m. e \<noteq> LLMGenerationError m)"
          by auto
        with Cons.prems False Inl show ?thesis
          by (cases e) (auto simp: provider_outcome_def)
      next
        case (Inr g)
        with Cons.prems False show ?thesis
          by (auto simp: provider_outcome_def Let_def split: sum.splits)
      qed
      have 1: "Suc 0 \<le> length (p # ps)" by simp
      have 2: "calls' = calls @ map provider_name (take (Suc 0) (p # ps))" using c by simp
      have 3: "0 < Suc 0 \<longrightarrow> int (attempt + Suc 0) \<le> max_retries svc" using False by simp
      have 4: "\<forall>i. Suc i < Suc 0 \<longrightarrow> is_provider_error (provider_outcome svc raw ((p # ps) ! i))"
        by simp
      have 5: "\<forall>i < length (p # ps). int (attempt + i) < max_retries svc \<and>
             (\<forall>j<i. is_provider_error (provider_outcome svc raw ((p # ps) ! j))) \<longrightarrow> i < Suc 0"
      proof (intro allI impI)
        fix i assume "i < length (p # ps)"
          and h: "int (attempt + i) < max_retries svc \<and>
             (\<forall>j<i. is_provider_error (provider_outcome svc raw ((p # ps) ! j)))"
        show "i < Suc 0"
        proof (rule ccontr)
          assume "\<not> i < Suc 0"
          then have "0 < i" by simp
          with h have "is_provider_error (provider_outcome svc raw ((p # ps) ! 0))" by blast
          with np show False by simp
        qed
      qed
      from 1 2 3 4 5 show ?thesis by blast
    qed
  qed
qed

lemma try_providers_result:
  "try_providers py svc now raw attempt ps err calls = (Inr r, calls') \<Longrightarrow>
   (\<exists>e. r = all_failed_result py now raw e) \<or>
   (\<exists>p \<in> set ps. \<exists>g v meta. provider_outcome svc raw p = Inr g \<and>
      validate_extraction py (gen_data g) raw = Inr v \<and>
      r = extraction_of_validated v raw (calculate_confidence v raw)
            (calculate_confidence v raw < m_confidence_threshold svc) meta \<and>
      map_of meta ''fallback'' = None)"
proof (induction ps arbitrary: attempt err calls)
  case Nil
  then show ?case by auto
next
  case (Cons p ps)
  show ?case
  proof (cases "max_retries svc \<le> int attempt")
    case True
    with Cons.prems show ?thesis by auto
  next
    case False
    show ?thesis
    proof (cases "provider_outcome svc raw p")
      case (Inl e)
      show ?thesis
      proof (cases "is_provider_error (provider_outcome svc raw p)")
        case True
        with Inl have ee: "(\<exists>m. e = LLMConnectionError m) \<or> (\<exists>m. e = LLMGenerationError m)"
          by (cases e) auto
        from Cons.prems False Inl ee
        have "try_providers py svc now raw (Suc attempt) ps (Some e) (calls @ [provider_name p])
                = (Inr r, calls')"
          by (auto simp: provider_outcome_def)
        from Cons.IH[OF this] show ?thesis by auto
      next
        case np: False
        with Inl have "(\<forall>m. e \<noteq> LLMConnectionError m) \<and> (\<forall>m. e \<noteq> LLMGenerationError m)"
          by auto
        with Cons.prems False Inl show ?thesis
          by (cases e) (auto simp: provider_outcome_def)
      qed
    next
      case (Inr g)
      show ?thesis
      proof (cases "validate_extraction py (gen_data g) raw")
        case (Inl e)
        with Cons.prems False Inr show ?thesis
          by (auto simp: provider_outcome_def)
      next
        case v: (Inr v)
        let ?meta = "[(''provider'', MStr (provider_name p)),
                          (''model'', MStr (m_model svc)),
                          (''temperature'', MNum (m_temperature svc)),
                          (''extraction_time'', MTime now),
                          (''provider_metadata'', MDict (gen_metadata g)),
                          (''validation_issues'', MIssues (v_validation_issues v)),
                          (''fallback_attempt'', MNat attempt)]"
        from Cons.prems False Inr v
        have "r = extraction_of_validated v raw (calculate_confidence v raw)
            (calculate_confidence v raw < m_confidence_threshold svc) ?meta"
          by (auto simp: provider_outcome_def Let_def)
        moreover have "map_of ?meta ''fallback'' = None" by simp
        ultimately show ?thesis using Inr v by (intro disjI2 bexI[of _ p]) auto
      qed
    qed
  qed
qed

lemma try_providers_fallback_scenario:
  assumes p1: "provider_outcome svc raw p = Inl (LLMConnectionError e)"
    and p2: "provider_outcome svc raw fb = Inr g"
    and v: "validate_extraction py (gen_data g) raw = Inr v"
    and m: "2 \<le> max_retries svc"
  shows "\<exists>r. try_providers py svc now raw 0 [p, fb] None [] =
              (Inr r, [provider_name p, provider_name fb]) \<and>
           meta_get (extraction_metadata r) ''fallback_attempt'' = Some (MNat 1) \<and>
           meta_get (extraction_metadata r) ''provider'' = Some (MStr (provider_name fb))"
  using assms
  by (simp add: provider_outcome_def Let_def extraction_of_validated_def meta_get_def)

lemma try_providers_winner:
  "try_providers py svc now raw attempt ps err calls = (res, calls') \<Longrightarrow>
   length calls' = length calls + Suc i \<Longrightarrow> i < length ps \<Longrightarrow>
   provider_outcome svc raw (ps ! i) = Inr g \<Longrightarrow>
   validate_extraction py (gen_data g) raw = Inr v \<Longrightarrow>
   \<exists>r. res = Inr r \<and>
       meta_get (extraction_metadata r) ''provider'' = Some (MStr (provider_name (ps ! i))) \<and>
       meta_get (extraction_metadata r) ''fallback_attempt'' = Some (MNat (attempt + i))"
proof (induction ps arbitrary: attempt err calls i)
  case Nil
  then show ?case by simp
next
  case (Cons p ps)
  from Cons.prems(1,2) have nf: "\<not> max_retries svc \<le> int attempt" by auto
  show ?case
  proof (cases "is_provider_error (provider_outcome svc raw p)")
    case True
    then obtain e where e: "provider_outcome svc raw p = Inl e"
      and ee: "(\<exists>m. e = LLMConnectionError m) \<or> (\<exists>m. e = LLMGenerationError m)"
      by (cases "provider_outcome svc raw p" rule: is_provider_error.cases) auto
    from True Cons.prems(4) obtain n where n: "i = Suc n" by (cases i) auto
    from Cons.prems(1) nf e ee
    have t: "try_providers py svc now raw (Suc attempt) ps (Some e) (calls @ [provider_name p])
            = (res, calls')"
      by (auto simp: provider_outcome_def)
    have "length calls' = length (calls @ [provider_name p]) + Suc n"
      using Cons.prems(2) n by simp
    moreover have "n < length ps" using Cons.prems(3) n by simp
    moreover have "provider_outcome svc raw (ps ! n) = Inr g" using Cons.prems(4) n by simp
    ultimately show ?thesis using Cons.IH[OF t _ _ _ Cons.prems(5), of n] n by simp
  next
    case np: False
    have c: "calls' = calls @ [provider_name p]"
    proof (cases "provider_outcome svc raw p")
      case (Inl e)
      with np have "(\<forall>m. e \<noteq> LLMConnectionError m) \<and> (\<forall>m. e \<noteq> LLMGenerationError m)"
        by auto
      with Cons.prems(1) nf Inl show ?thesis
        by (cases e) (auto simp: provider_outcome_def)
    next
      case (Inr g)
      with Cons.prems(1) nf show ?thesis
        by (auto simp: provider_outcome_def Let_def split: sum.splits)
    qed
    with Cons.prems(2) have i: "i = 0" by simp
    with Cons.prems(4) have g: "provider_outcome svc raw p = Inr g" by simp
    from Cons.prems(1) nf g Cons.prems(5) show ?thesis
      by (auto simp: i provider_outcome_def Let_def extraction_of_validated_def meta_get_def)
  qed
qed

section \<open>Facts about the processing pipeline\<close>

subsection \<open>The branches of process_entry\<close>

lemma utcnow_simps:
  "fst (utcnow s) = clock s (ticks s)"
  "raw_entries (snd (utcnow s)) = raw_entries s"
  "vulnerabilities (snd (utcnow s)) = vulnerabilities s"
  "clock (snd (utcnow s)) = clock s"
  "ticks (snd (utcnow s)) = Suc (ticks s)"
  by (simp_all add: utcnow_def)

lemma save_entry_simps:
  "raw_entries (save_entry e s) =
     map (\<lambda>x. if entry_id x = entry_id e then e else x) (raw_entries s)"
  "vulnerabilities (save_entry e s) = vulnerabilities s"
  "clock (save_entry e s) = clock s"
  "ticks (save_entry e s) = ticks s"
  by (simp_all add: save_entry_def)

lemma save_vulnerability_simps:
  "raw_entries (save_vulnerability v s) = raw_entries s"
  "vulnerabilities (save_vulnerability v s) = replace_first v (vulnerabilities s)"
  "clock (save_vulnerability v s) = clock s"
  "ticks (save_vulnerability v s) = ticks s"
  by (simp_all add: save_vulnerability_def)

lemma db_get_save_entry: "db_get (save_entry e s) c = db_get s c"
  by (simp add: db_get_def save_entry_simps)

lemma fail_entry_simps:
  "fst (fail_entry msg e s) =
     e\<lparr>processing_status := FAILED, last_processing_error := Some msg,
       processed_at := Some (clock s (ticks s))\<rparr>"
  "raw_entries (snd (fail_entry msg e s)) =
     map (\<lambda>x. if entry_id x = entry_id e then fst (fail_entry msg e s) else x) (raw_entries s)"
  "vulnerabilities (snd (fail_entry msg e s)) = vulnerabilities s"
  "clock (snd (fail_entry msg e s)) = clock s"
  "ticks (snd (fail_entry msg e s)) = Suc (ticks s)"
  by (simp_all add: fail_entry_def utcnow_def save_entry_def Let_def)

lemma complete_entry_simps:
  "fst (complete_entry e s) =
     e\<lparr>processing_status := COMPLETED, processed_at := Some (clock s (ticks s))\<rparr>"
  "raw_entries (snd (complete_entry e s)) =
     map (\<lambda>x. if entry_id x = entry_id e then fst (complete_entry e s) else x) (raw_entries s)"
  "vulnerabilities (snd (complete_entry e s)) = vulnerabilities s"
  "clock (snd (complete_entry e s)) = clock s"
  "ticks (snd (complete_entry e s)) = Suc (ticks s)"
  by (simp_all add: complete_entry_def utcnow_def save_entry_def Let_def)

lemma insert_vulnerability_simps:
  "fst (insert_vulnerability v s) =
     v\<lparr>created_at := clock s (ticks s), updated_at := clock s (Suc (ticks s))\<rparr>"
  "raw_entries (snd (insert_vulnerability v s)) = raw_entries s"
  "vulnerabilities (snd (insert_vulnerability v s)) =
     vulnerabilities s @ [fst (insert_vulnerability v s)]"
  "clock (snd (insert_vulnerability v s)) = clock s"
  "ticks (snd (insert_vulnerability v s)) = Suc (Suc (ticks s))"
  by (simp_all add: insert_vulnerability_def utcnow_def Let_def)

lemma started_simps:
  "entry_id (started e) = entry_id e"
  "raw_payload (started e) = raw_payload e"
  "processing_attempts (started e) = processing_attempts e + 1"
  by (simp_all add: started_def)

lemma process_entry_raise:
  assumes "llm (raw_payload entry) = Inl e"
  shows "process_entry llm s entry =
           (None, fail_entry (exn_str e) (started entry) (save_entry (started entry) s))"
  using assms by (simp add: process_entry_def started_def Let_def)

lemma process_entry_no_cve:
  assumes "llm (raw_payload entry) = Inr x" "cve_id x = None \<or> cve_id x = Some []"
  shows "process_entry llm s entry =
           (None, fail_entry (lit ''No CVE ID extracted from text'') (started entry)
                    (save_entry (started entry) s))"
  using assms by (auto simp add: process_entry_def started_def Let_def)

lemma process_entry_skip:
  assumes "llm (raw_payload entry) = Inr x" "cve_id x = Some c" "c \<noteq> []"
    "db_get s c = Some existing"
    "\<not> vuln_confidence_score existing < confidence_score x"
  shows "process_entry llm s entry =
           (None, complete_entry (started entry) (save_entry (started entry) s))"
  using assms by (simp add: process_entry_def started_def[symmetric] started_simps Let_def db_get_save_entry)

lemma process_entry_update:
  assumes "llm (raw_payload entry) = Inr x" "cve_id x = Some c" "c \<noteq> []"
    "db_get s c = Some existing"
    "vuln_confidence_score existing < confidence_score x"
  shows "process_entry llm s entry =
           (Some (merged existing x (clock s (ticks s))),
            complete_entry (started entry)
              (save_vulnerability (merged existing x (clock s (ticks s)))
                 (snd (utcnow (save_entry (started entry) s)))))"
  using assms
  by (simp add: process_entry_def started_def[symmetric] started_simps Let_def db_get_save_entry
      merged_def split_beta utcnow_simps save_entry_simps)

lemma process_entry_create:
  assumes "llm (raw_payload entry) = Inr x" "cve_id x = Some c" "c \<noteq> []"
    "db_get s c = None"
  shows "process_entry llm s entry =
           (Some (fst (insert_vulnerability (new_vulnerability c x)
                    (snd (complete_entry (started entry) (save_entry (started entry) s))))),
            fst (complete_entry (started entry) (save_entry (started entry) s)),
            snd (insert_vulnerability (new_vulnerability c x)
                    (snd (complete_entry (started entry) (save_entry (started entry) s)))))"
  using assms
  by (simp add: process_entry_def started_def[symmetric] started_simps Let_def db_get_save_entry split_beta)

lemma find_cve_id: "find (\<lambda>v. vuln_cve_id v = c) vs = Some ex \<Longrightarrow> vuln_cve_id ex = c"
  by (induction vs) (auto split: if_splits)

lemma find_replace_first:
  "find (\<lambda>v. vuln_cve_id v = c) vs = Some ex \<Longrightarrow> vuln_cve_id m = c \<Longrightarrow>
   find (\<lambda>v. vuln_cve_id v = c) (replace_first m vs) = Some m"
  by (induction vs) (auto split: if_splits)

lemma length_replace_first: "length (replace_first m vs) = length vs"
  by (induction vs) auto

lemma map_cve_id_replace_first:
  "map vuln_cve_id (replace_first m vs) = map vuln_cve_id vs"
  by (induction vs) auto

lemma merged_simps:
  "vuln_cve_id (merged ex x now) = vuln_cve_id ex"
  "vuln_title (merged ex x now) = or_str (title x) (vuln_title ex)"
  "vuln_description (merged ex x now) = or_text (description x) (vuln_description ex)"
  "vuln_severity (merged ex x now) = or_str (severity x) (vuln_severity ex)"
  "vuln_cvss_score (merged ex x now) = or_float (cvss_score x) (vuln_cvss_score ex)"
  "vuln_cvss_vector (merged ex x now) = or_str (cvss_vector x) (vuln_cvss_vector ex)"
  "vuln_confidence_score (merged ex x now) = confidence_score x"
  "vuln_needs_review (merged ex x now) = needs_review x"
  "vuln_extraction_metadata (merged ex x now) = Some (extraction_metadata x)"
  "updated_at (merged ex x now) = now"
  "created_at (merged ex x now) = created_at ex"
  "epss_score (merged ex x now) = epss_score ex"
  "kev_status (merged ex x now) = kev_status ex"
  "kev_date_added (merged ex x now) = kev_date_added ex"
  "remediated_at (merged ex x now) = remediated_at ex"
  "published_date (merged ex x now) = published_date ex"
  by (simp_all add: merged_def)

subsection \<open>What process_entry does to the entry and to the tables\<close>

lemma process_entry_branches:
  obtains
    (raised) e where "llm (raw_payload entry) = Inl e"
  | (no_cve) x where "llm (raw_payload entry) = Inr x" "cve_id x = None \<or> cve_id x = Some []"
  | (skip) x c existing where "llm (raw_payload entry) = Inr x" "cve_id x = Some c" "c \<noteq> []"
      "db_get s c = Some existing" "\<not> vuln_confidence_score existing < confidence_score x"
  | (update) x c existing where "llm (raw_payload entry) = Inr x" "cve_id x = Some c" "c \<noteq> []"
      "db_get s c = Some existing" "vuln_confidence_score existing < confidence_score x"
  | (create) x c where "llm (raw_payload entry) = Inr x" "cve_id x = Some c" "c \<noteq> []"
      "db_get s c = None"
proof (cases "llm (raw_payload entry)")
  case (Inl e)
  then show ?thesis by (rule raised)
next
  case (Inr x)
  show ?thesis
  proof (cases "cve_id x")
    case None
    with Inr show ?thesis by (intro no_cve) auto
  next
    case (Some c)
    show ?thesis
    proof (cases "c = []")
      case True
      with Inr Some show ?thesis by (intro no_cve) auto
    next
      case False
      show ?thesis
      proof (cases "db_get s c")
        case None
        with Inr Some False show ?thesis by (intro create) auto
      next
        case ex: (Some existing)
        show ?thesis
        proof (cases "vuln_confidence_score existing < confidence_score x")
          case True
          with Inr Some False ex show ?thesis by (intro update) auto
        next
          case nf: False
          with Inr Some False ex show ?thesis by (intro skip) auto
        qed
      qed
    qed
  qed
qed

lemma process_entry_entry:
  assumes "process_entry llm s entry = (result, entry', s')"
  shows "entry_id entry' = entry_id entry"
    and "processing_attempts entry' = processing_attempts entry + 1"
    and "processing_status entry' = COMPLETED \<or> processing_status entry' = FAILED"
    and "raw_entries s' =
           map (\<lambda>x. if entry_id x = entry_id entry then entry' else x) (raw_entries s)"
    and "clock s' = clock s"
proof -
  have "entry_id entry' = entry_id entry \<and>
        processing_attempts entry' = processing_attempts entry + 1 \<and>
        (processing_status entry' = COMPLETED \<or> processing_status entry' = FAILED) \<and>
        raw_entries s' =
           map (\<lambda>x. if entry_id x = entry_id entry then entry' else x) (raw_entries s) \<and>
        clock s' = clock s"
  proof (cases rule: process_entry_branches[where llm=llm and entry=entry and s=s])
    case (raised e)
    from process_entry_raise[where llm=llm and entry=entry and s=s, OF raised] assms
    have "entry' = fst (fail_entry (exn_str e) (started entry) (save_entry (started entry) s))"
      "s' = snd (fail_entry (exn_str e) (started entry) (save_entry (started entry) s))"
      by (simp_all add: prod_eq_iff)
    then show ?thesis
      by (simp add: fail_entry_simps save_entry_simps started_simps started_def o_def)
  next
    case (no_cve x)
    from process_entry_no_cve[where llm=llm and entry=entry and s=s, OF no_cve] assms
    have "entry' = fst (fail_entry (lit ''No CVE ID extracted from text'') (started entry)
                          (save_entry (started entry) s))"
      "s' = snd (fail_entry (lit ''No CVE ID extracted from text'') (started entry)
                          (save_entry (started entry) s))"
      by (simp_all add: prod_eq_iff)
    then show ?thesis
      by (simp add: fail_entry_simps save_entry_simps started_simps started_def o_def)
  next
    case (skip x c existing)
    from process_entry_skip[where llm=llm and entry=entry and s=s, OF skip] assms
    have "entry' = fst (complete_entry (started entry) (save_entry (started entry) s))"
      "s' = snd (complete_entry (started entry) (save_entry (started entry) s))"
      by (simp_all add: prod_eq_iff)
    then show ?thesis
      by (simp add: complete_entry_simps save_entry_simps started_simps started_def o_def)
  next
    case (update x c existing)
    from process_entry_update[where llm=llm and entry=entry and s=s, OF update] assms
    have "entry' = fst (complete_entry (started entry)
              (save_vulnerability (merged existing x (clock s (ticks s)))
                 (snd (utcnow (save_entry (started entry) s)))))"
      "s' = snd (complete_entry (started entry)
              (save_vulnerability (merged existing x (clock s (ticks s)))
                 (snd (utcnow (save_entry (started entry) s)))))"
      by (simp_all add: prod_eq_iff)
    then show ?thesis
      by (simp add: complete_entry_simps save_vulnerability_simps utcnow_simps
          save_entry_simps started_simps started_def o_def)
  next
    case (create x c)
    from process_entry_create[where llm=llm and entry=entry and s=s, OF create] assms
    have "entry' = fst (complete_entry (started entry) (save_entry (started entry) s))"
      "s' = snd (insert_vulnerability (new_vulnerability c x)
                    (snd (complete_entry (started entry) (save_entry (started entry) s))))"
      by (simp_all add: prod_eq_iff)
    then show ?thesis
      by (simp add: insert_vulnerability_simps complete_entry_simps save_entry_simps
          started_simps started_def o_def)
  qed
  then show "entry_id entry' = entry_id entry"
    and "processing_attempts entry' = processing_attempts entry + 1"
    and "processing_status entry' = COMPLETED \<or> processing_status entry' = FAILED"
    and "raw_entries s' =
           map (\<lambda>x. if entry_id x = entry_id entry then entry' else x) (raw_entries s)"
    and "clock s' = clock s"
    by blast+
qed

lemma find_None_cve: "find (\<lambda>v. vuln_cve_id v = c) vs = None \<Longrightarrow> c \<notin> set (map vuln_cve_id vs)"
  by (induction vs) (auto split: if_splits)

lemma process_entry_vulnerabilities:
  assumes "process_entry llm s entry = (result, entry', s')"
    and "distinct (map vuln_cve_id (vulnerabilities s))"
  shows "distinct (map vuln_cve_id (vulnerabilities s'))"
proof (cases rule: process_entry_branches[where llm=llm and entry=entry and s=s])
  case (raised e)
  from process_entry_raise[where llm=llm and entry=entry and s=s, OF raised] assms(1)
  have "s' = snd (fail_entry (exn_str e) (started entry) (save_entry (started entry) s))"
    by (simp add: prod_eq_iff)
  then show ?thesis using assms(2) by (simp add: fail_entry_simps save_entry_simps)
next
  case (no_cve x)
  from process_entry_no_cve[where llm=llm and entry=entry and s=s, OF no_cve] assms(1)
  have "s' = snd (fail_entry (lit ''No CVE ID extracted from text'') (started entry)
                          (save_entry (started entry) s))"
    by (simp add: prod_eq_iff)
  then show ?thesis using assms(2) by (simp add: fail_entry_simps save_entry_simps)
next
  case (skip x c existing)
  from process_entry_skip[where llm=llm and entry=entry and s=s, OF skip] assms(1)
  have "s' = snd (complete_entry (started entry) (save_entry (started entry) s))"
    by (simp add: prod_eq_iff)
  then show ?thesis using assms(2) by (simp add: complete_entry_simps save_entry_simps)
next
  case (update x c existing)
  from process_entry_update[where llm=llm and entry=entry and s=s, OF update] assms(1)
  have "s' = snd (complete_entry (started entry)
              (save_vulnerability (merged existing x (clock s (ticks s)))
                 (snd (utcnow (save_entry (started entry) s)))))"
    by (simp add: prod_eq_iff)
  then show ?thesis using assms(2)
    by (simp add: complete_entry_simps save_vulnerability_simps utcnow_simps
        save_entry_simps map_cve_id_replace_first)
next
  case (create x c)
  from process_entry_create[where llm=llm and entry=entry and s=s, OF create] assms(1)
  have "s' = snd (insert_vulnerability (new_vulnerability c x)
                    (snd (complete_entry (started entry) (save_entry (started entry) s))))"
    by (simp add: prod_eq_iff)
  moreover have "c \<notin> set (map vuln_cve_id (vulnerabilities s))"
    using create(4) find_None_cve[of c "vulnerabilities s"] by (simp add: db_get_def)
  ultimately show ?thesis using assms(2)
    by (simp add: insert_vulnerability_simps complete_entry_simps save_entry_simps
        new_vulnerability_def)
qed

lemma process_entries_vulnerabilities:
  "process_entries llm k es stats s = (stats', s') \<Longrightarrow>
   distinct (map vuln_cve_id (vulnerabilities s)) \<Longrightarrow>
   distinct (map vuln_cve_id (vulnerabilities s'))"
proof (induction es arbitrary: k stats s)
  case Nil
  then show ?case by simp
next
  case (Cons e es)
  obtain r e' s1 where p: "process_entry (llm k) s e = (r, e', s1)"
    by (cases "process_entry (llm k) s e") auto
  from Cons.prems(1) p
  have "process_entries llm (Suc k) es (count_result r e' stats) s1 = (stats', s')"
    by simp
  moreover have "distinct (map vuln_cve_id (vulnerabilities s1))"
    by (rule process_entry_vulnerabilities[OF p Cons.prems(2)])
  ultimately show ?case by (rule Cons.IH)
qed

lemma new_stats_state: "snd (new_stats s) = snd (utcnow s)"
  by (simp add: new_stats_def split_beta)

lemma finish_state: "snd (finish stats s) = snd (utcnow s)"
  by (simp add: finish_def split_beta)

text \<open>The state of a batch: either nothing but clock readings, or the loop in between.\<close>

lemma process_batch_state:
  "snd (process_batch config online llm requested s) = snd (utcnow (snd (utcnow s))) \<or>
   (\<exists>cfg limit. config = Some cfg \<and>
      snd (process_batch config online llm requested s) =
        snd (utcnow (snd (process_entries llm 0
               (get_pending_entries config (Some limit) (snd (utcnow s)))
               (fst (new_stats s)) (snd (utcnow s))))))"
  by (auto simp: process_batch_def Let_def split_beta new_stats_state finish_state
           split: option.splits)

subsection \<open>The invariant along every run\<close>

lemma fold_max_ge: "(a::nat) \<le> fold max xs a"
  by (induction xs arbitrary: a) (auto intro: order_trans[OF max.cobounded2])

lemma fold_max_upper: "x \<in> set xs \<Longrightarrow> (x::nat) \<le> fold max xs a"
proof (induction xs arbitrary: a)
  case Nil
  then show ?case by simp
next
  case (Cons y ys)
  show ?case
  proof (cases "x = y")
    case True
    have "y \<le> max y a" by simp
    also have "\<dots> \<le> fold max ys (max y a)" by (rule fold_max_ge)
    finally show ?thesis using True by simp
  next
    case False
    with Cons show ?thesis by simp
  qed
qed

lemma state_ok_empty: "state_ok (empty_state c)"
  by (simp add: state_ok_def empty_state_def)

lemma state_ok_utcnow: "state_ok (snd (utcnow s)) = state_ok s"
  by (simp add: state_ok_def utcnow_simps)

lemma state_ok_ingest:
  assumes "state_ok s"
  shows "state_ok (ingest src payload s)"
proof -
  let ?n = "Suc (fold max (map entry_id (raw_entries s)) 0)"
  have "?n \<notin> set (map entry_id (raw_entries s))"
    using fold_max_upper[of ?n "map entry_id (raw_entries s)" 0] by auto
  with assms show ?thesis
    by (auto simp: state_ok_def ingest_def utcnow_def Let_def entry_ok_def)
qed

lemma state_ok_purge:
  assumes "state_ok s"
  shows "state_ok (snd (purge_old_entries days s))"
  using assms
  by (auto simp: state_ok_def purge_old_entries_def utcnow_def Let_def distinct_map_filter)

lemma state_ok_process_entry:
  assumes p: "process_entry llm s e = (r, e', s')"
    and ok: "state_ok s" and sel: "selectable e" and mem: "e \<in> set (raw_entries s)"
  shows "state_ok s'"
proof -
  note f = process_entry_entry[OF p]
  have eo: "entry_ok e" using ok mem by (simp add: state_ok_def)
  have 1: "distinct (map entry_id (raw_entries s'))"
  proof -
    have "map entry_id (raw_entries s') = map entry_id (raw_entries s)"
      unfolding f(4) using f(1) by (induction "raw_entries s") auto
    then show ?thesis using ok by (simp add: state_ok_def)
  qed
  have e': "entry_ok e'"
    using eo sel f(2,3) by (auto simp: entry_ok_def selectable_def)
  have 2: "\<forall>x \<in> set (raw_entries s'). entry_ok x"
    unfolding f(4) using ok e' by (auto simp: state_ok_def)
  have 3: "distinct (map vuln_cve_id (vulnerabilities s'))"
    using process_entry_vulnerabilities[OF p] ok by (simp add: state_ok_def)
  from 1 2 3 show ?thesis by (simp add: state_ok_def)
qed

lemma process_entry_other_rows:
  assumes p: "process_entry llm s e = (r, e', s')"
    and "x \<in> set (raw_entries s)" "entry_id x \<noteq> entry_id e"
  shows "x \<in> set (raw_entries s')"
  unfolding process_entry_entry(4)[OF p] using assms(2,3) by auto

lemma process_entries_rows:
  "process_entries llm k es stats s = (stats', s') \<Longrightarrow> x \<in> set (raw_entries s) \<Longrightarrow>
   entry_id x \<notin> entry_id ` set es \<Longrightarrow> x \<in> set (raw_entries s')"
proof (induction es arbitrary: k stats s)
  case Nil
  then show ?case by simp
next
  case (Cons e es)
  obtain r e' s1 where p: "process_entry (llm k) s e = (r, e', s1)"
    by (cases "process_entry (llm k) s e") auto
  from Cons.prems(1) p
  have t: "process_entries llm (Suc k) es (count_result r e' stats) s1 = (stats', s')"
    by simp
  have "x \<in> set (raw_entries s1)"
    using process_entry_other_rows[OF p Cons.prems(2)] Cons.prems(3) by simp
  moreover have "entry_id x \<notin> entry_id ` set es" using Cons.prems(3) by simp
  ultimately show ?case using Cons.IH[OF t] by blast
qed

lemma state_ok_process_entries:
  "process_entries llm k es stats s = (stats', s') \<Longrightarrow> state_ok s \<Longrightarrow>
   set es \<subseteq> set (raw_entries s) \<Longrightarrow> distinct (map entry_id es) \<Longrightarrow>
   \<forall>e \<in> set es. selectable e \<Longrightarrow> state_ok s'"
proof (induction es arbitrary: k stats s)
  case Nil
  then show ?case by simp
next
  case (Cons e es)
  obtain r e' s1 where p: "process_entry (llm k) s e = (r, e', s1)"
    by (cases "process_entry (llm k) s e") auto
  from Cons.prems(1) p
  have t: "process_entries llm (Suc k) es (count_result r e' stats) s1 = (stats', s')"
    by simp
  have ok1: "state_ok s1"
    using state_ok_process_entry[OF p Cons.prems(2)] Cons.prems(3,5) by simp
  have sub: "set es \<subseteq> set (raw_entries s1)"
  proof
    fix y assume y: "y \<in> set es"
    then have "y \<in> set (raw_entries s)" using Cons.prems(3) by auto
    moreover have "entry_id y \<noteq> entry_id e"
    proof
      assume "entry_id y = entry_id e"
      with y have "entry_id e \<in> entry_id ` set es" by (metis imageI)
      with Cons.prems(4) show False by simp
    qed
    ultimately show "y \<in> set (raw_entries s1)" by (rule process_entry_other_rows[OF p])
  qed
  show ?case
    using Cons.IH[OF t ok1 sub] Cons.prems(4,5) by simp
qed

lemma get_pending_entries_set:
  "set (get_pending_entries config limit s) \<subseteq> {e \<in> set (raw_entries s). selectable e}"
  by (auto simp: get_pending_entries_def Let_def dest!: in_set_takeD)

lemma get_pending_entries_distinct:
  assumes "distinct (map entry_id (raw_entries s))"
  shows "distinct (map entry_id (get_pending_entries config limit s))"
proof -
  let ?ys = "filter selectable (raw_entries s)"
  have "distinct (map entry_id ?ys)" using assms by (rule distinct_map_filter)
  then have "distinct (map entry_id (sort_key ingested_at ?ys))"
    by (simp add: distinct_map)
  then have "distinct (take n (map entry_id (sort_key ingested_at ?ys)))" for n
    by (rule distinct_take)
  then show ?thesis by (simp add: get_pending_entries_def Let_def take_map)
qed

lemma get_pending_entries_utcnow:
  "get_pending_entries config limit (snd (utcnow s)) = get_pending_entries config limit s"
  by (simp add: get_pending_entries_def utcnow_simps)

lemma state_ok_process_batch:
  assumes "state_ok s"
  shows "state_ok (snd (process_batch config online llm requested s))"
  using process_batch_state[of config online llm requested s]
proof (elim disjE exE conjE)
  assume "snd (process_batch config online llm requested s) = snd (utcnow (snd (utcnow s)))"
  then show ?thesis using assms by (simp add: state_ok_utcnow)
next
  fix cfg limit
  let ?s1 = "snd (utcnow s)"
  let ?es = "get_pending_entries config (Some limit) ?s1"
  let ?r = "process_entries llm 0 ?es (fst (new_stats s)) ?s1"
  assume b: "snd (process_batch config online llm requested s) = snd (utcnow (snd ?r))"
  have ok: "state_ok ?s1" using assms by (simp add: state_ok_utcnow)
  have "state_ok (snd ?r)"
  proof (rule state_ok_process_entries[OF _ ok])
    show "process_entries llm 0 ?es (fst (new_stats s)) ?s1 = (fst ?r, snd ?r)" by simp
    show "set ?es \<subseteq> set (raw_entries ?s1)" using get_pending_entries_set by blast
    show "distinct (map entry_id ?es)"
      using ok by (intro get_pending_entries_distinct) (simp add: state_ok_def)
    show "\<forall>e \<in> set ?es. selectable e" using get_pending_entries_set by blast
  qed
  then show ?thesis unfolding b by (simp add: state_ok_utcnow)
qed

lemma reaches_state_ok: "reaches s t \<Longrightarrow> state_ok s \<Longrightarrow> state_ok t"
  by (induction rule: reaches.induct)
     (auto intro: state_ok_ingest state_ok_process_batch state_ok_purge)

lemma reachable_state_ok: "reachable s \<Longrightarrow> state_ok s"
  by (auto simp: reachable_def intro: reaches_state_ok state_ok_empty)

lemma reaches_trans: "reaches t u \<Longrightarrow> reaches s t \<Longrightarrow> reaches s u"
  by (induction rule: reaches.induct) (auto intro: reaches.intros)

lemma exhausted_not_selected:
  assumes "processing_status e = FAILED" "3 \<le> processing_attempts e"
  shows "e \<notin> set (get_pending_entries config limit t)"
  using assms get_pending_entries_set[of config limit t] by (auto simp: selectable_def)

lemma exhausted_survives_batch:
  assumes ok: "state_ok t" and mem: "e \<in> set (raw_entries t)"
    and ex: "processing_status e = FAILED" "3 \<le> processing_attempts e"
  shows "e \<in> set (raw_entries (snd (process_batch config online llm requested t)))"
  using process_batch_state[of config online llm requested t]
proof (elim disjE exE conjE)
  assume "snd (process_batch config online llm requested t) = snd (utcnow (snd (utcnow t)))"
  then show ?thesis using mem by (simp add: utcnow_simps)
next
  fix cfg limit
  let ?s1 = "snd (utcnow t)"
  let ?es = "get_pending_entries config (Some limit) ?s1"
  let ?r = "process_entries llm 0 ?es (fst (new_stats t)) ?s1"
  assume b: "snd (process_batch config online llm requested t) = snd (utcnow (snd ?r))"
  have d: "distinct (map entry_id (raw_entries t))" using ok by (simp add: state_ok_def)
  have n: "entry_id e \<notin> entry_id ` set ?es"
  proof
    assume "entry_id e \<in> entry_id ` set ?es"
    then obtain y where y: "y \<in> set ?es" "entry_id y = entry_id e" by auto
    then have "y \<in> set (raw_entries t)"
      using get_pending_entries_set[of config "Some limit" ?s1] by (auto simp: utcnow_simps)
    with d mem y(2) have "y = e" by (meson distinct_map inj_onD)
    with y(1) exhausted_not_selected[OF ex] show False by blast
  qed
  have m: "e \<in> set (raw_entries ?s1)" using mem by (simp add: utcnow_simps)
  have p: "process_entries llm 0 ?es (fst (new_stats t)) ?s1 = (fst ?r, snd ?r)" by simp
  have "e \<in> set (raw_entries (snd ?r))" by (rule process_entries_rows[OF p m n])
  then show ?thesis unfolding b by (simp add: utcnow_simps)
qed

lemma exhausted_survives:
  assumes "reaches s t"
  shows "state_ok s \<Longrightarrow> e \<in> set (raw_entries s) \<Longrightarrow> processing_status e = FAILED \<Longrightarrow>
         3 \<le> processing_attempts e \<Longrightarrow> e \<in> set (raw_entries t)"
  using assms
proof (induction rule: reaches.induct)
  case (reaches_refl s)
  then show ?case by simp
next
  case (reaches_ingest s t src payload)
  then show ?case by (simp add: ingest_def utcnow_def Let_def)
next
  case (reaches_batch s t config online llm requested)
  have "state_ok t" using reaches_batch.hyps reaches_batch.prems(1) by (rule reaches_state_ok)
  moreover have "e \<in> set (raw_entries t)" using reaches_batch by blast
  ultimately show ?case using reaches_batch.prems(3,4) by (rule exhausted_survives_batch)
next
  case (reaches_purge s t days)
  then show ?case
    by (simp add: purge_old_entries_def utcnow_def Let_def purgeable_def)
qed

subsection \<open>Concrete runs\<close>

lemmas run_defs =
  process_batch_def new_stats_def finish_def utcnow_def get_pending_entries_def selectable_def
  process_entry_def fail_entry_def complete_entry_def save_entry_def save_vulnerability_def
  insert_vulnerability_def new_vulnerability_def db_get_def count_result_def
  ingest_def empty_state_def tick_clock_def default_config_def truthy_str_def Let_def
  lit_Nil_iff

lemma one_pending_eq:
  "one_pending = \<lparr> raw_entries = [pending_entry], vulnerabilities = [], clock = tick_clock,
      ticks = 1 \<rparr>"
  by (simp add: one_pending_def ingest_def empty_state_def utcnow_def tick_clock_def Let_def
      pending_entry_def)

lemma failing_batch1:
  "failing_batch one_pending =
     \<lparr> raw_entries = [pending_entry\<lparr>processing_status := FAILED, processing_attempts := 1,
          last_processing_error := Some (lit ''LLM error''), processed_at := Some 102\<rparr>],
       vulnerabilities = [], clock = tick_clock, ticks = 4 \<rparr>"
  by (simp add: failing_batch_def one_pending_eq run_defs failing_llm_def pending_entry_def)

lemma failing_batch2:
  "failing_batch (failing_batch one_pending) =
     \<lparr> raw_entries = [pending_entry\<lparr>processing_status := FAILED, processing_attempts := 2,
          last_processing_error := Some (lit ''LLM error''), processed_at := Some 105\<rparr>],
       vulnerabilities = [], clock = tick_clock, ticks = 7 \<rparr>"
  unfolding failing_batch1
  by (simp add: failing_batch_def run_defs failing_llm_def pending_entry_def)

lemma failing_batch3:
  "failing_batch (failing_batch (failing_batch one_pending)) =
     \<lparr> raw_entries = [exhausted_entry], vulnerabilities = [], clock = tick_clock,
       ticks = 10 \<rparr>"
  unfolding failing_batch2
  by (simp add: failing_batch_def run_defs failing_llm_def pending_entry_def
      exhausted_entry_def)

section \<open>The claims\<close>

text \<open>
  C1. For every validated extraction (every result of \<open>validate_extraction\<close>), the
  confidence score \<open>calculate_confidence\<close> computes is the formula of the specification:
  the weighted sum of the present fields over 100, less 0.05 for each validation issue up
  to 0.20, clamped to the interval from 0 to 1 and rounded to three decimals.
\<close>

theorem confidence_formula:
  assumes "validate_extraction py data raw_text = Inr v"
  shows "calculate_confidence v raw_text = spec_confidence v"
proof -
  note f = validate_extraction_truthy[OF assms]
  have m: "(30 + 20 + 15 + 10 + 15 + 10 :: real) = 100" by simp
  have "calculate_confidence v raw_text =
        py_round3 (max 0 (min 1 (spec_weighted_sum v / 100
           - real_of_int (min (int (length (v_validation_issues v)) * 5) 20) / 100)))"
    unfolding calculate_confidence_def spec_weighted_sum_def Let_def f description_points_eq m
    by (rule refl)
  then show ?thesis
    unfolding spec_confidence_def penalty_eq by (rule trans) (rule refl)
qed

theorem confidence_formula_witness:
  "validate_extraction sample_builtins acme_data acme_raw = Inr acme_validated \<and>
   calculate_confidence acme_validated acme_raw = spec_confidence acme_validated"
  using acme_validates confidence_formula [OF acme_validates] by simp

text \<open>
  C9, as the code has it. Validation returns a record unless the score is an integer
  that \<^verbatim>\<open>float\<close> cannot convert; that input is left out here. The severity of the record
  is an uppercase member of CRITICAL, HIGH, MEDIUM, LOW, NONE, UNKNOWN: the value of the
  provider, upper-cased and stripped, when it is one of them; UNKNOWN with a validation
  issue when the value is present (truthy) and is not one of them; UNKNOWN with no issue
  when the value is absent or falsy. The CVSS score is kept exactly when it is present
  and \<^verbatim>\<open>float\<close> converts it to a value between 0 and 10, and a present value that is not
  kept is discarded with a validation issue. In particular, for a provider output with
  severity SUPER_HIGH, score 15.0 and no CVE id, on a raw text whose first match of the
  pattern is CVE-2024-5678 and with the threshold 0.8, the result has severity UNKNOWN,
  no score, the CVE id of the raw text, a confidence below 0.8, and needs review.
\<close>

theorem validation_normalizes:
  "(\<not> too_large (dict_get data (lit ''cvss_score'')) \<longrightarrow>
      (\<exists>v. validate_extraction py data raw_text = Inr v \<and>
           severity_rule py data v \<and> cvss_rule py data v)) \<and>
   (ollama_client svc (model svc) (build_extraction_prompt raw_text) (temperature svc)
        SYSTEM_PROMPT = Inr g \<and>
    dict_get (gen_data g) (lit ''severity'') = JStr (lit ''SUPER_HIGH'') \<and>
    dict_get (gen_data g) (lit ''cvss_score'') = JFloat (Finite 15) \<and>
    \<not> truthy (dict_get (gen_data g) (lit ''cve_id'')) \<and>
    cve_search py raw_text = Some m \<and> upper py m = lit ''CVE-2024-5678'' \<and>
    confidence_threshold svc = 0.8 \<longrightarrow>
      (\<exists>r. extract_vulnerability py svc now raw_text = Inr r \<and>
           severity r = Some (lit ''UNKNOWN'') \<and> cvss_score r = None \<and>
           cve_id r = Some (lit ''CVE-2024-5678'') \<and> confidence_score r < 0.8 \<and>
           needs_review r))"
proof (intro conjI impI)
  assume "\<not> too_large (dict_get data (lit ''cvss_score''))"
  from validate_extraction_returns[OF this, of py raw_text]
  obtain v where v: "validate_extraction py data raw_text = Inr v" by blast
  have "severity_rule py data v" using v by (rule severity_rule_holds)
  moreover have "cvss_rule py data v" using v by (rule cvss_rule_holds)
  ultimately show "\<exists>v. validate_extraction py data raw_text = Inr v \<and>
           severity_rule py data v \<and> cvss_rule py data v"
    using v by blast
next
  assume a: "ollama_client svc (model svc) (build_extraction_prompt raw_text) (temperature svc)
        SYSTEM_PROMPT = Inr g \<and>
    dict_get (gen_data g) (lit ''severity'') = JStr (lit ''SUPER_HIGH'') \<and>
    dict_get (gen_data g) (lit ''cvss_score'') = JFloat (Finite 15) \<and>
    \<not> truthy (dict_get (gen_data g) (lit ''cve_id'')) \<and>
    cve_search py raw_text = Some m \<and> upper py m = lit ''CVE-2024-5678'' \<and>
    confidence_threshold svc = 0.8"
  then obtain v where v: "validate_extraction py (gen_data g) raw_text = Inr v"
    and f: "v_severity v = Some (lit ''UNKNOWN'')" "v_cvss_score v = None"
      "v_cve_id v = Some (lit ''CVE-2024-5678'')"
    and c: "calculate_confidence v raw_text \<le> 65 / 100"
    using scenario_validation[of "gen_data g" py raw_text m] by blast
  from a have g: "ollama_client svc (model svc) (build_extraction_prompt raw_text)
      (temperature svc) SYSTEM_PROMPT = Inr g" by blast
  from extract_vulnerability_validated[OF g v, of now] obtain meta where
    r: "extract_vulnerability py svc now raw_text =
           Inr (extraction_of_validated v raw_text (calculate_confidence v raw_text)
                  (calculate_confidence v raw_text < confidence_threshold svc) meta)"
    by blast
  from a have t: "confidence_threshold svc = 0.8" by blast
  show "\<exists>r. extract_vulnerability py svc now raw_text = Inr r \<and>
           severity r = Some (lit ''UNKNOWN'') \<and> cvss_score r = None \<and>
           cve_id r = Some (lit ''CVE-2024-5678'') \<and> confidence_score r < 0.8 \<and>
           needs_review r"
    unfolding r using f c t by (simp add: extraction_of_validated_def)
qed

theorem validation_normalizes_witness:
  "\<not> too_large (dict_get super_high_data (lit ''cvss_score'')) \<and>
   validate_extraction sample_builtins super_high_data super_high_raw = Inr super_high_validated \<and>
   severity_rule sample_builtins super_high_data super_high_validated \<and>
   cvss_rule sample_builtins super_high_data super_high_validated \<and>
   cve_search sample_builtins super_high_raw = Some (lit ''CVE-2024-5678'') \<and>
   (\<exists>r. extract_vulnerability sample_builtins super_high_service 0 super_high_raw = Inr r \<and>
        severity r = Some (lit ''UNKNOWN'') \<and> cvss_score r = None \<and>
        cve_id r = Some (lit ''CVE-2024-5678'') \<and> confidence_score r < 0.8 \<and> needs_review r)"
proof -
  have n: "\<not> too_large (dict_get super_high_data (lit ''cvss_score''))"
    by (simp add: super_high_data_def dict_get_def too_large_def lit_eq_iff)
  have v: "validate_extraction sample_builtins super_high_data super_high_raw =
      Inr super_high_validated"
    by (simp add: validation_defs super_high_data_def super_high_raw_def
        super_high_validated_def)
  have s: "cve_search sample_builtins super_high_raw = Some (lit ''CVE-2024-5678'')"
    by (simp add: super_high_raw_def cve_match_at_def text_defs)
  have u: "upper sample_builtins (lit ''CVE-2024-5678'') = lit ''CVE-2024-5678''"
    by (simp add: text_defs)
  have h: "ollama_client super_high_service (model super_high_service)
        (build_extraction_prompt super_high_raw) (temperature super_high_service)
        SYSTEM_PROMPT = Inr \<lparr> gen_data = super_high_data,
          gen_metadata = [(''model'', JStr (lit ''llama3'')), (''total_duration_ms'', JInt 1200)] \<rparr> \<and>
    dict_get super_high_data (lit ''severity'') = JStr (lit ''SUPER_HIGH'') \<and>
    dict_get super_high_data (lit ''cvss_score'') = JFloat (Finite 15) \<and>
    \<not> truthy (dict_get super_high_data (lit ''cve_id'')) \<and>
    confidence_threshold super_high_service = 0.8"
    by (simp add: super_high_service_def super_high_data_def dict_get_def lit_eq_iff)
  show ?thesis
    using n v s u h
      validation_normalizes [where py=sample_builtins and data=super_high_data
        and raw_text=super_high_raw and svc=super_high_service
        and g="\<lparr> gen_data = super_high_data,
           gen_metadata = [(''model'', JStr (lit ''llama3'')),
                           (''total_duration_ms'', JInt 1200)] \<rparr>"
        and m="lit ''CVE-2024-5678''" and now=0]
    by simp
qed

theorem missing_severity_counterexample:
  "dict_get no_severity_data (lit ''severity'') = JNull \<and>
   validate_extraction sample_builtins no_severity_data acme_raw =
     Inr \<lparr> v_cve_id = Some (lit ''CVE-2024-1234''), v_severity = Some (lit ''UNKNOWN''),
           v_cvss_score = None, v_title = None,
           v_description = Some (lit ''Critical authentication bypass allowing full takeover.''),
           v_vendor = None, v_product = None, v_cvss_vector = None,
           v_validation_issues = [] \<rparr>"
  by (simp add: validation_defs no_severity_data_def acme_raw_def)

text \<open>
  C4, on the code. \<open>extract_vulnerability\<close> has one handler, for \<^verbatim>\<open>OllamaModelError\<close>,
  and the validation catches \<^verbatim>\<open>ValueError\<close> and \<^verbatim>\<open>TypeError\<close> of \<^verbatim>\<open>float(cvss_score)\<close>
  but not \<^verbatim>\<open>OverflowError\<close>. When the provider returns a record whose score is the
  integer \<open>10 ^ 400\<close>, the conversion raises \<^verbatim>\<open>OverflowError\<close> and no handler catches
  it: \<open>extract_vulnerability\<close> raises to its caller and returns no result.
\<close>

theorem overflow_reaches_caller:
  "ollama_client huge_score_service (model huge_score_service)
      (build_extraction_prompt acme_raw) (temperature huge_score_service) SYSTEM_PROMPT
     = Inr \<lparr> gen_data = huge_score_data,
             gen_metadata = [(''model'', JStr (lit ''llama3'')),
                             (''total_duration_ms'', JInt 1500)] \<rparr> \<and>
   dict_get huge_score_data (lit ''cvss_score'') = JInt (10 ^ 400) \<and>
   py_float sample_builtins (JInt (10 ^ 400)) = Inl OverflowError \<and>
   extract_vulnerability sample_builtins huge_score_service 0 acme_raw = Inl OverflowError"
proof -
  have g: "ollama_client huge_score_service (model huge_score_service)
      (build_extraction_prompt acme_raw) (temperature huge_score_service) SYSTEM_PROMPT
     = Inr \<lparr> gen_data = huge_score_data,
             gen_metadata = [(''model'', JStr (lit ''llama3'')),
                             (''total_duration_ms'', JInt 1500)] \<rparr>"
    by (simp add: huge_score_service_def)
  have d: "dict_get huge_score_data (lit ''cvss_score'') = JInt (10 ^ 400)"
    by (simp add: huge_score_data_def dict_get_def lit_eq_iff)
  have o: "int_to_float (10 ^ 400) = None"
    by (rule int_to_float_overflow) simp
  have f: "py_float sample_builtins (JInt (10 ^ 400)) = Inl OverflowError"
    by (simp only: py_float_def json.case o option.case)
  have "too_large (dict_get huge_score_data (lit ''cvss_score''))"
    by (simp only: d too_large_def json.case o)
  then have "validate_extraction sample_builtins huge_score_data acme_raw = Inl OverflowError"
    by (rule validate_extraction_too_large)
  then have "extract_vulnerability sample_builtins huge_score_service 0 acme_raw
      = Inl OverflowError"
    by (simp add: extract_vulnerability_def extract_try_def g)
  with g d f show ?thesis by blast
qed

text \<open>
  C2, as the code has it. For every result \<open>extract_vulnerability\<close> returns, the
  confidence score lies between 0 and 1, and the result needs review if and only if its
  confidence is strictly below the configured threshold or it is the error-fallback result,
  which always needs review, whatever the threshold.
\<close>

theorem review_flag_rule:
  assumes "extract_vulnerability py svc now raw_text = Inr r"
  shows "0 \<le> confidence_score r \<and> confidence_score r \<le> 1 \<and>
         needs_review r =
           (confidence_score r < confidence_threshold svc \<or>
            meta_get (extraction_metadata r) ''fallback'' = Some (MBool True))"
  using extract_vulnerability_cases[OF assms]
proof (elim disjE exE conjE)
  fix msg
  assume "r = create_fallback_result py now raw_text msg"
  then show ?thesis
    by (simp add: create_fallback_result_def Let_def meta_get_def)
next
  fix g v meta
  assume r: "r = extraction_of_validated v raw_text (calculate_confidence v raw_text)
                  (calculate_confidence v raw_text < confidence_threshold svc) meta"
    and m: "map_of meta ''fallback'' = None"
  show ?thesis
    using calculate_confidence_range[of v raw_text]
    by (simp add: r m extraction_of_validated_def meta_get_def)
qed

theorem review_flag_rule_witness:
  "\<exists>r. extract_vulnerability sample_builtins acme_service 0 acme_raw = Inr r \<and>
       confidence_score r = 9 / 10 \<and> \<not> needs_review r \<and>
       meta_get (extraction_metadata r) ''fallback'' = None"
proof -
  have g: "ollama_client acme_service (model acme_service) (build_extraction_prompt acme_raw)
      (temperature acme_service) SYSTEM_PROMPT = Inr \<lparr> gen_data = acme_data,
          gen_metadata = [(''model'', JStr (lit ''llama3'')), (''total_duration_ms'', JInt 1500)] \<rparr>"
    by (simp add: acme_service_def)
  have v: "validate_extraction sample_builtins
      (gen_data \<lparr> gen_data = acme_data,
          gen_metadata = [(''model'', JStr (lit ''llama3'')), (''total_duration_ms'', JInt 1500)] \<rparr>)
      acme_raw = Inr acme_validated"
    by (simp add: acme_validates)
  from extract_vulnerability_validated[OF g v, of 0] obtain meta where
    r: "extract_vulnerability sample_builtins acme_service 0 acme_raw =
          Inr (extraction_of_validated acme_validated acme_raw
                 (calculate_confidence acme_validated acme_raw)
                 (calculate_confidence acme_validated acme_raw < confidence_threshold acme_service)
                 meta)"
    and m: "map_of meta ''fallback'' = None"
    by blast
  have t: "confidence_threshold acme_service = 0.8"
    by (simp add: acme_service_def)
  from review_flag_rule[OF r] show ?thesis
    unfolding r by (simp add: extraction_of_validated_def acme_confidence t m meta_get_def)
qed

theorem fallback_review_counterexample:
  "extract_vulnerability sample_builtins (timeout_service 0.05) 0 fallback_raw =
     Inr (create_fallback_result sample_builtins 0 fallback_raw (lit ''LLM timeout'')) \<and>
   needs_review (create_fallback_result sample_builtins 0 fallback_raw (lit ''LLM timeout'')) \<and>
   confidence_score (create_fallback_result sample_builtins 0 fallback_raw (lit ''LLM timeout'')) = 0.1 \<and>
   confidence_threshold (timeout_service 0.05) = 0.05 \<and>
   \<not> confidence_score (create_fallback_result sample_builtins 0 fallback_raw (lit ''LLM timeout''))
       < confidence_threshold (timeout_service 0.05)"
proof -
  have s: "cve_search sample_builtins fallback_raw = Some (lit ''CVE-2024-9999'')"
    by (simp add: fallback_raw_def cve_match_at_def text_defs)
  have e: "extract_vulnerability sample_builtins (timeout_service 0.05) 0 fallback_raw =
     Inr (create_fallback_result sample_builtins 0 fallback_raw (lit ''LLM timeout''))"
    by (simp add: extract_vulnerability_def extract_try_def timeout_service_def)
  show ?thesis
    using e by (simp add: create_fallback_result_def Let_def s truthy_str_def upper_nonempty
        lit_Nil_iff timeout_service_def)
qed

text \<open>
  C3, as the code has it. Let the raw text contain a substring \<open>m\<close> that matches the
  pattern. Then the search of the raw text finds a match \<open>m'\<close>: the leftmost one, which
  starts no later than \<open>m\<close> and, when it starts where \<open>m\<close> does, is \<open>m\<close> with all the digits
  that follow it. The error-fallback result has \<open>m'\<close> in upper case as its CVE id. When
  the provider returns a record (whose score is not an integer \<^verbatim>\<open>float\<close> cannot convert,
  an input left out here), the result has the provider's CVE id, upper-cased and
  stripped, when that is present and well-formed, and \<open>m'\<close> in upper case otherwise. The
  same holds for the multi-provider service, for the provider whose record it returns.
\<close>

theorem cve_id_of_extraction:
  assumes "raw_text = pre @ m @ post" and "cve_wellformed py m"
  shows "\<exists>pre' m' post'.
           raw_text = pre' @ m' @ post' \<and> cve_wellformed py m' \<and> cve_search py raw_text = Some m' \<and>
           length pre' \<le> length pre \<and>
           (length pre' = length pre \<longrightarrow> m' = m @ takeWhile (is_decimal py) post) \<and>
           (\<forall>msg. ollama_client svc (model svc) (build_extraction_prompt raw_text)
                    (temperature svc) SYSTEM_PROMPT = Inl (OllamaModelError msg) \<longrightarrow>
                  (\<exists>r. extract_vulnerability py svc now raw_text = Inr r \<and>
                       cve_id r = Some (upper py m'))) \<and>
           (\<forall>g. ollama_client svc (model svc) (build_extraction_prompt raw_text)
                    (temperature svc) SYSTEM_PROMPT = Inr g \<and>
                  \<not> too_large (dict_get (gen_data g) (lit ''cvss_score'')) \<longrightarrow>
                  (\<exists>r. extract_vulnerability py svc now raw_text = Inr r \<and>
                       cve_id r = Some (chosen_cve_id py (gen_data g) m'))) \<and>
           (\<forall>r. fst (multi_extract_vulnerability py msvc now raw_text) = Inr r \<longrightarrow>
                  cve_id r = Some (upper py m') \<or>
                  (\<exists>p \<in> set (providers_to_try msvc). \<exists>g.
                      provider_outcome msvc raw_text p = Inr g \<and>
                      cve_id r = Some (chosen_cve_id py (gen_data g) m')))"
proof -
  from cve_search_finds[OF assms(2), of pre post] obtain pre' m' post' where
    h: "pre @ m @ post = pre' @ m' @ post'" "cve_search py (pre @ m @ post) = Some m'"
      "cve_wellformed py m'" "length pre' \<le> length pre"
      "length pre' = length pre \<longrightarrow> m' = m @ takeWhile (is_decimal py) post"
    by blast
  have s: "cve_search py raw_text = Some m'" using h(2) assms(1) by simp
  have a: "\<forall>msg. ollama_client svc (model svc) (build_extraction_prompt raw_text)
                    (temperature svc) SYSTEM_PROMPT = Inl (OllamaModelError msg) \<longrightarrow>
                  (\<exists>r. extract_vulnerability py svc now raw_text = Inr r \<and>
                       cve_id r = Some (upper py m'))"
    using extract_vulnerability_cve_id[OF s] by blast
  have b: "\<forall>g. ollama_client svc (model svc) (build_extraction_prompt raw_text)
                    (temperature svc) SYSTEM_PROMPT = Inr g \<and>
                  \<not> too_large (dict_get (gen_data g) (lit ''cvss_score'')) \<longrightarrow>
                  (\<exists>r. extract_vulnerability py svc now raw_text = Inr r \<and>
                       cve_id r = Some (chosen_cve_id py (gen_data g) m'))"
  proof (intro allI impI)
    fix g
    assume a: "ollama_client svc (model svc) (build_extraction_prompt raw_text)
                    (temperature svc) SYSTEM_PROMPT = Inr g \<and>
                  \<not> too_large (dict_get (gen_data g) (lit ''cvss_score''))"
    then obtain v where "validate_extraction py (gen_data g) raw_text = Inr v"
      using validate_extraction_returns[of "gen_data g" py raw_text] by blast
    with a show "\<exists>r. extract_vulnerability py svc now raw_text = Inr r \<and>
                       cve_id r = Some (chosen_cve_id py (gen_data g) m')"
      using extract_vulnerability_cve_id[OF s, of svc msg now g v] by blast
  qed
  have c: "\<forall>r. fst (multi_extract_vulnerability py msvc now raw_text) = Inr r \<longrightarrow>
                  cve_id r = Some (upper py m') \<or>
                  (\<exists>p \<in> set (providers_to_try msvc). \<exists>g.
                      provider_outcome msvc raw_text p = Inr g \<and>
                      cve_id r = Some (chosen_cve_id py (gen_data g) m'))"
  proof (intro allI impI)
    fix r
    assume "fst (multi_extract_vulnerability py msvc now raw_text) = Inr r"
    then have "try_providers py msvc now raw_text 0 (providers_to_try msvc) None [] =
        (Inr r, snd (multi_extract_vulnerability py msvc now raw_text))"
      by (simp add: multi_extract_vulnerability_def prod_eq_iff)
    from try_providers_result[OF this]
    show "cve_id r = Some (upper py m') \<or>
                  (\<exists>p \<in> set (providers_to_try msvc). \<exists>g.
                      provider_outcome msvc raw_text p = Inr g \<and>
                      cve_id r = Some (chosen_cve_id py (gen_data g) m'))"
    proof (elim disjE exE bexE conjE)
      fix e assume "r = all_failed_result py now raw_text e"
      then show ?thesis by (simp add: all_failed_result_def fallback_cve_id[OF s])
    next
      fix p g v meta
      assume p: "p \<in> set (providers_to_try msvc)"
        and g: "provider_outcome msvc raw_text p = Inr g"
        and v: "validate_extraction py (gen_data g) raw_text = Inr v"
        and r: "r = extraction_of_validated v raw_text (calculate_confidence v raw_text)
            (calculate_confidence v raw_text < m_confidence_threshold msvc) meta"
      have "cve_id r = Some (chosen_cve_id py (gen_data g) m')"
        using validate_extraction_sel(1)[OF v] validate_cve_id_found[OF s, of "gen_data g"]
        by (simp add: r extraction_of_validated_def)
      with p g show ?thesis by blast
    qed
  qed
  from h(1,3,4,5) assms(1) s a b c show ?thesis by blast
qed

theorem cve_id_of_extraction_witness:
  "acme_raw = [] @ lit ''CVE-2024-1234'' @ lit '': Critical auth bypass in Acme CMS, CVSS 9.8'' \<and>
   cve_wellformed sample_builtins (lit ''CVE-2024-1234'') \<and>
   cve_search sample_builtins acme_raw = Some (lit ''CVE-2024-1234'') \<and>
   (\<exists>r. extract_vulnerability sample_builtins (timeout_service 0.8) 0 acme_raw = Inr r \<and>
        cve_id r = Some (lit ''CVE-2024-1234''))"
proof -
  have d: "acme_raw = [] @ lit ''CVE-2024-1234'' @ lit '': Critical auth bypass in Acme CMS, CVSS 9.8''"
    by (simp add: acme_raw_def lit_def)
  have w: "cve_wellformed sample_builtins (lit ''CVE-2024-1234'')"
    by (simp add: cve_wellformed_def text_defs)
  have s: "cve_search sample_builtins acme_raw = Some (lit ''CVE-2024-1234'')"
    by (simp add: acme_raw_def cve_match_at_def text_defs)
  have u: "upper sample_builtins (lit ''CVE-2024-1234'') = lit ''CVE-2024-1234''"
    by (simp add: text_defs)
  have c: "ollama_client (timeout_service 0.8) (model (timeout_service 0.8))
      (build_extraction_prompt acme_raw) (temperature (timeout_service 0.8)) SYSTEM_PROMPT
      = Inl (OllamaModelError (lit ''LLM timeout''))"
    by (simp add: timeout_service_def)
  from cve_id_of_extraction [OF d w, where svc="timeout_service 0.8" and now=0]
  obtain m' where "cve_search sample_builtins acme_raw = Some m'"
    and "\<forall>msg. ollama_client (timeout_service 0.8) (model (timeout_service 0.8))
            (build_extraction_prompt acme_raw) (temperature (timeout_service 0.8)) SYSTEM_PROMPT
            = Inl (OllamaModelError msg) \<longrightarrow>
          (\<exists>r. extract_vulnerability sample_builtins (timeout_service 0.8) 0 acme_raw = Inr r \<and>
               cve_id r = Some (upper sample_builtins m'))"
    by blast
  with s c u have "\<exists>r. extract_vulnerability sample_builtins (timeout_service 0.8) 0 acme_raw = Inr r \<and>
        cve_id r = Some (lit ''CVE-2024-1234'')"
    by auto
  with d w s show ?thesis by blast
qed

theorem provider_cve_id_counterexample:
  "acme_raw = lit ''CVE-2024-1234'' @ lit '': Critical auth bypass in Acme CMS, CVSS 9.8'' \<and>
   cve_wellformed sample_builtins (lit ''CVE-2024-1234'') \<and>
   map_sum id cve_id (extract_vulnerability sample_builtins other_cve_service 0 acme_raw)
     = Inr (Some (lit ''CVE-2020-0001''))"
proof -
  have d: "acme_raw = lit ''CVE-2024-1234'' @ lit '': Critical auth bypass in Acme CMS, CVSS 9.8''"
    by (simp add: acme_raw_def lit_def)
  have w: "cve_wellformed sample_builtins (lit ''CVE-2024-1234'')"
    by (simp add: cve_wellformed_def text_defs)
  have g: "ollama_client other_cve_service (model other_cve_service)
      (build_extraction_prompt acme_raw) (temperature other_cve_service) SYSTEM_PROMPT
      = Inr \<lparr> gen_data = other_cve_data, gen_metadata = [] \<rparr>"
    by (simp add: other_cve_service_def)
  have v: "validate_extraction sample_builtins
      (gen_data \<lparr> gen_data = other_cve_data, gen_metadata = [] \<rparr>) acme_raw =
     Inr \<lparr> v_cve_id = Some (lit ''CVE-2020-0001''), v_severity = Some (lit ''UNKNOWN''),
           v_cvss_score = None, v_title = None,
           v_description = Some (lit ''Critical authentication bypass allowing full takeover.''),
           v_vendor = None, v_product = None, v_cvss_vector = None,
           v_validation_issues = [] \<rparr>"
    by (simp add: validation_defs other_cve_data_def acme_raw_def)
  from extract_vulnerability_validated[OF g v, of 0]
  have "map_sum id cve_id (extract_vulnerability sample_builtins other_cve_service 0 acme_raw)
     = Inr (Some (lit ''CVE-2020-0001''))"
    by (auto simp: extraction_of_validated_def)
  with d w show ?thesis by blast
qed

text \<open>
  C5. \<open>multi_extract_vulnerability\<close> calls the providers in order, the primary first: the
  calls made are a prefix of the list of the primary followed by the fallbacks. It calls at
  most \<open>max_retries\<close> providers in all (3 by default). It moves to the next provider only
  after a connection or generation error of the one before, so the first provider that
  returns ends the loop, and it does go on while providers fail with such errors and
  providers and retries remain. The result of the last provider called, when it returns a
  record that validates, carries that provider's name and its position in the metadata.
  When the primary raises a connection error and the single fallback succeeds, the
  metadata records \<^verbatim>\<open>fallback_attempt\<close> 1 and the name of the fallback as the provider.
\<close>

theorem provider_fallback_order:
  "(let ps = providers_to_try svc;
        calls = snd (multi_extract_vulnerability py svc now raw_text)
    in length calls \<le> length ps \<and>
       calls = map provider_name (take (length calls) ps) \<and>
       int (length calls) \<le> max 0 (max_retries svc) \<and>
       (\<forall>i. Suc i < length calls \<longrightarrow>
            is_provider_error (provider_outcome svc raw_text (ps ! i))) \<and>
       (\<forall>i < length ps. int i < max_retries svc \<and>
            (\<forall>j<i. is_provider_error (provider_outcome svc raw_text (ps ! j))) \<longrightarrow>
            i < length calls) \<and>
       (\<forall>i g v. Suc i = length calls \<and> provider_outcome svc raw_text (ps ! i) = Inr g \<and>
            validate_extraction py (gen_data g) raw_text = Inr v \<longrightarrow>
            (\<exists>r. fst (multi_extract_vulnerability py svc now raw_text) = Inr r \<and>
                 meta_get (extraction_metadata r) ''provider'' =
                   Some (MStr (provider_name (ps ! i))) \<and>
                 meta_get (extraction_metadata r) ''fallback_attempt'' = Some (MNat i)))) \<and>
   max_retries (MultiProviderLLMService primary fallbacks) = 3 \<and>
   (provider_outcome svc raw_text (primary_provider svc) = Inl (LLMConnectionError e) \<and>
    fallback_providers svc = [fb] \<and> provider_outcome svc raw_text fb = Inr g \<and>
    validate_extraction py (gen_data g) raw_text = Inr v \<and> 2 \<le> max_retries svc \<longrightarrow>
      (\<exists>r. multi_extract_vulnerability py svc now raw_text =
             (Inr r, [provider_name (primary_provider svc), provider_name fb]) \<and>
           meta_get (extraction_metadata r) ''fallback_attempt'' = Some (MNat 1) \<and>
           meta_get (extraction_metadata r) ''provider'' = Some (MStr (provider_name fb))))"
proof (intro conjI)
  let ?ps = "providers_to_try svc"
  let ?res = "fst (multi_extract_vulnerability py svc now raw_text)"
  let ?calls = "snd (multi_extract_vulnerability py svc now raw_text)"
  have t: "try_providers py svc now raw_text 0 ?ps None [] = (?res, ?calls)"
    by (simp add: multi_extract_vulnerability_def)
  from try_providers_calls[OF t] obtain k where
    k: "k \<le> length ?ps" "?calls = map provider_name (take k ?ps)"
      "0 < k \<longrightarrow> int k \<le> max_retries svc"
      "\<forall>i. Suc i < k \<longrightarrow> is_provider_error (provider_outcome svc raw_text (?ps ! i))"
      "\<forall>i < length ?ps. int i < max_retries svc \<and>
           (\<forall>j<i. is_provider_error (provider_outcome svc raw_text (?ps ! j))) \<longrightarrow> i < k"
    by auto
  have l: "length ?calls = k" using k(1,2) by simp
  have w: "\<forall>i g v. Suc i = length ?calls \<and> provider_outcome svc raw_text (?ps ! i) = Inr g \<and>
            validate_extraction py (gen_data g) raw_text = Inr v \<longrightarrow>
            (\<exists>r. ?res = Inr r \<and>
                 meta_get (extraction_metadata r) ''provider'' =
                   Some (MStr (provider_name (?ps ! i))) \<and>
                 meta_get (extraction_metadata r) ''fallback_attempt'' = Some (MNat i))"
  proof (intro allI impI)
    fix i g v
    assume a: "Suc i = length ?calls \<and> provider_outcome svc raw_text (?ps ! i) = Inr g \<and>
            validate_extraction py (gen_data g) raw_text = Inr v"
    then have "length ?calls = length ([]::pystr list) + Suc i" by simp
    moreover have "i < length ?ps" using a l k(1) by simp
    ultimately show "\<exists>r. ?res = Inr r \<and>
                 meta_get (extraction_metadata r) ''provider'' =
                   Some (MStr (provider_name (?ps ! i))) \<and>
                 meta_get (extraction_metadata r) ''fallback_attempt'' = Some (MNat i)"
      using try_providers_winner[OF t, of i g v] a by simp
  qed
  show "let ps = ?ps; calls = ?calls
    in length calls \<le> length ps \<and>
       calls = map provider_name (take (length calls) ps) \<and>
       int (length calls) \<le> max 0 (max_retries svc) \<and>
       (\<forall>i. Suc i < length calls \<longrightarrow>
            is_provider_error (provider_outcome svc raw_text (ps ! i))) \<and>
       (\<forall>i < length ps. int i < max_retries svc \<and>
            (\<forall>j<i. is_provider_error (provider_outcome svc raw_text (ps ! j))) \<longrightarrow>
            i < length calls) \<and>
       (\<forall>i g v. Suc i = length calls \<and> provider_outcome svc raw_text (ps ! i) = Inr g \<and>
            validate_extraction py (gen_data g) raw_text = Inr v \<longrightarrow>
            (\<exists>r. fst (multi_extract_vulnerability py svc now raw_text) = Inr r \<and>
                 meta_get (extraction_metadata r) ''provider'' =
                   Some (MStr (provider_name (ps ! i))) \<and>
                 meta_get (extraction_metadata r) ''fallback_attempt'' = Some (MNat i)))"
    unfolding Let_def l
  proof (intro conjI)
    show "k \<le> length ?ps" by (rule k(1))
    show "?calls = map provider_name (take k ?ps)" by (rule k(2))
    show "int k \<le> max 0 (max_retries svc)" using k(3) by (cases k) auto
    show "\<forall>i. Suc i < k \<longrightarrow> is_provider_error (provider_outcome svc raw_text (?ps ! i))"
      by (rule k(4))
    show "\<forall>i < length ?ps. int i < max_retries svc \<and>
           (\<forall>j<i. is_provider_error (provider_outcome svc raw_text (?ps ! j))) \<longrightarrow> i < k"
      by (rule k(5))
    show "\<forall>i g v. Suc i = k \<and> provider_outcome svc raw_text (?ps ! i) = Inr g \<and>
            validate_extraction py (gen_data g) raw_text = Inr v \<longrightarrow>
            (\<exists>r. ?res = Inr r \<and>
                 meta_get (extraction_metadata r) ''provider'' =
                   Some (MStr (provider_name (?ps ! i))) \<and>
                 meta_get (extraction_metadata r) ''fallback_attempt'' = Some (MNat i))"
      using w unfolding l .
  qed
next
  show "max_retries (MultiProviderLLMService primary fallbacks) = 3"
    by (simp add: MultiProviderLLMService_def)
next
  show "provider_outcome svc raw_text (primary_provider svc) = Inl (LLMConnectionError e) \<and>
    fallback_providers svc = [fb] \<and> provider_outcome svc raw_text fb = Inr g \<and>
    validate_extraction py (gen_data g) raw_text = Inr v \<and> 2 \<le> max_retries svc \<longrightarrow>
      (\<exists>r. multi_extract_vulnerability py svc now raw_text =
             (Inr r, [provider_name (primary_provider svc), provider_name fb]) \<and>
           meta_get (extraction_metadata r) ''fallback_attempt'' = Some (MNat 1) \<and>
           meta_get (extraction_metadata r) ''provider'' = Some (MStr (provider_name fb)))"
  proof
    assume a: "provider_outcome svc raw_text (primary_provider svc) = Inl (LLMConnectionError e) \<and>
      fallback_providers svc = [fb] \<and> provider_outcome svc raw_text fb = Inr g \<and>
      validate_extraction py (gen_data g) raw_text = Inr v \<and> 2 \<le> max_retries svc"
    then have ps: "providers_to_try svc = [primary_provider svc, fb]"
      by (simp add: providers_to_try_def)
    from a try_providers_fallback_scenario[of svc raw_text "primary_provider svc" e fb g py v now]
    show "\<exists>r. multi_extract_vulnerability py svc now raw_text =
             (Inr r, [provider_name (primary_provider svc), provider_name fb]) \<and>
           meta_get (extraction_metadata r) ''fallback_attempt'' = Some (MNat 1) \<and>
           meta_get (extraction_metadata r) ''provider'' = Some (MStr (provider_name fb))"
      unfolding multi_extract_vulnerability_def ps by blast
  qed
qed

theorem provider_fallback_order_witness:
  "snd (multi_extract_vulnerability sample_builtins
          (MultiProviderLLMService down_provider [acme_provider]) 0 acme_raw)
     = [lit ''ollama'', lit ''claude''] \<and>
   (\<exists>r. multi_extract_vulnerability sample_builtins
          (MultiProviderLLMService down_provider [acme_provider]) 0 acme_raw
        = (Inr r, [lit ''ollama'', lit ''claude'']) \<and>
        meta_get (extraction_metadata r) ''fallback_attempt'' = Some (MNat 1) \<and>
        meta_get (extraction_metadata r) ''provider'' = Some (MStr (lit ''claude'')))"
proof -
  let ?svc = "MultiProviderLLMService down_provider [acme_provider]"
  let ?g = "\<lparr> gen_data = acme_data,
          gen_metadata = [(''model'', JStr (lit ''claude'')), (''input_tokens'', JInt 10)] \<rparr>"
  have h: "provider_outcome ?svc acme_raw (primary_provider ?svc)
        = Inl (LLMConnectionError (lit ''Cannot connect to Ollama'')) \<and>
      fallback_providers ?svc = [acme_provider] \<and>
      provider_outcome ?svc acme_raw acme_provider = Inr ?g \<and>
      validate_extraction sample_builtins (gen_data ?g) acme_raw = Inr acme_validated \<and>
      2 \<le> max_retries ?svc"
    by (simp add: MultiProviderLLMService_def provider_outcome_def down_provider_def
        acme_provider_def acme_validates)
  have n: "provider_name (primary_provider ?svc) = lit ''ollama''"
      "provider_name acme_provider = lit ''claude''"
    by (simp_all add: MultiProviderLLMService_def down_provider_def acme_provider_def)
  from h provider_fallback_order [of ?svc sample_builtins 0 acme_raw down_provider
      "[acme_provider]" "lit ''Cannot connect to Ollama''" acme_provider ?g acme_validated]
  have "\<exists>r. multi_extract_vulnerability sample_builtins ?svc 0 acme_raw
        = (Inr r, [provider_name (primary_provider ?svc), provider_name acme_provider]) \<and>
        meta_get (extraction_metadata r) ''fallback_attempt'' = Some (MNat 1) \<and>
        meta_get (extraction_metadata r) ''provider'' = Some (MStr (provider_name acme_provider))"
    by blast
  then show ?thesis unfolding n by auto
qed

text \<open>
  C6, as the code has it. When \<open>process_entry\<close> finds an existing vulnerability for the
  extracted CVE id: if the new confidence strictly exceeds the stored one, each of title,
  description, severity, CVSS score and CVSS vector takes the value of the extraction when
  the extraction has one (a text that is not empty, a score other than zero) and keeps the
  stored value when the extraction has none;
  confidence, needs-review flag and metadata are overwritten, the update timestamp is set
  to the clock, and no other column changes. If the new confidence is not greater, no
  vulnerability is changed. In both cases the entry is marked COMPLETED.
\<close>

theorem reconcile_existing:
  assumes llm: "llm (raw_payload entry) = Inr x"
    and cve: "cve_id x = Some c" "c \<noteq> []"
    and ex: "db_get s c = Some existing"
    and run: "process_entry llm s entry = (result, entry', s')"
  shows "processing_status entry' = COMPLETED \<and>
         (\<forall>e \<in> set (raw_entries s'). entry_id e = entry_id entry \<longrightarrow>
              processing_status e = COMPLETED) \<and>
         (vuln_confidence_score existing < confidence_score x \<longrightarrow>
            (\<exists>v. result = Some v \<and> db_get s' c = Some v \<and>
                 length (vulnerabilities s') = length (vulnerabilities s) \<and>
                 vuln_title v = (if truthy_str (title x) then title x else vuln_title existing) \<and>
                 vuln_description v =
                   (if description x \<noteq> [] then description x else vuln_description existing) \<and>
                 vuln_severity v =
                   (if truthy_str (severity x) then severity x else vuln_severity existing) \<and>
                 (cvss_score x = None \<longrightarrow> vuln_cvss_score v = vuln_cvss_score existing) \<and>
                 (\<forall>r. cvss_score x = Some r \<and> r \<noteq> 0 \<longrightarrow> vuln_cvss_score v = Some r) \<and>
                 vuln_cvss_vector v =
                   (if truthy_str (cvss_vector x) then cvss_vector x
                    else vuln_cvss_vector existing) \<and>
                 vuln_confidence_score v = confidence_score x \<and>
                 vuln_needs_review v = needs_review x \<and>
                 vuln_extraction_metadata v = Some (extraction_metadata x) \<and>
                 updated_at v = clock s (ticks s) \<and>
                 vuln_cve_id v = vuln_cve_id existing \<and>
                 created_at v = created_at existing \<and>
                 epss_score v = epss_score existing \<and>
                 kev_status v = kev_status existing \<and>
                 kev_date_added v = kev_date_added existing \<and>
                 remediated_at v = remediated_at existing \<and>
                 published_date v = published_date existing)) \<and>
         (confidence_score x \<le> vuln_confidence_score existing \<longrightarrow>
            result = None \<and> vulnerabilities s' = vulnerabilities s)"
proof (cases "vuln_confidence_score existing < confidence_score x")
  case True
  let ?m = "merged existing x (clock s (ticks s))"
  from process_entry_update[where llm=llm and entry=entry and s=s, OF llm cve ex True] run
  have r: "result = Some ?m"
    and e: "entry' = fst (complete_entry (started entry)
              (save_vulnerability ?m (snd (utcnow (save_entry (started entry) s)))))"
    and s': "s' = snd (complete_entry (started entry)
              (save_vulnerability ?m (snd (utcnow (save_entry (started entry) s)))))"
    by (simp_all add: prod_eq_iff)
  have c: "vuln_cve_id existing = c" using ex by (auto simp: db_get_def dest: find_cve_id)
  have 1: "processing_status entry' = COMPLETED" by (simp add: e complete_entry_simps)
  have 2: "\<forall>e \<in> set (raw_entries s'). entry_id e = entry_id entry \<longrightarrow>
              processing_status e = COMPLETED"
    by (auto simp: s' complete_entry_simps save_vulnerability_simps utcnow_simps
        save_entry_simps started_simps)
  have 3: "db_get s' c = Some ?m"
    using ex c
    by (simp add: s' db_get_def complete_entry_simps save_vulnerability_simps utcnow_simps
        save_entry_simps find_replace_first merged_simps)
  have 4: "length (vulnerabilities s') = length (vulnerabilities s)"
    by (simp add: s' complete_entry_simps save_vulnerability_simps utcnow_simps
        save_entry_simps length_replace_first)
  from True 1 2 3 4 r show ?thesis
    by (auto simp: merged_simps or_str_def or_text_def or_float_def)
next
  case False
  from process_entry_skip[where llm=llm and entry=entry and s=s, OF llm cve ex False] run
  have r: "result = None"
    and e: "entry' = fst (complete_entry (started entry) (save_entry (started entry) s))"
    and s': "s' = snd (complete_entry (started entry) (save_entry (started entry) s))"
    by (simp_all add: prod_eq_iff)
  have 1: "processing_status entry' = COMPLETED" by (simp add: e complete_entry_simps)
  have 2: "\<forall>e \<in> set (raw_entries s'). entry_id e = entry_id entry \<longrightarrow>
              processing_status e = COMPLETED"
    by (auto simp: s' complete_entry_simps save_entry_simps started_simps)
  have 3: "vulnerabilities s' = vulnerabilities s"
    by (simp add: s' complete_entry_simps save_entry_simps)
  from False 1 2 3 r show ?thesis by simp
qed

theorem reconcile_existing_witness:
  "db_get stored_state (lit ''CVE-2024-1234'') = Some old_vuln \<and>
   processing_status (fst (snd (process_entry acme_llm stored_state pending_entry))) = COMPLETED \<and>
   (\<exists>v. fst (process_entry acme_llm stored_state pending_entry) = Some v \<and>
        db_get (snd (snd (process_entry acme_llm stored_state pending_entry))) (lit ''CVE-2024-1234'')
          = Some v \<and>
        vuln_title v = Some (lit ''Old title'') \<and>
        vuln_description v = lit ''Critical authentication bypass allowing full takeover.'' \<and>
        vuln_severity v = Some (lit ''CRITICAL'') \<and> vuln_cvss_score v = Some 9.8 \<and>
        vuln_confidence_score v = 0.9 \<and> \<not> vuln_needs_review v \<and>
        updated_at v = 100 \<and> created_at v = 10)"
proof -
  have l: "acme_llm (raw_payload pending_entry) = Inr better_extraction"
    by (simp add: acme_llm_def)
  have c: "cve_id better_extraction = Some (lit ''CVE-2024-1234'')"
    "lit ''CVE-2024-1234'' \<noteq> []"
    by (simp_all add: better_extraction_def lit_Nil_iff)
  have d: "db_get stored_state (lit ''CVE-2024-1234'') = Some old_vuln"
    by (simp add: db_get_def stored_state_def old_vuln_def)
  have p: "process_entry acme_llm stored_state pending_entry =
      (fst (process_entry acme_llm stored_state pending_entry),
       fst (snd (process_entry acme_llm stored_state pending_entry)),
       snd (snd (process_entry acme_llm stored_state pending_entry)))"
    by simp
  have v: "vuln_confidence_score old_vuln < confidence_score better_extraction"
    by (simp add: old_vuln_def better_extraction_def)
  from reconcile_existing [OF l c d p] v d show ?thesis
    by (auto simp: better_extraction_def old_vuln_def truthy_str_def stored_state_def lit_Nil_iff
        tick_clock_def)
qed

theorem title_kept_counterexample:
  "db_get stored_state (lit ''CVE-2024-1234'') = Some old_vuln \<and>
   cve_id better_extraction = Some (lit ''CVE-2024-1234'') \<and>
   vuln_confidence_score old_vuln < confidence_score better_extraction \<and>
   title better_extraction = None \<and>
   map_option vuln_title (fst (process_entry acme_llm stored_state pending_entry))
     = Some (Some (lit ''Old title''))"
proof -
  have l: "acme_llm (raw_payload pending_entry) = Inr better_extraction"
    by (simp add: acme_llm_def)
  have c: "cve_id better_extraction = Some (lit ''CVE-2024-1234'')"
    "lit ''CVE-2024-1234'' \<noteq> []"
    by (simp_all add: better_extraction_def lit_Nil_iff)
  have d: "db_get stored_state (lit ''CVE-2024-1234'') = Some old_vuln"
    by (simp add: db_get_def stored_state_def old_vuln_def)
  have v: "vuln_confidence_score old_vuln < confidence_score better_extraction"
    by (simp add: old_vuln_def better_extraction_def)
  have t: "title better_extraction = None" by (simp add: better_extraction_def)
  from process_entry_update[where llm=acme_llm and entry=pending_entry and s=stored_state,
      OF l c d v]
  have "map_option vuln_title (fst (process_entry acme_llm stored_state pending_entry))
     = Some (Some (lit ''Old title''))"
    by (simp add: merged_simps or_str_def t truthy_str_def old_vuln_def)
  with d c(1) v t show ?thesis by blast
qed

text \<open>
  C7. In every reachable state the vulnerabilities have pairwise different CVE ids, and
  \<open>process_entry\<close> keeps them so. Reconciliation is idempotent: from a store without
  vulnerabilities, processing two entries whose extraction is the same result (with a CVE
  id) creates one vulnerability at the first and skips at the second, which returns
  nothing, leaves the vulnerabilities as they are and marks its entry COMPLETED.
\<close>

theorem one_row_per_cve:
  "(reachable s \<longrightarrow> distinct (map vuln_cve_id (vulnerabilities s))) \<and>
   (distinct (map vuln_cve_id (vulnerabilities s)) \<longrightarrow>
      distinct (map vuln_cve_id (vulnerabilities (snd (snd (process_entry llm s entry)))))) \<and>
   (vulnerabilities s = [] \<and> llm (raw_payload e1) = Inr x \<and> llm (raw_payload e2) = Inr x \<and>
    cve_id x = Some c \<and> c \<noteq> [] \<longrightarrow>
      (let (r1, e1', s1) = process_entry llm s e1;
           (r2, e2', s2) = process_entry llm s1 e2
       in r1 \<noteq> None \<and> length (vulnerabilities s1) = 1 \<and> r2 = None \<and>
          vulnerabilities s2 = vulnerabilities s1 \<and> length (vulnerabilities s2) = 1 \<and>
          processing_status e2' = COMPLETED))"
proof (intro conjI impI)
  assume "reachable s"
  then show "distinct (map vuln_cve_id (vulnerabilities s))"
    by (auto dest: reachable_state_ok simp: state_ok_def)
next
  assume d: "distinct (map vuln_cve_id (vulnerabilities s))"
  have "process_entry llm s entry =
      (fst (process_entry llm s entry), fst (snd (process_entry llm s entry)),
       snd (snd (process_entry llm s entry)))"
    by simp
  from process_entry_vulnerabilities[OF this d]
  show "distinct (map vuln_cve_id (vulnerabilities (snd (snd (process_entry llm s entry)))))" .
next
  assume a: "vulnerabilities s = [] \<and> llm (raw_payload e1) = Inr x \<and>
    llm (raw_payload e2) = Inr x \<and> cve_id x = Some c \<and> c \<noteq> []"
  then have l1: "llm (raw_payload e1) = Inr x" and l2: "llm (raw_payload e2) = Inr x"
    and c: "cve_id x = Some c" "c \<noteq> []" and e: "vulnerabilities s = []"
    by blast+
  have n: "db_get s c = None" using e by (simp add: db_get_def)
  let ?s0 = "snd (complete_entry (started e1) (save_entry (started e1) s))"
  let ?v = "fst (insert_vulnerability (new_vulnerability c x) ?s0)"
  let ?s1 = "snd (insert_vulnerability (new_vulnerability c x) ?s0)"
  have p1: "process_entry llm s e1 = (Some ?v, fst (complete_entry (started e1)
      (save_entry (started e1) s)), ?s1)"
    by (rule process_entry_create[where llm=llm and entry=e1 and s=s, OF l1 c n])
  have v1: "vulnerabilities ?s1 = [?v]"
    by (simp add: insert_vulnerability_simps complete_entry_simps save_entry_simps e)
  have g: "db_get ?s1 c = Some ?v"
    by (simp add: db_get_def v1) (simp add: insert_vulnerability_simps new_vulnerability_def)
  have nl: "\<not> vuln_confidence_score ?v < confidence_score x"
    by (simp add: insert_vulnerability_simps new_vulnerability_def)
  have p2: "process_entry llm ?s1 e2 =
      (None, complete_entry (started e2) (save_entry (started e2) ?s1))"
    by (rule process_entry_skip[where llm=llm and entry=e2 and s="?s1", OF l2 c g nl])
  show "let (r1, e1', s1) = process_entry llm s e1;
           (r2, e2', s2) = process_entry llm s1 e2
       in r1 \<noteq> None \<and> length (vulnerabilities s1) = 1 \<and> r2 = None \<and>
          vulnerabilities s2 = vulnerabilities s1 \<and> length (vulnerabilities s2) = 1 \<and>
          processing_status e2' = COMPLETED"
    unfolding p1 Let_def prod.case p2
    by (simp add: split_beta v1 complete_entry_simps save_entry_simps)
qed

theorem one_row_per_cve_witness:
  "reachable one_pending \<and> vulnerabilities one_pending = [] \<and>
   distinct (map vuln_cve_id (vulnerabilities one_pending)) \<and>
   (let (r1, e1', s1) = process_entry acme_llm one_pending pending_entry;
        (r2, e2', s2) = process_entry acme_llm s1 (pending_entry\<lparr>entry_id := 2\<rparr>)
    in r1 \<noteq> None \<and> length (vulnerabilities s1) = 1 \<and> r2 = None \<and>
       vulnerabilities s2 = vulnerabilities s1 \<and> length (vulnerabilities s2) = 1 \<and>
       processing_status e2' = COMPLETED)"
proof -
  have r: "reachable one_pending"
    unfolding reachable_def one_pending_def
    by (intro exI[of _ tick_clock] reaches_ingest reaches_refl)
  have e: "vulnerabilities one_pending = []" by (simp add: one_pending_eq)
  have h: "acme_llm (raw_payload pending_entry) = Inr better_extraction \<and>
      acme_llm (raw_payload (pending_entry\<lparr>entry_id := 2\<rparr>)) = Inr better_extraction \<and>
      cve_id better_extraction = Some (lit ''CVE-2024-1234'') \<and> lit ''CVE-2024-1234'' \<noteq> []"
    by (simp add: acme_llm_def better_extraction_def lit_Nil_iff)
  from r e h
    one_row_per_cve [where s=one_pending and llm=acme_llm and entry=pending_entry
      and ?e1.0=pending_entry and ?e2.0="pending_entry\<lparr>entry_id := 2\<rparr>"
      and x=better_extraction and c="lit ''CVE-2024-1234''"]
  show ?thesis by simp
qed

text \<open>
  C8. The entries \<open>get_pending_entries\<close> selects are PENDING, or FAILED with fewer than
  three attempts. Every call of \<open>process_entry\<close> adds one attempt. An entry of a reachable
  state that is FAILED with three or more attempts stays in the table as it is and is
  selected by no batch, in every state any later run reaches. In every reachable state no
  entry has more than three attempts.
\<close>

theorem retry_ceiling:
  "(\<forall>e \<in> set (get_pending_entries config limit s).
       processing_status e = PENDING \<or>
       (processing_status e = FAILED \<and> processing_attempts e < 3)) \<and>
   (process_entry llm s entry = (r, entry', s') \<longrightarrow>
       processing_attempts entry' = processing_attempts entry + 1) \<and>
   (reachable s \<and> reaches s t \<and> x \<in> set (raw_entries s) \<and>
    processing_status x = FAILED \<and> 3 \<le> processing_attempts x \<longrightarrow>
       x \<in> set (raw_entries t) \<and> x \<notin> set (get_pending_entries config limit t)) \<and>
   (reachable s \<longrightarrow> (\<forall>e \<in> set (raw_entries s). processing_attempts e \<le> 3))"
proof (intro conjI impI ballI)
  fix e assume "e \<in> set (get_pending_entries config limit s)"
  then show "processing_status e = PENDING \<or>
       (processing_status e = FAILED \<and> processing_attempts e < 3)"
    using get_pending_entries_set[of config limit s] by (auto simp: selectable_def)
next
  assume "process_entry llm s entry = (r, entry', s')"
  then show "processing_attempts entry' = processing_attempts entry + 1"
    by (rule process_entry_entry(2))
next
  assume a: "reachable s \<and> reaches s t \<and> x \<in> set (raw_entries s) \<and>
    processing_status x = FAILED \<and> 3 \<le> processing_attempts x"
  then have "state_ok s" by (auto dest: reachable_state_ok)
  with a show "x \<in> set (raw_entries t)" by (auto intro: exhausted_survives)
next
  assume a: "reachable s \<and> reaches s t \<and> x \<in> set (raw_entries s) \<and>
    processing_status x = FAILED \<and> 3 \<le> processing_attempts x"
  then have "processing_status x = FAILED" "3 \<le> processing_attempts x" by blast+
  then show "x \<notin> set (get_pending_entries config limit t)"
    by (rule exhausted_not_selected)
next
  fix e assume "reachable s" "e \<in> set (raw_entries s)"
  then show "processing_attempts e \<le> 3"
    by (auto dest: reachable_state_ok simp: state_ok_def entry_ok_def)
qed

theorem retry_ceiling_witness:
  "get_pending_entries (Some default_config) None one_pending = [pending_entry] \<and>
   processing_status pending_entry = PENDING \<and>
   reachable exhausted_state \<and> reaches exhausted_state exhausted_state \<and>
   raw_entries exhausted_state = [exhausted_entry] \<and>
   processing_status exhausted_entry = FAILED \<and> processing_attempts exhausted_entry = 3 \<and>
   exhausted_entry \<in> set (raw_entries exhausted_state) \<and>
   exhausted_entry \<notin> set (get_pending_entries (Some default_config) None exhausted_state) \<and>
   processing_attempts (fst (snd (process_entry acme_llm one_pending pending_entry))) = 1"
proof -
  have p: "get_pending_entries (Some default_config) None one_pending = [pending_entry]"
    by (simp add: one_pending_eq get_pending_entries_def default_config_def selectable_def
        pending_entry_def)
  have r1: "reachable one_pending"
    unfolding reachable_def one_pending_def
    by (intro exI[of _ tick_clock] reaches_ingest reaches_refl)
  have r: "reachable exhausted_state"
    using r1 unfolding reachable_def exhausted_state_def failing_batch_def
    by (auto intro: reaches_batch)
  have e: "raw_entries exhausted_state = [exhausted_entry]"
    by (simp add: exhausted_state_def failing_batch3)
  have f: "processing_status exhausted_entry = FAILED" "processing_attempts exhausted_entry = 3"
    by (simp_all add: exhausted_entry_def)
  have q: "process_entry acme_llm one_pending pending_entry =
      (fst (process_entry acme_llm one_pending pending_entry),
       fst (snd (process_entry acme_llm one_pending pending_entry)),
       snd (snd (process_entry acme_llm one_pending pending_entry)))"
    by simp
  have a: "processing_attempts pending_entry = 0" by (simp add: pending_entry_def)
  from retry_ceiling [where llm=acme_llm and s=one_pending and entry=pending_entry
      and r="fst (process_entry acme_llm one_pending pending_entry)"
      and entry'="fst (snd (process_entry acme_llm one_pending pending_entry))"
      and s'="snd (snd (process_entry acme_llm one_pending pending_entry))"]
    q a
  have 1: "processing_attempts (fst (snd (process_entry acme_llm one_pending pending_entry))) = 1"
    by simp
  from retry_ceiling [where s=exhausted_state and t=exhausted_state and x=exhausted_entry
      and config="Some default_config" and limit=None]
    r e f reaches_refl[of exhausted_state]
  have 2: "exhausted_entry \<in> set (raw_entries exhausted_state) \<and>
     exhausted_entry \<notin> set (get_pending_entries (Some default_config) None exhausted_state)"
    by simp
  from p r e f 1 2 reaches_refl[of exhausted_state] show ?thesis
    by (simp add: pending_entry_def)
qed

text \<open>
  C10, on the code. A batch over one pending entry and an empty vulnerability table, with
  an extraction that has a CVE id and a clock that advances at every reading, inserts
  the new vulnerability, and the statistics count it as updated and as a duplicate, not
  as created: the inserted row has \<open>created_at\<close> and \<open>updated_at\<close> from two readings of
  the clock.
\<close>

theorem created_counted_as_updated:
  "vulnerabilities one_pending = [] \<and>
   map vuln_cve_id (vulnerabilities
     (snd (process_batch (Some default_config) True acme_batch_llm None one_pending)))
     = [lit ''CVE-2024-1234''] \<and>
   fst (process_batch (Some default_config) True acme_batch_llm None one_pending) =
     \<lparr> processed = 1, created = 0, updated = 1, failed = 0, skipped = 0, duplicates = 1,
       purged = 0, started_at = 101, ended_at = Some 105 \<rparr>"
  by (simp add: one_pending_eq pending_entry_def run_defs acme_batch_llm_def
      better_extraction_def)

end
